theory Spec2Isabelle
  imports Complex_Main
begin

section \<open>JavaScript numbers\<close>

text \<open>
  The simulation computes with JavaScript numbers. They are modelled as real numbers
  (rounding and overflow are not modelled) together with \<open>NaN\<close>, which the program
  can produce: \<open>0 / 0\<close> is \<open>NaN\<close>, every arithmetic operation on \<open>NaN\<close> is \<open>NaN\<close>, and
  every comparison with \<open>NaN\<close> is false. Only the coordinates and velocities of agents
  and food (\<open>x\<close>, \<open>y\<close>, \<open>dx\<close>, \<open>dy\<close>) and the distances computed from them have this
  type; energy, age, size and the innate rates never receive a value computed from
  a coordinate and stay real.
\<close>

datatype jsnum = Num real | NaN

instantiation jsnum :: "{plus, minus, times, uminus, inverse, abs, ord}"
begin

fun plus_jsnum :: "jsnum \<Rightarrow> jsnum \<Rightarrow> jsnum" where
  "Num a + Num b = Num (a + b)"
| "(_ :: jsnum) + _ = NaN"

fun minus_jsnum :: "jsnum \<Rightarrow> jsnum \<Rightarrow> jsnum" where
  "Num a - Num b = Num (a - b)"
| "(_ :: jsnum) - _ = NaN"

fun times_jsnum :: "jsnum \<Rightarrow> jsnum \<Rightarrow> jsnum" where
  "Num a * Num b = Num (a * b)"
| "(_ :: jsnum) * _ = NaN"

fun uminus_jsnum :: "jsnum \<Rightarrow> jsnum" where
  "- Num a = Num (- a)"
| "- NaN = NaN"

text \<open>
  Division: \<open>0 / 0\<close> is \<open>NaN\<close>. A non-zero dividend over \<open>0\<close> is an infinity in
  JavaScript; the program never divides a non-zero number by zero (its only unguarded
  divisor is a distance, which is \<open>0\<close> only when both dividends are), so infinities are
  not part of the model and that quotient is given as \<open>NaN\<close> as well.
\<close>

fun divide_jsnum :: "jsnum \<Rightarrow> jsnum \<Rightarrow> jsnum" where
  "divide_jsnum (Num a) (Num b) = (if b = 0 then NaN else Num (a / b))"
| "divide_jsnum _ _ = NaN"

definition inverse_jsnum :: "jsnum \<Rightarrow> jsnum" where
  "inverse_jsnum a = divide (Num 1) a"

fun abs_jsnum :: "jsnum \<Rightarrow> jsnum" where
  "\<bar>Num a\<bar> = Num \<bar>a\<bar>"
| "\<bar>NaN\<bar> = NaN"

fun less_jsnum :: "jsnum \<Rightarrow> jsnum \<Rightarrow> bool" where
  "Num a < Num b \<longleftrightarrow> a < b"
| "(_ :: jsnum) < _ \<longleftrightarrow> False"

fun less_eq_jsnum :: "jsnum \<Rightarrow> jsnum \<Rightarrow> bool" where
  "Num a \<le> Num b \<longleftrightarrow> a \<le> b"
| "(_ :: jsnum) \<le> _ \<longleftrightarrow> False"

instance ..

end

text \<open>\<open>Math.hypot(a, b)\<close>.\<close>

fun hypot :: "jsnum \<Rightarrow> jsnum \<Rightarrow> jsnum" where
  "hypot (Num a) (Num b) = Num (sqrt (a\<^sup>2 + b\<^sup>2))"
| "hypot _ _ = NaN"

text \<open>\<open>d || 1\<close>: the right operand when \<open>d\<close> is falsy, and \<open>0\<close> and \<open>NaN\<close> are falsy.\<close>

fun or_one :: "jsnum \<Rightarrow> jsnum" where
  "or_one (Num d) = (if d = 0 then Num 1 else Num d)"
| "or_one NaN = Num 1"

section \<open>Data model\<close>

datatype kind = Carnivore | Herbivore | Neutral

text \<open>
  \<open>interface Agent\<close>. The fields declared optional (\<open>reproCooldown?\<close>, \<open>lastAteTicks?\<close>,
  \<open>seedCooldown?\<close>, \<open>stuckTicks?\<close>) are options, \<open>None\<close> for \<open>undefined\<close>; \<open>metabolism\<close>
  is an option as well because \<open>update\<close> tests it against \<open>undefined\<close>. The identity
  and the counters only ever hold whole numbers (the program assigns them a counter,
  a \<open>Math.floor\<close>, 0, 600 or 700, and adds or subtracts 1) and are \<open>nat\<close> and \<open>int\<close>.
\<close>

record agent =
  a_id :: nat
  a_x :: jsnum
  a_y :: jsnum
  a_dx :: jsnum
  a_dy :: jsnum
  a_energy :: real
  a_age :: real
  a_speed :: real
  a_vision :: real
  a_size :: real
  a_type :: kind
  a_reproCooldown :: "int option"
  a_metabolism :: "real option"
  a_lastAteTicks :: "int option"
  a_seedCooldown :: "int option"
  a_stuckTicks :: "int option"

record food_item =
  f_id :: real
  f_x :: jsnum
  f_y :: jsnum

record sample =
  herb :: nat
  carn :: nat
  neutral :: nat

text \<open>The component's state between two ticks: the contents of its refs.\<close>

record world =
  w_agents :: "agent list"
  w_food :: "food_item list"
  w_history :: "sample list"
  w_nextId :: nat

text \<open>The values of the sliders, read by \<open>update\<close>.\<close>

record params =
  herbivoreSpeed :: real
  carnivoreSpeed :: real
  foodSpawnRate :: real
  timeScale :: real
  carnivoreMetabolismScale :: real
  carnivoreCatchRadius :: real
  carnivoreReproThreshold :: real
  maxCarnivores :: real
  herbivoreReproThreshold :: real
  maxHerbivores :: real

definition WORLD_WIDTH :: real where "WORLD_WIDTH = 800"
definition WORLD_HEIGHT :: real where "WORLD_HEIGHT = 500"
definition INITIAL_AGENTS :: nat where "INITIAL_AGENTS = 100"
definition INITIAL_FOOD :: nat where "INITIAL_FOOD = 60"

text \<open>
  The state of one run of \<open>update\<close>. \<open>agentsRef\<close> is \<open>agentsRef.current\<close>, which the
  loop reads and never assigns; \<open>foodRef\<close> and \<open>nextIdRef\<close> are mutated in place;
  \<open>updatedAgents\<close>, \<open>eatenHerbivores\<close> and \<open>spawnedHerbivores\<close> are the variables
  declared before the loop; \<open>rng\<close> counts the calls of \<open>Math.random()\<close> made so far
  (the n-th call returns \<open>rnd n\<close> for the sequence \<open>rnd\<close> the tick is run with). The
  fields \<open>l_...\<close> are the variables of the current loop iteration (\<open>x\<close>, \<open>y\<close>, \<open>dx\<close>, ...,
  and \<open>l_seedCooldown\<close> for \<open>agent.seedCooldown\<close>: the iteration assigns that field of
  the agent object itself, and within the tick only the iteration of that agent reads
  it, when it copies the object into the output).
\<close>

record tick =
  agentsRef :: "agent list"
  foodRef :: "food_item list"
  nextIdRef :: nat
  updatedAgents :: "agent list"
  eatenHerbivores :: "nat set"
  spawnedHerbivores :: nat
  rng :: nat
  l_x :: jsnum
  l_y :: jsnum
  l_dx :: jsnum
  l_dy :: jsnum
  l_energy :: real
  l_age :: real
  l_size :: real
  l_reproCooldown :: int
  l_metabolism :: real
  l_lastAteTicks :: int
  l_stuckTicks :: int
  l_seedCooldown :: "int option"
  l_pursuing :: bool

section \<open>One iteration of the loop of \<open>update\<close>\<close>

definition baseMetabolism :: "kind \<Rightarrow> real" where
  "baseMetabolism t = (if t = Carnivore then 0.14 else if t = Herbivore then 0.07 else 0.055)"

text \<open>The destructuring of \<open>agent\<close> with its defaults, and the fallback metabolism.\<close>

definition load :: "(nat \<Rightarrow> real) \<Rightarrow> agent \<Rightarrow> tick \<Rightarrow> tick" where
  "load rnd a s =
     (let s1 = s\<lparr>l_x := a_x a, l_y := a_y a, l_dx := a_dx a, l_dy := a_dy a,
                 l_energy := a_energy a, l_age := a_age a, l_size := a_size a,
                 l_reproCooldown := (case a_reproCooldown a of None \<Rightarrow> 0 | Some c \<Rightarrow> c),
                 l_lastAteTicks := (case a_lastAteTicks a of None \<Rightarrow> 0 | Some c \<Rightarrow> c),
                 l_stuckTicks := (case a_stuckTicks a of None \<Rightarrow> 0 | Some c \<Rightarrow> c),
                 l_seedCooldown := a_seedCooldown a,
                 l_pursuing := False\<rparr>
      in case a_metabolism a of
           Some m \<Rightarrow> s1\<lparr>l_metabolism := m\<rparr>
         | None \<Rightarrow> s1\<lparr>l_metabolism := max 0.02 (baseMetabolism (a_type a) + (rnd (rng s) - 0.5) * 0.03),
                       rng := rng s + 1\<rparr>)"

definition adjustedSpeed :: "params \<Rightarrow> agent \<Rightarrow> real" where
  "adjustedSpeed P a =
     (if a_type a = Herbivore then a_speed a * herbivoreSpeed P
      else if a_type a = Carnivore then a_speed a * carnivoreSpeed P
      else a_speed a * 0.8)"

text \<open>
  \<open>xs.reduce((closest, f) => d(f) < d(closest) ? f : closest)\<close> on a non-empty array:
  the first element at the least distance from \<open>(x, y)\<close>. Every call is guarded by
  a test that the array is not empty.
\<close>

definition nearest_food :: "jsnum \<Rightarrow> jsnum \<Rightarrow> food_item list \<Rightarrow> food_item" where
  "nearest_food x y fs =
     foldl (\<lambda>closest f. if hypot (f_x f - x) (f_y f - y) < hypot (f_x closest - x) (f_y closest - y)
                          then f else closest) (hd fs) (tl fs)"

definition nearest_agent :: "jsnum \<Rightarrow> jsnum \<Rightarrow> agent list \<Rightarrow> agent" where
  "nearest_agent x y ps =
     foldl (\<lambda>closest p. if hypot (a_x p - x) (a_y p - y) < hypot (a_x closest - x) (a_y closest - y)
                          then p else closest) (hd ps) (tl ps)"

text \<open>Lines 357-368: a herbivore accelerates toward the nearest food within its vision.\<close>

definition seek_food :: "agent \<Rightarrow> tick \<Rightarrow> tick" where
  "seek_food a s =
     (if a_type a = Herbivore \<and> foodRef s \<noteq> [] then
        (let nearestFood = nearest_food (l_x s) (l_y s) (foodRef s);
             dist = hypot (f_x nearestFood - l_x s) (f_y nearestFood - l_y s)
         in if dist < Num (a_vision a)
            then s\<lparr>l_dx := l_dx s + ((f_x nearestFood - l_x s) / dist) * Num 0.45,
                   l_dy := l_dy s + ((f_y nearestFood - l_y s) / dist) * Num 0.45,
                   l_pursuing := True\<rparr>
            else s)
      else s)"

text \<open>Lines 370-385: a herbivore flees from the nearest carnivore.\<close>

definition flee :: "agent \<Rightarrow> tick \<Rightarrow> tick" where
  "flee a s =
     (if a_type a = Herbivore then
        (let hunters = filter (\<lambda>b. a_type b = Carnivore) (agentsRef s)
         in if hunters \<noteq> [] then
              (let nearestHunter = nearest_agent (l_x s) (l_y s) hunters;
                   pd = hypot (a_x nearestHunter - l_x s) (a_y nearestHunter - l_y s)
               in if pd < Num (a_vision a * 0.9)
                  then s\<lparr>l_dx := l_dx s - ((a_x nearestHunter - l_x s) / or_one pd) * Num 0.35,
                         l_dy := l_dy s - ((a_y nearestHunter - l_y s) / or_one pd) * Num 0.35\<rparr>
                  else s)
            else s)
      else s)"

text \<open>Lines 387-432: a carnivore pursues the nearest herbivore, or wanders.\<close>

definition pursue :: "(nat \<Rightarrow> real) \<Rightarrow> agent \<Rightarrow> tick \<Rightarrow> tick" where
  "pursue rnd a s =
     (let prey = filter (\<lambda>b. a_type b = Herbivore) (agentsRef s);
          nearest = nearest_agent (l_x s) (l_y s) prey;
          dist = hypot (a_x nearest - l_x s) (a_y nearest - l_y s)
      in if dist < Num (a_vision a) then
           (let ux = (a_x nearest - l_x s) / or_one dist;
                uy = (a_y nearest - l_y s) / or_one dist;
                dx1 = l_dx s * Num 0.85 + ux * Num 0.7;
                dy1 = l_dy s * Num 0.85 + uy * Num 0.7;
                sp = hypot dx1 dy1
            in if sp < Num 0.25
               then s\<lparr>l_dx := dx1 + ux * Num 0.6, l_dy := dy1 + uy * Num 0.6, l_pursuing := True\<rparr>
               else s\<lparr>l_dx := dx1, l_dy := dy1, l_pursuing := True\<rparr>)
         else s\<lparr>l_dx := l_dx s + Num ((rnd (rng s) - 0.5) * 0.06),
                l_dy := l_dy s + Num ((rnd (rng s + 1) - 0.5) * 0.06),
                rng := rng s + 2\<rparr>)"

definition avoid_food :: "tick \<Rightarrow> tick" where
  "avoid_food s =
     (if foodRef s \<noteq> [] then
        (let nearestFood = nearest_food (l_x s) (l_y s) (foodRef s);
             fd = hypot (f_x nearestFood - l_x s) (f_y nearestFood - l_y s)
         in if fd < Num 12
            then (let fx = (f_x nearestFood - l_x s) / or_one fd;
                      fy = (f_y nearestFood - l_y s) / or_one fd
                  in s\<lparr>l_dx := l_dx s - fx * Num 0.5, l_dy := l_dy s - fy * Num 0.5\<rparr>)
            else s)
      else s)"

definition hunt :: "(nat \<Rightarrow> real) \<Rightarrow> agent \<Rightarrow> tick \<Rightarrow> tick" where
  "hunt rnd a s =
     (if a_type a = Carnivore then
        (if filter (\<lambda>b. a_type b = Herbivore) (agentsRef s) \<noteq> []
         then avoid_food (pursue rnd a s)
         else s\<lparr>l_dx := l_dx s + Num ((rnd (rng s) - 0.5) * 0.06),
                l_dy := l_dy s + Num ((rnd (rng s + 1) - 0.5) * 0.06),
                rng := rng s + 2\<rparr>)
      else s)"

text \<open>
  Lines 434-447: a neutral agent drifts, seeds food at its own position and gains a
  little energy. \<open>now\<close> is the value of \<open>Date.now()\<close>, taken to be the same at every
  call of one tick; it only goes into the identities of food items, which nothing
  reads. The right operand of \<open>&&\<close> calls \<open>Math.random()\<close> only when the seed cooldown
  has run out.
\<close>

definition seed :: "(nat \<Rightarrow> real) \<Rightarrow> real \<Rightarrow> tick \<Rightarrow> tick" where
  "seed rnd now s =
     (let sc = (case l_seedCooldown s of None \<Rightarrow> 0 | Some c \<Rightarrow> c)
      in if sc \<le> 0 then
           (if rnd (rng s) < 0.02
            then s\<lparr>foodRef := foodRef s @ [\<lparr>f_id = now + rnd (rng s + 1), f_x = l_x s, f_y = l_y s\<rparr>],
                   l_seedCooldown := Some (250 + \<lfloor>rnd (rng s + 2) * 200\<rfloor>),
                   rng := rng s + 3\<rparr>
            else (case l_seedCooldown s of
                    Some c \<Rightarrow> if c \<noteq> 0 \<and> c > 0 then s\<lparr>l_seedCooldown := Some (c - 1), rng := rng s + 1\<rparr>
                              else s\<lparr>rng := rng s + 1\<rparr>
                  | None \<Rightarrow> s\<lparr>rng := rng s + 1\<rparr>))
         else (case l_seedCooldown s of
                 Some c \<Rightarrow> if c \<noteq> 0 \<and> c > 0 then s\<lparr>l_seedCooldown := Some (c - 1)\<rparr> else s
               | None \<Rightarrow> s))"

definition drift :: "(nat \<Rightarrow> real) \<Rightarrow> real \<Rightarrow> agent \<Rightarrow> tick \<Rightarrow> tick" where
  "drift rnd now a s =
     (if a_type a = Neutral then
        (let s1 = s\<lparr>l_dx := l_dx s + Num ((rnd (rng s) - 0.5) * 0.1),
                    l_dy := l_dy s + Num ((rnd (rng s + 1) - 0.5) * 0.1),
                    rng := rng s + 2\<rparr>;
             s2 = seed rnd now s1
         in if rnd (rng s2) < 0.002
            then s2\<lparr>l_energy := l_energy s2 + 5, rng := rng s2 + 1\<rparr>
            else s2\<lparr>rng := rng s2 + 1\<rparr>)
      else s)"

text \<open>Lines 449-455: the baseline wander of every kind.\<close>

definition wander :: "(nat \<Rightarrow> real) \<Rightarrow> agent \<Rightarrow> tick \<Rightarrow> tick" where
  "wander rnd a s =
     (let baseWander = (if a_type a = Neutral then 0.12 else 0.06);
          searchBoost = (if a_type a = Carnivore \<and> \<not> l_pursuing s then 2.0 else 1.0);
          wanderStrength = (if l_pursuing s then baseWander * 0.15 else baseWander * searchBoost)
      in s\<lparr>l_dx := l_dx s + Num ((rnd (rng s) - 0.5) * wanderStrength),
            l_dy := l_dy s + Num ((rnd (rng s + 1) - 0.5) * wanderStrength),
            rng := rng s + 2\<rparr>)"

text \<open>Perception and steering: lines 356-455.\<close>

definition steer :: "(nat \<Rightarrow> real) \<Rightarrow> real \<Rightarrow> agent \<Rightarrow> tick \<Rightarrow> tick" where
  "steer rnd now a s = wander rnd a (drift rnd now a (hunt rnd a (flee a (seek_food a s))))"

text \<open>Lines 457-461: the move, scaled by the global time scale, and the damping.\<close>

definition move :: "params \<Rightarrow> agent \<Rightarrow> tick \<Rightarrow> tick" where
  "move P a s =
     s\<lparr>l_x := l_x s + l_dx s * Num (adjustedSpeed P a) * Num (timeScale P),
       l_y := l_y s + l_dy s * Num (adjustedSpeed P a) * Num (timeScale P),
       l_dx := l_dx s * Num 0.97,
       l_dy := l_dy s * Num 0.97\<rparr>"

definition maxVel :: "kind \<Rightarrow> real" where
  "maxVel t = (if t = Carnivore then 3.2 else 2.5)"

text \<open>Lines 463-469; \<open>spd\<close> is the constant computed once, before the cap.\<close>

definition cap_velocity :: "agent \<Rightarrow> jsnum \<Rightarrow> tick \<Rightarrow> tick" where
  "cap_velocity a spd s =
     (if Num (maxVel (a_type a)) < spd
      then s\<lparr>l_dx := (l_dx s / spd) * Num (maxVel (a_type a)),
             l_dy := (l_dy s / spd) * Num (maxVel (a_type a))\<rparr>
      else s)"

text \<open>Lines 470-475.\<close>

definition min_speed_kick :: "(nat \<Rightarrow> real) \<Rightarrow> jsnum \<Rightarrow> tick \<Rightarrow> tick" where
  "min_speed_kick rnd spd s =
     (if spd < Num 0.08
      then (let angle = rnd (rng s) * pi * 2
            in s\<lparr>l_dx := l_dx s + Num (cos angle * 0.35),
                  l_dy := l_dy s + Num (sin angle * 0.35),
                  rng := rng s + 1\<rparr>)
      else s)"

text \<open>Lines 477-485.\<close>

definition stuck_detection :: "(nat \<Rightarrow> real) \<Rightarrow> jsnum \<Rightarrow> tick \<Rightarrow> tick" where
  "stuck_detection rnd spd s =
     (let st = (if spd < Num 0.12 then l_stuckTicks s + 1
                else if l_stuckTicks s > 0 then l_stuckTicks s - 1
                else l_stuckTicks s)
      in if st > 60
         then (let angle = rnd (rng s) * pi * 2
               in s\<lparr>l_dx := l_dx s + Num (cos angle * 1.0),
                     l_dy := l_dy s + Num (sin angle * 1.0),
                     l_stuckTicks := 0,
                     rng := rng s + 1\<rparr>)
         else s\<lparr>l_stuckTicks := st\<rparr>)"

text \<open>Lines 487-488: the velocity is reflected on the axis that was crossed.\<close>

definition reflect :: "tick \<Rightarrow> tick" where
  "reflect s =
     (let s1 = (if l_x s < Num 0 \<or> Num WORLD_WIDTH < l_x s then s\<lparr>l_dx := - l_dx s\<rparr> else s)
      in if l_y s1 < Num 0 \<or> Num WORLD_HEIGHT < l_y s1 then s1\<lparr>l_dy := - l_dy s1\<rparr> else s1)"

text \<open>Lines 489-493: the position is clamped and the velocity nudged inward.\<close>

definition clamp_inside :: "tick \<Rightarrow> tick" where
  "clamp_inside s =
     (let s1 = (if l_x s < Num 1 then s\<lparr>l_x := Num 1, l_dx := \<bar>l_dx s\<bar> + Num 0.2\<rparr> else s);
          s2 = (if Num (WORLD_WIDTH - 1) < l_x s1
                then s1\<lparr>l_x := Num (WORLD_WIDTH - 1), l_dx := - \<bar>l_dx s1\<bar> - Num 0.2\<rparr> else s1);
          s3 = (if l_y s2 < Num 1 then s2\<lparr>l_y := Num 1, l_dy := \<bar>l_dy s2\<bar> + Num 0.2\<rparr> else s2)
      in if Num (WORLD_HEIGHT - 1) < l_y s3
         then s3\<lparr>l_y := Num (WORLD_HEIGHT - 1), l_dy := - \<bar>l_dy s3\<bar> - Num 0.2\<rparr> else s3)"

text \<open>Kinematics: lines 457-493.\<close>

definition kinematics :: "params \<Rightarrow> (nat \<Rightarrow> real) \<Rightarrow> agent \<Rightarrow> tick \<Rightarrow> tick" where
  "kinematics P rnd a s =
     (let s1 = move P a s;
          spd = hypot (l_dx s1) (l_dy s1)
      in clamp_inside (reflect (stuck_detection rnd spd (min_speed_kick rnd spd (cap_velocity a spd s1)))))"

text \<open>
  Lines 496-505: the index of the first food item closer than 8 to \<open>(x, y)\<close>, which
  \<open>splice(i, 1)\<close> removes.
\<close>

fun food_in_reach :: "jsnum \<Rightarrow> jsnum \<Rightarrow> food_item list \<Rightarrow> nat \<Rightarrow> nat option" where
  "food_in_reach x y [] i = None"
| "food_in_reach x y (f # fs) i =
     (if hypot (f_x f - x) (f_y f - y) < Num 8 then Some i else food_in_reach x y fs (Suc i))"

definition graze :: "tick \<Rightarrow> tick" where
  "graze s =
     (case food_in_reach (l_x s) (l_y s) (foodRef s) 0 of
        Some i \<Rightarrow> s\<lparr>l_energy := l_energy s + 35,
                     foodRef := take i (foodRef s) @ drop (Suc i) (foodRef s),
                     l_lastAteTicks := 0\<rparr>
      | None \<Rightarrow> s)"

definition currentHerbivores :: "tick \<Rightarrow> nat" where
  "currentHerbivores s = length (filter (\<lambda>b. a_type b = Herbivore) (agentsRef s))"

definition currentCarnivores :: "tick \<Rightarrow> nat" where
  "currentCarnivores s = length (filter (\<lambda>b. a_type b = Carnivore) (agentsRef s))"

text \<open>Lines 507-534.\<close>

definition herbivore_child :: "(nat \<Rightarrow> real) \<Rightarrow> agent \<Rightarrow> tick \<Rightarrow> agent" where
  "herbivore_child rnd a s =
     \<lparr>a_id = nextIdRef s,
      a_x = l_x s + Num ((rnd (rng s + 2) - 0.5) * 10),
      a_y = l_y s + Num ((rnd (rng s + 3) - 0.5) * 10),
      a_dx = l_dx s + Num ((rnd (rng s + 4) - 0.5) * 0.5),
      a_dy = l_dy s + Num ((rnd (rng s + 5) - 0.5) * 0.5),
      a_energy = 35,
      a_age = 0,
      a_speed = max 0.4 (min 2.0 (a_speed a * (0.95 + rnd (rng s) * 0.1))),
      a_vision = max 30 (min 70 (a_vision a * (0.95 + rnd (rng s + 1) * 0.1))),
      a_size = 5,
      a_type = Herbivore,
      a_reproCooldown = Some 600,
      a_metabolism = Some (max 0.02 (0.07 + (rnd (rng s + 6) - 0.5) * 0.03)),
      a_lastAteTicks = None,
      a_seedCooldown = None,
      a_stuckTicks = None\<rparr>"

text \<open>The condition of lines 508-512.\<close>

definition herbivore_fertile :: "params \<Rightarrow> tick \<Rightarrow> bool" where
  "herbivore_fertile P s \<longleftrightarrow>
     herbivoreReproThreshold P < l_energy s \<and> l_reproCooldown s \<le> 0 \<and>
     real (currentHerbivores s + spawnedHerbivores s) < maxHerbivores P"

definition herbivore_reproduce :: "params \<Rightarrow> (nat \<Rightarrow> real) \<Rightarrow> agent \<Rightarrow> tick \<Rightarrow> tick" where
  "herbivore_reproduce P rnd a s =
     (if herbivore_fertile P s
      then s\<lparr>nextIdRef := nextIdRef s + 1,
             updatedAgents := updatedAgents s @ [herbivore_child rnd a s],
             spawnedHerbivores := spawnedHerbivores s + 1,
             l_energy := 45,
             l_reproCooldown := 600,
             rng := rng s + 7\<rparr>
      else s)"

definition herbivore_turn :: "params \<Rightarrow> (nat \<Rightarrow> real) \<Rightarrow> agent \<Rightarrow> tick \<Rightarrow> tick" where
  "herbivore_turn P rnd a s =
     (if a_type a = Herbivore then herbivore_reproduce P rnd a (graze s) else s)"

text \<open>
  Lines 538-549: the first herbivore of \<open>agentsRef.current\<close> closer than the catch
  radius to \<open>(x, y)\<close>; its position is the one it had when the tick started.
\<close>

fun find_prey :: "jsnum \<Rightarrow> jsnum \<Rightarrow> real \<Rightarrow> agent list \<Rightarrow> agent option" where
  "find_prey x y r [] = None"
| "find_prey x y r (prey # rest) =
     (if a_type prey = Herbivore \<and> hypot (a_x prey - x) (a_y prey - y) < Num r
      then Some prey else find_prey x y r rest)"

definition catch_prey :: "params \<Rightarrow> tick \<Rightarrow> tick" where
  "catch_prey P s =
     (case find_prey (l_x s) (l_y s) (carnivoreCatchRadius P) (agentsRef s) of
        Some prey \<Rightarrow> s\<lparr>l_energy := l_energy s + 45,
                        eatenHerbivores := insert (a_id prey) (eatenHerbivores s),
                        l_lastAteTicks := 0\<rparr>
      | None \<Rightarrow> s)"

text \<open>Lines 551-580.\<close>

definition carnivore_child :: "(nat \<Rightarrow> real) \<Rightarrow> agent \<Rightarrow> tick \<Rightarrow> agent" where
  "carnivore_child rnd a s =
     \<lparr>a_id = nextIdRef s,
      a_x = l_x s + Num ((rnd (rng s + 2) - 0.5) * 10),
      a_y = l_y s + Num ((rnd (rng s + 3) - 0.5) * 10),
      a_dx = l_dx s + Num ((rnd (rng s + 4) - 0.5) * 0.5),
      a_dy = l_dy s + Num ((rnd (rng s + 5) - 0.5) * 0.5),
      a_energy = 70,
      a_age = 0,
      a_speed = max 0.6 (min 2.2 (a_speed a * (0.95 + rnd (rng s) * 0.1))),
      a_vision = max 50 (min 90 (a_vision a * (0.95 + rnd (rng s + 1) * 0.1))),
      a_size = 5,
      a_type = Carnivore,
      a_reproCooldown = Some 700,
      a_metabolism = Some (max 0.02 (0.14 + (rnd (rng s + 6) - 0.5) * 0.03)),
      a_lastAteTicks = Some 0,
      a_seedCooldown = None,
      a_stuckTicks = Some 0\<rparr>"

text \<open>The condition of lines 552-556.\<close>

definition carnivore_fertile :: "params \<Rightarrow> tick \<Rightarrow> bool" where
  "carnivore_fertile P s \<longleftrightarrow>
     carnivoreReproThreshold P < l_energy s \<and> l_reproCooldown s \<le> 0 \<and>
     real (currentCarnivores s) < maxCarnivores P"

definition carnivore_reproduce :: "params \<Rightarrow> (nat \<Rightarrow> real) \<Rightarrow> agent \<Rightarrow> tick \<Rightarrow> tick" where
  "carnivore_reproduce P rnd a s =
     (if carnivore_fertile P s
      then s\<lparr>nextIdRef := nextIdRef s + 1,
             updatedAgents := updatedAgents s @ [carnivore_child rnd a s],
             l_energy := 90,
             l_reproCooldown := 700,
             rng := rng s + 7\<rparr>
      else s)"

definition carnivore_turn :: "params \<Rightarrow> (nat \<Rightarrow> real) \<Rightarrow> agent \<Rightarrow> tick \<Rightarrow> tick" where
  "carnivore_turn P rnd a s =
     (if a_type a = Carnivore then carnivore_reproduce P rnd a (catch_prey P s) else s)"

text \<open>Lines 583-608: size from energy, starvation, metabolism, age and cooldown.\<close>

definition starvationFactor :: "agent \<Rightarrow> tick \<Rightarrow> int \<Rightarrow> real" where
  "starvationFactor a s lastAte =
     (if a_type a = Carnivore
      then (if currentHerbivores s = 0 then 1.2 else 0) +
           (if lastAte > 900 then 1.0 else if lastAte > 600 then 0.6
            else if lastAte > 300 then 0.3 else 0)
      else 0)"

definition metabolise :: "params \<Rightarrow> agent \<Rightarrow> tick \<Rightarrow> tick" where
  "metabolise P a s =
     s\<lparr>l_size := max 3 (min 10 (3 + l_energy s * 0.03)),
       l_lastAteTicks := l_lastAteTicks s + 1,
       l_energy := l_energy s -
          (if a_type a = Carnivore then l_metabolism s * carnivoreMetabolismScale P else l_metabolism s)
            * (1 + starvationFactor a s (l_lastAteTicks s + 1)) * timeScale P,
       l_age := l_age s + 0.05,
       l_reproCooldown := (if l_reproCooldown s > 0 then l_reproCooldown s - 1 else l_reproCooldown s)\<rparr>"

text \<open>
  Lines 610-616. \<open>survivor\<close> is the object \<open>{ ...agent, x, y, dx, dy, energy, ... }\<close>; the
  spread copies \<open>agent.seedCooldown\<close>, which the iteration may have assigned.
\<close>

definition survivor :: "agent \<Rightarrow> tick \<Rightarrow> agent" where
  "survivor a s =
     a\<lparr>a_x := l_x s, a_y := l_y s, a_dx := l_dx s, a_dy := l_dy s,
       a_energy := l_energy s, a_age := l_age s, a_size := l_size s,
       a_reproCooldown := Some (l_reproCooldown s),
       a_metabolism := Some (l_metabolism s),
       a_lastAteTicks := Some (l_lastAteTicks s),
       a_seedCooldown := l_seedCooldown s,
       a_stuckTicks := Some (l_stuckTicks s)\<rparr>"

definition survive :: "agent \<Rightarrow> tick \<Rightarrow> tick" where
  "survive a s =
     (if 0 < l_energy s \<and> l_age s < 800
      then (if a_type a = Herbivore \<and> a_id a \<in> eatenHerbivores s then s
            else s\<lparr>updatedAgents := updatedAgents s @ [survivor a s]\<rparr>)
      else s)"

text \<open>
  The body of the loop over \<open>agentsRef.current\<close>, lines 346-617 (drawing left out):
  \<open>approach\<close> is the iteration up to the clamp of line 493, \<open>settle\<close> up to the
  survival test, \<open>process_agent\<close> all of it.
\<close>

definition approach :: "params \<Rightarrow> (nat \<Rightarrow> real) \<Rightarrow> real \<Rightarrow> agent \<Rightarrow> tick \<Rightarrow> tick" where
  "approach P rnd now a s = kinematics P rnd a (steer rnd now a (load rnd a s))"

definition settle :: "params \<Rightarrow> (nat \<Rightarrow> real) \<Rightarrow> real \<Rightarrow> agent \<Rightarrow> tick \<Rightarrow> tick" where
  "settle P rnd now a s =
     metabolise P a (carnivore_turn P rnd a (herbivore_turn P rnd a (approach P rnd now a s)))"

definition process_agent :: "params \<Rightarrow> (nat \<Rightarrow> real) \<Rightarrow> real \<Rightarrow> agent \<Rightarrow> tick \<Rightarrow> tick" where
  "process_agent P rnd now a s = survive a (settle P rnd now a s)"

section \<open>The tick: \<open>update\<close>\<close>

definition scarcityBoost :: "nat \<Rightarrow> real" where
  "scarcityBoost herbCount = (if herbCount < 40 then 3 else if herbCount < 70 then 1.8 else 1)"

definition count_kind :: "kind \<Rightarrow> agent list \<Rightarrow> nat" where
  "count_kind t as = length (filter (\<lambda>a. a_type a = t) as)"

text \<open>
  Lines 328-345: the food spawn and the variables declared before the loop. The
  variables of the iteration are not declared yet; \<open>load\<close> assigns every one of them
  before it is read, and they are given zeros here.
\<close>

definition begin_tick :: "params \<Rightarrow> (nat \<Rightarrow> real) \<Rightarrow> real \<Rightarrow> world \<Rightarrow> tick" where
  "begin_tick P rnd now W =
     (let spawn = (rnd 0 < foodSpawnRate P * scarcityBoost (count_kind Herbivore (w_agents W)))
      in \<lparr>agentsRef = w_agents W,
          foodRef = (if spawn
                     then w_food W @ [\<lparr>f_id = now, f_x = Num (rnd 1 * WORLD_WIDTH),
                                       f_y = Num (rnd 2 * WORLD_HEIGHT)\<rparr>]
                     else w_food W),
          nextIdRef = w_nextId W,
          updatedAgents = [],
          eatenHerbivores = {},
          spawnedHerbivores = 0,
          rng = (if spawn then 3 else 1),
          l_x = Num 0, l_y = Num 0, l_dx = Num 0, l_dy = Num 0,
          l_energy = 0, l_age = 0, l_size = 0, l_reproCooldown = 0, l_metabolism = 0,
          l_lastAteTicks = 0, l_stuckTicks = 0, l_seedCooldown = None, l_pursuing = False\<rparr>)"

text \<open>The loop \<open>for (const agent of agentsRef.current)\<close>.\<close>

fun run_agents :: "params \<Rightarrow> (nat \<Rightarrow> real) \<Rightarrow> real \<Rightarrow> agent list \<Rightarrow> tick \<Rightarrow> tick" where
  "run_agents P rnd now [] s = s"
| "run_agents P rnd now (a # as) s = run_agents P rnd now as (process_agent P rnd now a s)"

definition end_tick :: "params \<Rightarrow> (nat \<Rightarrow> real) \<Rightarrow> real \<Rightarrow> world \<Rightarrow> tick" where
  "end_tick P rnd now W = run_agents P rnd now (w_agents W) (begin_tick P rnd now W)"

text \<open>Lines 619-627: the new agent set and the history sample, at most 300 of them.\<close>

definition record_sample :: "agent list \<Rightarrow> sample list \<Rightarrow> sample list" where
  "record_sample as hist =
     (let hist1 = hist @ [\<lparr>herb = count_kind Herbivore as, carn = count_kind Carnivore as,
                           neutral = count_kind Neutral as\<rparr>]
      in if length hist1 > 300 then tl hist1 else hist1)"

definition update :: "params \<Rightarrow> (nat \<Rightarrow> real) \<Rightarrow> real \<Rightarrow> world \<Rightarrow> world" where
  "update P rnd now W =
     (let s = end_tick P rnd now W
      in \<lparr>w_agents = updatedAgents s,
          w_food = foodRef s,
          w_history = record_sample (updatedAgents s) (w_history W),
          w_nextId = nextIdRef s\<rparr>)"

section \<open>\<open>initializeWorld\<close>\<close>

text \<open>
  Lines 279-303: the \<open>i\<close>-th initial agent, drawn from the random sequence at index \<open>k\<close>,
  and the index after it (a neutral agent draws one more number, its seed cooldown).
\<close>

definition initial_type :: "real \<Rightarrow> kind" where
  "initial_type typeRand = (if typeRand < 0.55 then Herbivore else if typeRand < 0.9 then Neutral else Carnivore)"

definition initial_agent :: "(nat \<Rightarrow> real) \<Rightarrow> nat \<Rightarrow> nat \<Rightarrow> agent" where
  "initial_agent rnd i k =
     (let type = initial_type (rnd k)
      in \<lparr>a_id = i,
          a_x = Num (rnd (k + 2) * WORLD_WIDTH),
          a_y = Num (rnd (k + 3) * WORLD_HEIGHT),
          a_dx = Num ((rnd (k + 4) - 0.5) * 2),
          a_dy = Num ((rnd (k + 5) - 0.5) * 2),
          a_energy = (if type = Herbivore then 50 else if type = Carnivore then 55 else 40),
          a_age = 0,
          a_speed = 0.5 + rnd (k + 6) * 1.2,
          a_vision = 40 + rnd (k + 7) * 20,
          a_size = 5,
          a_type = type,
          a_reproCooldown = Some \<lfloor>rnd (k + 8) * 300\<rfloor>,
          a_metabolism = Some (max 0.02 (baseMetabolism type + (rnd (k + 1) - 0.5) * 0.03)),
          a_lastAteTicks = Some \<lfloor>rnd (k + 9) * 200\<rfloor>,
          a_seedCooldown = (if type = Neutral then Some (150 + \<lfloor>rnd (k + 10) * 200\<rfloor>) else None),
          a_stuckTicks = Some 0\<rparr>)"

fun initial_agents :: "(nat \<Rightarrow> real) \<Rightarrow> nat \<Rightarrow> nat \<Rightarrow> nat \<Rightarrow> agent list \<times> nat" where
  "initial_agents rnd 0 i k = ([], k)"
| "initial_agents rnd (Suc n) i k =
     (let a = initial_agent rnd i k;
          r = initial_agents rnd n (Suc i) (if a_type a = Neutral then k + 11 else k + 10)
      in (a # fst r, snd r))"

fun initial_food :: "(nat \<Rightarrow> real) \<Rightarrow> nat \<Rightarrow> nat \<Rightarrow> nat \<Rightarrow> food_item list" where
  "initial_food rnd 0 i k = []"
| "initial_food rnd (Suc n) i k =
     \<lparr>f_id = real i, f_x = Num (rnd k * WORLD_WIDTH), f_y = Num (rnd (k + 1) * WORLD_HEIGHT)\<rparr>
       # initial_food rnd n (Suc i) (k + 2)"

text \<open>
  \<open>initializeWorld\<close> assigns the agents, the food and an empty history; it leaves the
  identity counter \<open>nextIdRef\<close> as it is (\<open>nid\<close>, \<open>INITIAL_AGENTS\<close> when the component
  is mounted).
\<close>

definition initializeWorld :: "(nat \<Rightarrow> real) \<Rightarrow> nat \<Rightarrow> world" where
  "initializeWorld rnd nid =
     (let r = initial_agents rnd INITIAL_AGENTS 0 0
      in \<lparr>w_agents = fst r,
          w_food = initial_food rnd INITIAL_FOOD 0 (snd r),
          w_history = [],
          w_nextId = nid\<rparr>)"

section \<open>Notions used in the proofs\<close>

text \<open>
  \<open>same_loop_vars s t\<close>: the step from \<open>s\<close> to \<open>t\<close> leaves the agent array, the output
  array, the set of eaten herbivores, the spawn counter and the identity counter alone.
  \<open>offspring\<close> are the children one iteration pushes, \<open>survives\<close> is the test of lines
  610-611 on the state \<open>settle\<close> ends in. \<open>same_view s t\<close>: the two states agree on all
  that steering reads. \<open>vel_le c s\<close>: the velocity of the iteration, when it is a number,
  has magnitude at most \<open>c\<close>. \<open>herd_bound\<close>: the herbivores counted at the start of the
  tick and the herbivores spawned so far are together within the cap, or no herbivore
  was spawned beyond the number the tick started with. \<open>stuck_in_range a\<close>: the stuck
  counter of the agent, when it has one, is within 0 and 60. \<open>free_flight\<close> is the state
  of an iteration after line 485, before the walls are looked at: lines 346-485, that
  is \<open>approach\<close> without the reflection and the clamp of lines 487-493.
\<close>

definition same_loop_vars :: "tick \<Rightarrow> tick \<Rightarrow> bool" where
  "same_loop_vars s t \<longleftrightarrow>
     agentsRef t = agentsRef s \<and> updatedAgents t = updatedAgents s \<and>
     eatenHerbivores t = eatenHerbivores s \<and> spawnedHerbivores t = spawnedHerbivores s \<and>
     nextIdRef t = nextIdRef s"

definition offspring :: "params \<Rightarrow> (nat \<Rightarrow> real) \<Rightarrow> real \<Rightarrow> agent \<Rightarrow> tick \<Rightarrow> agent list" where
  "offspring P rnd now a s =
     (let s1 = approach P rnd now a s; s2 = herbivore_turn P rnd a s1
      in (if a_type a = Herbivore \<and> herbivore_fertile P (graze s1)
          then [herbivore_child rnd a (graze s1)] else []) @
         (if a_type a = Carnivore \<and> carnivore_fertile P (catch_prey P s2)
          then [carnivore_child rnd a (catch_prey P s2)] else []))"

definition survives :: "agent \<Rightarrow> tick \<Rightarrow> bool" where
  "survives a s \<longleftrightarrow>
     0 < l_energy s \<and> l_age s < 800 \<and> \<not> (a_type a = Herbivore \<and> a_id a \<in> eatenHerbivores s)"


definition vel_le :: "real \<Rightarrow> tick \<Rightarrow> bool" where
  "vel_le c s \<longleftrightarrow> (\<forall>u v. l_dx s = Num u \<and> l_dy s = Num v \<longrightarrow> sqrt (u\<^sup>2 + v\<^sup>2) \<le> c)"

definition herd_bound :: "params \<Rightarrow> tick \<Rightarrow> bool" where
  "herd_bound P s \<longleftrightarrow>
     int (currentHerbivores s + spawnedHerbivores s) \<le> max (int (currentHerbivores s)) \<lceil>maxHerbivores P\<rceil>"

definition stuck_in_range :: "agent \<Rightarrow> bool" where
  "stuck_in_range a \<longleftrightarrow> (\<forall>n. a_stuckTicks a = Some n \<longrightarrow> 0 \<le> n \<and> n \<le> 60)"

definition free_flight :: "params \<Rightarrow> (nat \<Rightarrow> real) \<Rightarrow> real \<Rightarrow> agent \<Rightarrow> tick \<Rightarrow> tick" where
  "free_flight P rnd now a s =
     (let s1 = move P a (steer rnd now a (load rnd a s));
          spd = hypot (l_dx s1) (l_dy s1)
      in stuck_detection rnd spd (min_speed_kick rnd spd (cap_velocity a spd s1)))"

section \<open>Example worlds\<close>

text \<open>
  \<open>defaults\<close> are the initial values of the sliders; \<open>cap20\<close> sets the carnivore cap to
  20, the least value of its slider. \<open>half\<close> is the random sequence whose every number
  is 0.5, which makes every random offset zero and every random angle \<open>\<pi>\<close>;
  \<open>birth_draws\<close> differs from it in its sixth number. \<open>mk_agent i t x y dx dy e c\<close> is
  an agent of kind \<open>t\<close> with identity \<open>i\<close> at \<open>(x, y)\<close> with velocity \<open>(dx, dy)\<close>, energy
  \<open>e\<close> and reproduction cooldown \<open>c\<close>; \<open>mk_world\<close> is a world with an empty history
  whose identity counter stands at 100.
\<close>

definition defaults :: params where
  "defaults = \<lparr>herbivoreSpeed = 1, carnivoreSpeed = 1, foodSpawnRate = 0.02, timeScale = 0.7,
     carnivoreMetabolismScale = 1, carnivoreCatchRadius = 8, carnivoreReproThreshold = 180,
     maxCarnivores = 80, herbivoreReproThreshold = 150, maxHerbivores = 220\<rparr>"

definition cap20 :: params where
  "cap20 = defaults\<lparr>maxCarnivores := 20\<rparr>"

definition half :: "nat \<Rightarrow> real" where
  "half n = 1 / 2"

definition birth_draws :: "nat \<Rightarrow> real" where
  "birth_draws n = (if n = 5 then 0 else 1 / 2)"

definition mk_agent :: "nat \<Rightarrow> kind \<Rightarrow> real \<Rightarrow> real \<Rightarrow> real \<Rightarrow> real \<Rightarrow> real \<Rightarrow> int \<Rightarrow> agent" where
  "mk_agent i t x y dx dy e c =
     \<lparr>a_id = i, a_x = Num x, a_y = Num y, a_dx = Num dx, a_dy = Num dy, a_energy = e, a_age = 0,
      a_speed = 1, a_vision = 50, a_size = 5, a_type = t, a_reproCooldown = Some c,
      a_metabolism = Some 0.1, a_lastAteTicks = Some 0, a_seedCooldown = None, a_stuckTicks = Some 0\<rparr>"

definition mk_world :: "agent list \<Rightarrow> food_item list \<Rightarrow> world" where
  "mk_world as fs = \<lparr>w_agents = as, w_food = fs, w_history = [], w_nextId = 100\<rparr>"

definition pellet :: food_item where
  "pellet = \<lparr>f_id = 0, f_x = Num 100, f_y = Num 100\<rparr>"

definition crumb :: food_item where
  "crumb = \<lparr>f_id = 0, f_x = Num 1, f_y = Num 1\<rparr>"

text \<open>A herbivore and a carnivore 3 apart, in both orders.\<close>

definition prey_first :: world where
  "prey_first = mk_world [mk_agent 7 Herbivore 100 100 0 0 50 100,
                          mk_agent 8 Carnivore 103 100 0 0 50 100] []"

definition predator_first :: world where
  "predator_first = mk_world [mk_agent 8 Carnivore 103 100 0 0 50 100,
                              mk_agent 7 Herbivore 100 100 0 0 50 100] []"

text \<open>Two carnivores on either side of a herbivore that is ready to reproduce.\<close>

definition shared_prey :: world where
  "shared_prey = mk_world [mk_agent 7 Carnivore 97 100 0 0 50 100,
                           mk_agent 8 Carnivore 103 100 0 0 50 100,
                           mk_agent 9 Herbivore 100 100 0 0 200 0] []"

text \<open>Nineteen carnivores, every one ready to reproduce, and no herbivore.\<close>

definition pack :: world where
  "pack = mk_world (map (\<lambda>i. mk_agent i Carnivore 300 200 1 0 200 0)
                     [0, 1, 2, 3, 4, 5, 6, 7, 8, 9, 10, 11, 12, 13, 14, 15, 16, 17, 18]) []"

text \<open>
  One food item and two herbivores that see it, the nearer one within reach of it, in
  both orders.
\<close>

definition near :: agent where
  "near = mk_agent 7 Herbivore 103 100 0 0 50 100"

definition far :: agent where
  "far = mk_agent 8 Herbivore 120 100 (- 1) 0 50 100"



text \<open>A herbivore ready to reproduce that has just bounced off the left wall.\<close>

definition bounced :: agent where
  "bounced = mk_agent 7 Herbivore 1 250 0.2 0 200 0"

definition wall_birth :: world where
  "wall_birth = mk_world [bounced] []"

text \<open>A herbivore that crosses the left wall at more than its maximal speed.\<close>

definition runner :: agent where
  "runner = mk_agent 7 Herbivore 0.5 250 (- 2.6) 0 50 100"

definition wall_bounce :: world where
  "wall_bounce = mk_world [runner] []"

text \<open>A herbivore in the corner the clamp puts agents in, on a food item that lies there.\<close>

definition on_food :: world where
  "on_food = mk_world [mk_agent 7 Herbivore 1 1 0 0 50 100] [crumb]"

text \<open>A herbivore on its own, and one with less energy than one tick of metabolism costs.\<close>

definition lone :: world where
  "lone = mk_world [mk_agent 7 Herbivore 100 100 1 0 50 100] []"

definition starved :: agent where
  "starved = mk_agent 7 Herbivore 100 100 1 0 0.05 100"

definition starving :: world where
  "starving = mk_world [starved] []"

text \<open>
  The world that the tick of \<open>wall_birth\<close> produces, and the child in it, which is to
  the left of the arena and moves to the right.
\<close>

definition strayed :: world where
  "strayed = update defaults birth_draws 0 wall_birth"

definition stray :: agent where
  "stray = hd (w_agents strayed)"

text \<open>A herbivore at rest.\<close>

definition idler :: agent where
  "idler = mk_agent 7 Herbivore 100 100 0 0 50 100"

definition idle :: world where
  "idle = mk_world [idler] []"

section \<open>Distances\<close>

text \<open>
  A distance is 0 only when both differences are, so the one division by a bare
  distance divides 0 by 0 when it divides by 0, and no quotient of the tick is an
  infinity.
\<close>

lemma hypot_zero: "hypot a b = Num 0 \<Longrightarrow> a = Num 0 \<and> b = Num 0"
proof (cases a)
  case NaN
  assume "hypot a b = Num 0"
  with NaN show ?thesis by simp
next
  case u: (Num u)
  assume zero: "hypot a b = Num 0"
  show ?thesis
  proof (cases b)
    case NaN
    with zero u show ?thesis by simp
  next
    case (Num v)
    with zero u have "sqrt (u\<^sup>2 + v\<^sup>2) = 0" by simp
    then have "u\<^sup>2 + v\<^sup>2 = 0" by simp
    then have "u = 0 \<and> v = 0" by (simp add: sum_power2_eq_zero_iff)
    with u Num show ?thesis by simp
  qed
qed

lemma or_one_not_zero: "or_one d \<noteq> Num 0 \<and> or_one d \<noteq> NaN"
  by (cases d) simp_all

section \<open>What each step of the iteration changes\<close>

lemma same_loop_vars_trans: "same_loop_vars s t \<Longrightarrow> same_loop_vars t u \<Longrightarrow> same_loop_vars s u"
  by (simp add: same_loop_vars_def)

lemma load_frame: "same_loop_vars s (load rnd a s)"
  by (simp add: same_loop_vars_def load_def Let_def split: option.splits)

lemma seek_food_frame: "same_loop_vars s (seek_food a s)"
  by (simp add: same_loop_vars_def seek_food_def Let_def)

lemma flee_frame: "same_loop_vars s (flee a s)"
  by (simp add: same_loop_vars_def flee_def Let_def)

lemma pursue_frame: "same_loop_vars s (pursue rnd a s)"
  by (simp add: same_loop_vars_def pursue_def Let_def)

lemma avoid_food_frame: "same_loop_vars s (avoid_food s)"
  by (simp add: same_loop_vars_def avoid_food_def Let_def)

lemma hunt_frame: "same_loop_vars s (hunt rnd a s)"
  using same_loop_vars_trans [OF pursue_frame avoid_food_frame]
  by (simp add: hunt_def) (simp add: same_loop_vars_def)

lemma seed_frame: "same_loop_vars s (seed rnd now s)"
  by (simp add: same_loop_vars_def seed_def Let_def split: option.splits)

lemma drift_frame: "same_loop_vars s (drift rnd now a s)"
  using seed_frame [of "s\<lparr>l_dx := l_dx s + Num ((rnd (rng s) - 0.5) * 0.1),
                    l_dy := l_dy s + Num ((rnd (rng s + 1) - 0.5) * 0.1),
                    rng := rng s + 2\<rparr>" rnd now]
  by (simp add: same_loop_vars_def drift_def Let_def)

lemma wander_frame: "same_loop_vars s (wander rnd a s)"
  by (simp add: same_loop_vars_def wander_def Let_def)

lemma steer_frame: "same_loop_vars s (steer rnd now a s)"
  unfolding steer_def
  by (rule same_loop_vars_trans [OF same_loop_vars_trans [OF same_loop_vars_trans
        [OF same_loop_vars_trans [OF seek_food_frame flee_frame] hunt_frame] drift_frame] wander_frame])

lemma move_frame: "same_loop_vars s (move P a s)"
  by (simp add: same_loop_vars_def move_def)

lemma cap_velocity_frame: "same_loop_vars s (cap_velocity a spd s)"
  by (simp add: same_loop_vars_def cap_velocity_def)

lemma min_speed_kick_frame: "same_loop_vars s (min_speed_kick rnd spd s)"
  by (simp add: same_loop_vars_def min_speed_kick_def Let_def)

lemma stuck_detection_frame: "same_loop_vars s (stuck_detection rnd spd s)"
  by (simp add: same_loop_vars_def stuck_detection_def Let_def)

lemma reflect_frame: "same_loop_vars s (reflect s)"
  by (simp add: same_loop_vars_def reflect_def Let_def)

lemma clamp_inside_frame: "same_loop_vars s (clamp_inside s)"
  by (simp add: same_loop_vars_def clamp_inside_def Let_def)

lemma kinematics_frame: "same_loop_vars s (kinematics P rnd a s)"
  unfolding kinematics_def Let_def
  by (rule same_loop_vars_trans [OF same_loop_vars_trans [OF same_loop_vars_trans
        [OF same_loop_vars_trans [OF same_loop_vars_trans [OF move_frame cap_velocity_frame]
          min_speed_kick_frame] stuck_detection_frame] reflect_frame] clamp_inside_frame])

lemma graze_frame: "same_loop_vars s (graze s)"
  by (simp add: same_loop_vars_def graze_def split: option.splits)

lemma metabolise_frame: "same_loop_vars s (metabolise P a s)"
  by (simp add: same_loop_vars_def metabolise_def)

text \<open>What the steps before the consumption leave alone.\<close>

lemma approach_frame: "same_loop_vars s (approach P rnd now a s)"
  unfolding approach_def
  by (rule same_loop_vars_trans [OF same_loop_vars_trans [OF load_frame steer_frame] kinematics_frame])

lemma herbivore_turn_updated:
  "updatedAgents (herbivore_turn P rnd a s) =
     updatedAgents s @ (if a_type a = Herbivore \<and> herbivore_fertile P (graze s)
                        then [herbivore_child rnd a (graze s)] else [])"
  using graze_frame [of s]
  by (simp add: herbivore_turn_def herbivore_reproduce_def same_loop_vars_def)

lemma herbivore_turn_spawned:
  "spawnedHerbivores (herbivore_turn P rnd a s) =
     spawnedHerbivores s + (if a_type a = Herbivore \<and> herbivore_fertile P (graze s) then 1 else 0)"
  using graze_frame [of s]
  by (simp add: herbivore_turn_def herbivore_reproduce_def same_loop_vars_def)

lemma herbivore_turn_keeps:
  "agentsRef (herbivore_turn P rnd a s) = agentsRef s \<and>
   eatenHerbivores (herbivore_turn P rnd a s) = eatenHerbivores s"
  using graze_frame [of s]
  by (simp add: herbivore_turn_def herbivore_reproduce_def same_loop_vars_def)

lemma carnivore_turn_updated:
  "updatedAgents (carnivore_turn P rnd a s) =
     updatedAgents s @ (if a_type a = Carnivore \<and> carnivore_fertile P (catch_prey P s)
                        then [carnivore_child rnd a (catch_prey P s)] else [])"
  by (simp add: carnivore_turn_def carnivore_reproduce_def catch_prey_def split: option.splits)

lemma carnivore_turn_keeps:
  "agentsRef (carnivore_turn P rnd a s) = agentsRef s \<and>
   spawnedHerbivores (carnivore_turn P rnd a s) = spawnedHerbivores s \<and>
   eatenHerbivores s \<subseteq> eatenHerbivores (carnivore_turn P rnd a s)"
  by (auto simp add: carnivore_turn_def carnivore_reproduce_def catch_prey_def split: option.splits)

lemma survive_updated:
  "updatedAgents (survive a s) =
     updatedAgents s @ (if 0 < l_energy s \<and> l_age s < 800 \<and>
                           \<not> (a_type a = Herbivore \<and> a_id a \<in> eatenHerbivores s)
                        then [survivor a s] else [])"
  by (simp add: survive_def)

lemma survive_keeps:
  "agentsRef (survive a s) = agentsRef s \<and> spawnedHerbivores (survive a s) = spawnedHerbivores s \<and>
   eatenHerbivores (survive a s) = eatenHerbivores s"
  by (simp add: survive_def)

lemma settle_updated:
  "updatedAgents (settle P rnd now a s) = updatedAgents s @ offspring P rnd now a s"
  using approach_frame [of s P rnd now a]
    metabolise_frame [of "carnivore_turn P rnd a (herbivore_turn P rnd a (approach P rnd now a s))" P a]
  by (simp add: settle_def offspring_def same_loop_vars_def Let_def
      carnivore_turn_updated herbivore_turn_updated)

lemma settle_agentsRef: "agentsRef (settle P rnd now a s) = agentsRef s"
  using approach_frame [of s P rnd now a]
    metabolise_frame [of "carnivore_turn P rnd a (herbivore_turn P rnd a (approach P rnd now a s))" P a]
  by (simp add: settle_def same_loop_vars_def carnivore_turn_keeps herbivore_turn_keeps)

lemma settle_eaten: "eatenHerbivores s \<subseteq> eatenHerbivores (settle P rnd now a s)"
proof -
  let ?s1 = "approach P rnd now a s"
  let ?s2 = "herbivore_turn P rnd a ?s1"
  have "eatenHerbivores ?s2 = eatenHerbivores s"
    using approach_frame [of s P rnd now a] by (simp add: same_loop_vars_def herbivore_turn_keeps)
  moreover have "eatenHerbivores ?s2 \<subseteq> eatenHerbivores (carnivore_turn P rnd a ?s2)"
    by (simp add: carnivore_turn_keeps)
  moreover have "eatenHerbivores (settle P rnd now a s) = eatenHerbivores (carnivore_turn P rnd a ?s2)"
    using metabolise_frame [of "carnivore_turn P rnd a ?s2" P a]
    by (simp add: settle_def same_loop_vars_def)
  ultimately show ?thesis by simp
qed

lemma process_agent_updated:
  "updatedAgents (process_agent P rnd now a s) =
     updatedAgents s @ offspring P rnd now a s @
       (if survives a (settle P rnd now a s) then [survivor a (settle P rnd now a s)] else [])"
  by (simp add: process_agent_def survive_updated settle_updated survives_def)

lemma process_agent_agentsRef: "agentsRef (process_agent P rnd now a s) = agentsRef s"
  by (simp add: process_agent_def survive_keeps settle_agentsRef)

lemma process_agent_eaten: "eatenHerbivores s \<subseteq> eatenHerbivores (process_agent P rnd now a s)"
  by (simp add: process_agent_def survive_keeps settle_eaten)

lemma run_agents_append:
  "run_agents P rnd now (xs @ ys) s = run_agents P rnd now ys (run_agents P rnd now xs s)"
  by (induction xs arbitrary: s) simp_all

lemma run_agents_agentsRef: "agentsRef (run_agents P rnd now as s) = agentsRef s"
  by (induction as arbitrary: s) (simp_all add: process_agent_agentsRef)

lemma run_agents_eaten: "eatenHerbivores s \<subseteq> eatenHerbivores (run_agents P rnd now as s)"
proof (induction as arbitrary: s)
  case Nil
  show ?case by simp
next
  case (Cons a as)
  have "eatenHerbivores s \<subseteq> eatenHerbivores (process_agent P rnd now a s)"
    by (rule process_agent_eaten)
  also have "\<dots> \<subseteq> eatenHerbivores (run_agents P rnd now as (process_agent P rnd now a s))"
    by (rule Cons.IH)
  finally show ?case by simp
qed

lemma run_agents_keeps_output:
  "set (updatedAgents s) \<subseteq> set (updatedAgents (run_agents P rnd now as s))"
proof (induction as arbitrary: s)
  case Nil
  show ?case by simp
next
  case (Cons a as)
  have "set (updatedAgents s) \<subseteq> set (updatedAgents (process_agent P rnd now a s))"
    by (simp add: process_agent_updated)
  also have "\<dots> \<subseteq> set (updatedAgents (run_agents P rnd now as (process_agent P rnd now a s)))"
    by (rule Cons.IH)
  finally show ?case by simp
qed

text \<open>Every agent of the output is a child or a survivor of some iteration.\<close>

lemma run_agents_output:
  assumes "b \<in> set (updatedAgents (run_agents P rnd now as s))"
  shows "b \<in> set (updatedAgents s) \<or>
         (\<exists>a t. a \<in> set as \<and> agentsRef t = agentsRef s \<and>
            (b \<in> set (offspring P rnd now a t) \<or>
             (survives a (settle P rnd now a t) \<and> b = survivor a (settle P rnd now a t))))"
  using assms
proof (induction as arbitrary: s)
  case Nil
  then show ?case by simp
next
  case (Cons a as)
  let ?t = "process_agent P rnd now a s"
  from Cons.prems have "b \<in> set (updatedAgents (run_agents P rnd now as ?t))" by simp
  from Cons.IH [OF this] consider
    (old) "b \<in> set (updatedAgents ?t)"
  | (new) a' t where "a' \<in> set as" "agentsRef t = agentsRef ?t"
      "b \<in> set (offspring P rnd now a' t) \<or>
       (survives a' (settle P rnd now a' t) \<and> b = survivor a' (settle P rnd now a' t))"
    by blast
  then show ?case
  proof cases
    case old
    then have "b \<in> set (updatedAgents s) \<or> b \<in> set (offspring P rnd now a s) \<or>
        (survives a (settle P rnd now a s) \<and> b = survivor a (settle P rnd now a s))"
      by (auto simp add: process_agent_updated split: if_splits)
    then show ?thesis by (metis list.set_intros(1))
  next
    case new
    then show ?thesis
      by (metis list.set_intros(2) process_agent_agentsRef)
  qed
qed

lemma offspring_props:
  assumes "b \<in> set (offspring P rnd now a s)"
  shows "a_size b = 5 \<and> a_age b = 0 \<and> (a_energy b = 35 \<or> a_energy b = 70) \<and>
         a_type b = a_type a \<and> a_type b \<noteq> Neutral"
  using assms
  by (auto simp add: offspring_def Let_def herbivore_child_def carnivore_child_def split: if_splits)

lemma survivor_fields:
  "a_energy (survivor a s) = l_energy s \<and> a_age (survivor a s) = l_age s \<and>
   a_size (survivor a s) = l_size s \<and> a_type (survivor a s) = a_type a \<and>
   a_id (survivor a s) = a_id a \<and> a_dx (survivor a s) = l_dx s \<and> a_dy (survivor a s) = l_dy s \<and>
   a_x (survivor a s) = l_x s \<and> a_y (survivor a s) = l_y s"
  by (simp add: survivor_def)

lemma settle_size: "3 \<le> l_size (settle P rnd now a s) \<and> l_size (settle P rnd now a s) \<le> 10"
  by (simp add: settle_def metabolise_def)

lemma update_agents: "w_agents (update P rnd now W) = updatedAgents (end_tick P rnd now W)"
  by (simp add: update_def Let_def)

lemma begin_tick_fields:
  "updatedAgents (begin_tick P rnd now W) = [] \<and> agentsRef (begin_tick P rnd now W) = w_agents W \<and>
   spawnedHerbivores (begin_tick P rnd now W) = 0 \<and> eatenHerbivores (begin_tick P rnd now W) = {}"
  by (simp add: begin_tick_def Let_def)

text \<open>Every agent of the next world is a child or a survivor of some iteration of the tick.\<close>

lemma update_output:
  assumes "b \<in> set (w_agents (update P rnd now W))"
  shows "\<exists>a t. a \<in> set (w_agents W) \<and> agentsRef t = w_agents W \<and>
            (b \<in> set (offspring P rnd now a t) \<or>
             (survives a (settle P rnd now a t) \<and> b = survivor a (settle P rnd now a t)))"
  using run_agents_output [of b P rnd now "w_agents W" "begin_tick P rnd now W"] assms
  by (simp add: update_agents end_tick_def begin_tick_fields)

lemma initial_agents_size:
  "b \<in> set (fst (initial_agents rnd n i k)) \<Longrightarrow> a_size b = 5"
  by (induction n arbitrary: i k) (auto simp add: Let_def initial_agent_def)

lemma herbivore_turn_nextId: "nextIdRef s \<le> nextIdRef (herbivore_turn P rnd a s)"
  using graze_frame [of s]
  by (simp add: herbivore_turn_def herbivore_reproduce_def same_loop_vars_def)

lemma carnivore_turn_nextId: "nextIdRef s \<le> nextIdRef (carnivore_turn P rnd a s)"
  by (simp add: carnivore_turn_def carnivore_reproduce_def catch_prey_def split: option.splits)

lemma settle_nextId: "nextIdRef s \<le> nextIdRef (settle P rnd now a s)"
proof -
  let ?s1 = "approach P rnd now a s"
  let ?s2 = "herbivore_turn P rnd a ?s1"
  have "nextIdRef ?s1 = nextIdRef s"
    using approach_frame [of s P rnd now a] by (simp add: same_loop_vars_def)
  moreover have "nextIdRef ?s1 \<le> nextIdRef ?s2" by (rule herbivore_turn_nextId)
  moreover have "nextIdRef ?s2 \<le> nextIdRef (carnivore_turn P rnd a ?s2)" by (rule carnivore_turn_nextId)
  moreover have "nextIdRef (settle P rnd now a s) = nextIdRef (carnivore_turn P rnd a ?s2)"
    using metabolise_frame [of "carnivore_turn P rnd a ?s2" P a]
    by (simp add: settle_def same_loop_vars_def)
  ultimately show ?thesis by simp
qed

lemma process_agent_nextId: "nextIdRef s \<le> nextIdRef (process_agent P rnd now a s)"
  using settle_nextId [of s P rnd now a] by (simp add: process_agent_def survive_def)

lemma run_agents_nextId: "nextIdRef s \<le> nextIdRef (run_agents P rnd now as s)"
proof (induction as arbitrary: s)
  case Nil
  show ?case by simp
next
  case (Cons a as)
  have "nextIdRef s \<le> nextIdRef (process_agent P rnd now a s)" by (rule process_agent_nextId)
  also have "\<dots> \<le> nextIdRef (run_agents P rnd now as (process_agent P rnd now a s))" by (rule Cons.IH)
  finally show ?case by simp
qed

lemma offspring_ids:
  assumes "b \<in> set (offspring P rnd now a s)"
  shows "nextIdRef s \<le> a_id b"
proof -
  let ?s1 = "approach P rnd now a s"
  let ?s2 = "herbivore_turn P rnd a ?s1"
  have s1: "nextIdRef ?s1 = nextIdRef s"
    using approach_frame [of s P rnd now a] by (simp add: same_loop_vars_def)
  have g: "nextIdRef (graze ?s1) = nextIdRef ?s1"
    using graze_frame [of ?s1] by (simp add: same_loop_vars_def)
  have c: "nextIdRef (catch_prey P ?s2) = nextIdRef ?s2"
    by (simp add: catch_prey_def split: option.splits)
  have s2: "nextIdRef ?s1 \<le> nextIdRef ?s2" by (rule herbivore_turn_nextId)
  from assms have "a_id b = nextIdRef (graze ?s1) \<or> a_id b = nextIdRef (catch_prey P ?s2)"
    by (auto simp add: offspring_def Let_def herbivore_child_def carnivore_child_def split: if_splits)
  then show ?thesis using s1 g c s2 by auto
qed

text \<open>Every agent of the output is a child or the survivor of the iteration of one place of the array.\<close>

lemma run_agents_output_at:
  assumes "b \<in> set (updatedAgents (run_agents P rnd now as s))"
  shows "b \<in> set (updatedAgents s) \<or>
         (\<exists>pre a post. as = pre @ a # post \<and>
            (b \<in> set (offspring P rnd now a (run_agents P rnd now pre s)) \<or>
             (survives a (settle P rnd now a (run_agents P rnd now pre s)) \<and>
              b = survivor a (settle P rnd now a (run_agents P rnd now pre s)))))"
  using assms
proof (induction as arbitrary: s)
  case Nil
  then show ?case by simp
next
  case (Cons a as)
  let ?t = "process_agent P rnd now a s"
  from Cons.prems have "b \<in> set (updatedAgents (run_agents P rnd now as ?t))" by simp
  from Cons.IH [OF this] consider
    (old) "b \<in> set (updatedAgents ?t)"
  | (new) pre a' post where "as = pre @ a' # post"
      "b \<in> set (offspring P rnd now a' (run_agents P rnd now pre ?t)) \<or>
       (survives a' (settle P rnd now a' (run_agents P rnd now pre ?t)) \<and>
        b = survivor a' (settle P rnd now a' (run_agents P rnd now pre ?t)))"
    by blast
  then show ?case
  proof cases
    case old
    then have "b \<in> set (updatedAgents s) \<or> b \<in> set (offspring P rnd now a s) \<or>
        (survives a (settle P rnd now a s) \<and> b = survivor a (settle P rnd now a s))"
      by (auto simp add: process_agent_updated split: if_splits)
    moreover have "a # as = [] @ a # as \<and> run_agents P rnd now [] s = s" by simp
    ultimately show ?thesis by metis
  next
    case new
    have "a # as = (a # pre) @ a' # post \<and>
        run_agents P rnd now (a # pre) s = run_agents P rnd now pre ?t"
      using new(1) by simp
    with new(2) show ?thesis by metis
  qed
qed

lemma distinct_ids_split:
  assumes "distinct (map a_id as)" "as = pre @ a # post" "as = pre' @ a' # post'" "a_id a = a_id a'"
  shows "pre = pre' \<and> a = a'"
proof -
  from assms(1) have inj: "inj_on a_id (set as)" and dist: "distinct as"
    by (simp_all add: distinct_map)
  have "a \<in> set (pre @ a # post)" "a' \<in> set (pre' @ a' # post')" by simp_all
  then have "a \<in> set as" "a' \<in> set as" by (simp_all only: assms(2) [symmetric] assms(3) [symmetric])
  with inj assms(4) have same: "a = a'" by (simp add: inj_on_def)
  from dist assms(2) have "a \<notin> set pre" "a \<notin> set post" by auto
  moreover have "pre @ a # post = pre' @ a # post'" using assms(2,3) same by simp
  ultimately have "pre = pre'" by (simp add: append_Cons_eq_iff)
  with same show ?thesis by simp
qed

text \<open>The same of a whole tick.\<close>

lemma update_output_at:
  assumes "b \<in> set (w_agents (update P rnd now W))"
  shows "\<exists>pre a post. w_agents W = pre @ a # post \<and>
            (b \<in> set (offspring P rnd now a (run_agents P rnd now pre (begin_tick P rnd now W))) \<or>
             (survives a (settle P rnd now a (run_agents P rnd now pre (begin_tick P rnd now W))) \<and>
              b = survivor a (settle P rnd now a (run_agents P rnd now pre (begin_tick P rnd now W)))))"
proof -
  from assms have "b \<in> set (updatedAgents (run_agents P rnd now (w_agents W) (begin_tick P rnd now W)))"
    by (simp add: update_agents end_tick_def)
  from run_agents_output_at [OF this] show ?thesis
    by (simp add: begin_tick_fields)
qed

text \<open>
  The identities of a world being distinct and below its counter, an agent of the next
  world that carries the identity of an agent of the array is the survivor of the
  iteration of that agent, which has passed the test of lines 610-611: a child takes
  its identity from the counter.
\<close>

lemma carrier_is_survivor:
  assumes ids: "distinct (map a_id (w_agents W))" "\<forall>c\<in>set (w_agents W). a_id c < w_nextId W"
    and split: "w_agents W = pre @ a # post"
    and present: "b \<in> set (w_agents (update P rnd now W))" "a_id b = a_id a"
  shows "survives a (settle P rnd now a (run_agents P rnd now pre (begin_tick P rnd now W))) \<and>
         b = survivor a (settle P rnd now a (run_agents P rnd now pre (begin_tick P rnd now W)))"
proof -
  let ?s = "begin_tick P rnd now W"
  have start: "nextIdRef ?s = w_nextId W" by (simp add: begin_tick_def Let_def)
  from update_output_at [OF present(1)] obtain pre' a' post' where
    at: "w_agents W = pre' @ a' # post'"
    and b: "b \<in> set (offspring P rnd now a' (run_agents P rnd now pre' ?s)) \<or>
       (survives a' (settle P rnd now a' (run_agents P rnd now pre' ?s)) \<and>
        b = survivor a' (settle P rnd now a' (run_agents P rnd now pre' ?s)))"
    by blast
  have low: "a_id b < w_nextId W" using ids(2) split present(2) by simp
  from b show ?thesis
  proof
    assume "b \<in> set (offspring P rnd now a' (run_agents P rnd now pre' ?s))"
    then have "nextIdRef (run_agents P rnd now pre' ?s) \<le> a_id b" by (rule offspring_ids)
    moreover have "nextIdRef ?s \<le> nextIdRef (run_agents P rnd now pre' ?s)" by (rule run_agents_nextId)
    ultimately show ?thesis using low start by simp
  next
    assume surv: "survives a' (settle P rnd now a' (run_agents P rnd now pre' ?s)) \<and>
        b = survivor a' (settle P rnd now a' (run_agents P rnd now pre' ?s))"
    then have "a_id a = a_id a'" using present(2) by (simp add: survivor_fields)
    from distinct_ids_split [OF ids(1) split at this] surv show ?thesis by simp
  qed
qed

section \<open>Counting the kinds\<close>

lemma count_kind_append: "count_kind t (xs @ ys) = count_kind t xs + count_kind t ys"
  by (simp add: count_kind_def)

lemma count_kind_offspring_Neutral: "count_kind Neutral (offspring P rnd now a s) = 0"
  using offspring_props [of _ P rnd now a s]
  by (auto simp add: count_kind_def filter_empty_conv)

lemma process_agent_neutral:
  "count_kind Neutral (updatedAgents (process_agent P rnd now a s))
     \<le> count_kind Neutral (updatedAgents s) + count_kind Neutral [a]"
  by (simp add: process_agent_updated count_kind_append count_kind_offspring_Neutral)
     (simp add: count_kind_def survivor_fields)

lemma run_agents_neutral:
  "count_kind Neutral (updatedAgents (run_agents P rnd now as s))
     \<le> count_kind Neutral (updatedAgents s) + count_kind Neutral as"
proof (induction as arbitrary: s)
  case Nil
  show ?case by simp
next
  case (Cons a as)
  have "count_kind Neutral (updatedAgents (run_agents P rnd now (a # as) s))
      \<le> count_kind Neutral (updatedAgents (process_agent P rnd now a s)) + count_kind Neutral as"
    using Cons.IH [of "process_agent P rnd now a s"] by simp
  also have "\<dots> \<le> count_kind Neutral (updatedAgents s) + count_kind Neutral [a] + count_kind Neutral as"
    using process_agent_neutral [of P rnd now a s] by simp
  also have "\<dots> = count_kind Neutral (updatedAgents s) + count_kind Neutral (a # as)"
    by (simp add: count_kind_def)
  finally show ?case .
qed

lemma offspring_herbivores:
  "count_kind Herbivore (offspring P rnd now a s) =
     (if a_type a = Herbivore \<and> herbivore_fertile P (graze (approach P rnd now a s)) then 1 else 0)"
  by (simp add: offspring_def Let_def count_kind_def herbivore_child_def carnivore_child_def)

lemma settle_spawned:
  "spawnedHerbivores (settle P rnd now a s) =
     spawnedHerbivores s + count_kind Herbivore (offspring P rnd now a s)"
  using approach_frame [of s P rnd now a]
    metabolise_frame [of "carnivore_turn P rnd a (herbivore_turn P rnd a (approach P rnd now a s))" P a]
  by (simp add: settle_def same_loop_vars_def offspring_herbivores carnivore_turn_keeps
      herbivore_turn_spawned)

lemma fertile_room:
  assumes "herbivore_fertile P (graze (approach P rnd now a s))"
  shows "real (currentHerbivores s + spawnedHerbivores s) < maxHerbivores P"
  using assms approach_frame [of s P rnd now a] graze_frame [of "approach P rnd now a s"]
  by (simp add: herbivore_fertile_def currentHerbivores_def same_loop_vars_def)

lemma process_agent_spawned:
  "spawnedHerbivores (process_agent P rnd now a s) =
     spawnedHerbivores s + count_kind Herbivore (offspring P rnd now a s)"
  by (simp add: process_agent_def survive_keeps settle_spawned)

lemma process_agent_currentHerbivores:
  "currentHerbivores (process_agent P rnd now a s) = currentHerbivores s"
  by (simp add: currentHerbivores_def process_agent_agentsRef)

lemma process_agent_herd_bound:
  assumes "herd_bound P s"
  shows "herd_bound P (process_agent P rnd now a s)"
proof (cases "a_type a = Herbivore \<and> herbivore_fertile P (graze (approach P rnd now a s))")
  case True
  then have "real (currentHerbivores s + spawnedHerbivores s) < maxHerbivores P"
    using fertile_room by blast
  then have "int (currentHerbivores s + spawnedHerbivores s) < \<lceil>maxHerbivores P\<rceil>"
    by (simp add: less_ceiling_iff)
  then show ?thesis using True
    by (simp add: herd_bound_def process_agent_spawned process_agent_currentHerbivores
        offspring_herbivores)
next
  case False
  then show ?thesis using assms
    by (auto simp add: herd_bound_def process_agent_spawned process_agent_currentHerbivores
        offspring_herbivores)
qed

lemma process_agent_herbivores:
  "count_kind Herbivore (updatedAgents (process_agent P rnd now a s)) + spawnedHerbivores s
     \<le> count_kind Herbivore (updatedAgents s) + count_kind Herbivore [a]
        + spawnedHerbivores (process_agent P rnd now a s)"
  by (simp add: process_agent_updated process_agent_spawned count_kind_append)
     (simp add: count_kind_def survivor_fields)

lemma run_agents_herbivores:
  assumes "herd_bound P s"
  shows "herd_bound P (run_agents P rnd now as s) \<and>
         count_kind Herbivore (updatedAgents (run_agents P rnd now as s)) + spawnedHerbivores s
           \<le> count_kind Herbivore (updatedAgents s) + count_kind Herbivore as
              + spawnedHerbivores (run_agents P rnd now as s)"
  using assms
proof (induction as arbitrary: s)
  case Nil
  then show ?case by (simp add: count_kind_def)
next
  case (Cons a as)
  let ?t = "process_agent P rnd now a s"
  have t: "herd_bound P ?t" using Cons.prems by (rule process_agent_herd_bound)
  from Cons.IH [OF t] have
    "herd_bound P (run_agents P rnd now as ?t)"
    "count_kind Herbivore (updatedAgents (run_agents P rnd now as ?t)) + spawnedHerbivores ?t
       \<le> count_kind Herbivore (updatedAgents ?t) + count_kind Herbivore as
          + spawnedHerbivores (run_agents P rnd now as ?t)"
    by simp_all
  moreover have "count_kind Herbivore (a # as) = count_kind Herbivore [a] + count_kind Herbivore as"
    by (simp add: count_kind_def)
  ultimately show ?case using process_agent_herbivores [of P rnd now a s] by simp
qed

text \<open>
  The herbivore branch counts the herbivores it has spawned in this tick, so a tick
  never takes the herbivores beyond the cap, unless it started beyond it.
\<close>

theorem herbivore_cap:
  "int (count_kind Herbivore (w_agents (update P rnd now W)))
     \<le> max (int (count_kind Herbivore (w_agents W))) \<lceil>maxHerbivores P\<rceil>"
proof -
  let ?s = "begin_tick P rnd now W"
  have start: "currentHerbivores ?s = count_kind Herbivore (w_agents W)"
    by (simp add: currentHerbivores_def count_kind_def begin_tick_fields)
  have "herd_bound P ?s" by (simp add: herd_bound_def begin_tick_fields)
  from run_agents_herbivores [OF this, of rnd now "w_agents W"] have
    "herd_bound P (end_tick P rnd now W)"
    "count_kind Herbivore (w_agents (update P rnd now W))
       \<le> count_kind Herbivore (w_agents W) + spawnedHerbivores (end_tick P rnd now W)"
    by (simp_all add: end_tick_def update_agents begin_tick_fields count_kind_def)
  moreover have "currentHerbivores (end_tick P rnd now W) = count_kind Herbivore (w_agents W)"
    using start by (simp add: end_tick_def currentHerbivores_def run_agents_agentsRef)
  ultimately show ?thesis by (simp add: herd_bound_def)
qed

section \<open>What steering reads\<close>











section \<open>Velocity\<close>

lemma norm_rescale:
  fixes u v n M :: real
  assumes "0 < n" "n = sqrt (u\<^sup>2 + v\<^sup>2)" "0 \<le> M"
  shows "sqrt ((u / n * M)\<^sup>2 + (v / n * M)\<^sup>2) = M"
proof -
  have n2: "n\<^sup>2 = u\<^sup>2 + v\<^sup>2" using assms(2) by simp
  have "(u / n * M)\<^sup>2 + (v / n * M)\<^sup>2 = (u\<^sup>2 + v\<^sup>2) / n\<^sup>2 * M\<^sup>2"
    by (simp add: power_mult_distrib power_divide add_divide_distrib distrib_right)
  also have "\<dots> = n\<^sup>2 / n\<^sup>2 * M\<^sup>2" by (simp only: n2)
  also have "\<dots> = M\<^sup>2" using assms(1) by simp
  finally show ?thesis using assms(3) by simp
qed

lemma norm_shift:
  fixes u v p q :: real
  shows "sqrt ((u + p)\<^sup>2 + (v + q)\<^sup>2) \<le> sqrt (u\<^sup>2 + v\<^sup>2) + sqrt (p\<^sup>2 + q\<^sup>2)"
  by (rule real_sqrt_sum_squares_triangle_ineq)

lemma norm_polar: "sqrt ((cos t * r)\<^sup>2 + (sin t * r)\<^sup>2) = \<bar>r\<bar>"
proof -
  have "(cos t * r)\<^sup>2 + (sin t * r)\<^sup>2 = ((cos t)\<^sup>2 + (sin t)\<^sup>2) * r\<^sup>2"
    by (simp only: power_mult_distrib distrib_right)
  also have "\<dots> = r\<^sup>2" by (simp only: sin_cos_squared_add2 mult_1)
  finally show ?thesis by simp
qed

lemma maxVel_bounds: "5 / 2 \<le> maxVel t \<and> maxVel t \<le> 16 / 5"
  by (simp add: maxVel_def)

lemma stuck_detection_bound:
  assumes "vel_le c s"
  shows "vel_le (c + 1) (stuck_detection rnd spd s)"
proof -
  have "sqrt ((u + cos t * 1)\<^sup>2 + (v + sin t * 1)\<^sup>2) \<le> c + 1" if "sqrt (u\<^sup>2 + v\<^sup>2) \<le> c" for u v t :: real
  proof -
    have "sqrt ((u + cos t * 1)\<^sup>2 + (v + sin t * 1)\<^sup>2)
        \<le> sqrt (u\<^sup>2 + v\<^sup>2) + sqrt ((cos t * 1)\<^sup>2 + (sin t * 1)\<^sup>2)"
      by (rule norm_shift)
    also have "\<dots> = sqrt (u\<^sup>2 + v\<^sup>2) + 1" by simp
    finally show ?thesis using that by simp
  qed
  then show ?thesis using assms
    by (cases "l_dx s"; cases "l_dy s")
       (auto simp add: vel_le_def stuck_detection_def Let_def intro: order_trans)
qed

lemma reflect_bound:
  assumes "vel_le c s"
  shows "vel_le c (reflect s)"
  using assms
  by (cases "l_dx s"; cases "l_dy s") (auto simp add: vel_le_def reflect_def Let_def)

lemma clamp_inside_dx:
  "l_dx (clamp_inside s) = l_dx s \<or> l_dx (clamp_inside s) = \<bar>l_dx s\<bar> + Num 0.2 \<or>
   l_dx (clamp_inside s) = - \<bar>l_dx s\<bar> - Num 0.2"
  by (cases "l_x s") (simp_all add: clamp_inside_def Let_def WORLD_WIDTH_def)

lemma clamp_inside_dy:
  "l_dy (clamp_inside s) = l_dy s \<or> l_dy (clamp_inside s) = \<bar>l_dy s\<bar> + Num 0.2 \<or>
   l_dy (clamp_inside s) = - \<bar>l_dy s\<bar> - Num 0.2"
  by (cases "l_y s") (simp_all add: clamp_inside_def Let_def WORLD_HEIGHT_def)

lemma nudge_norm:
  fixes u v u' v' c :: real
  assumes "sqrt (u\<^sup>2 + v\<^sup>2) \<le> c"
    and "u' = u \<or> u' = \<bar>u\<bar> + 0.2 \<or> u' = - \<bar>u\<bar> - 0.2"
    and "v' = v \<or> v' = \<bar>v\<bar> + 0.2 \<or> v' = - \<bar>v\<bar> - 0.2"
  shows "sqrt (u'\<^sup>2 + v'\<^sup>2) \<le> c + 3 / 10"
proof -
  have nudged: "\<exists>p. w'\<^sup>2 = (\<bar>w\<bar> + p)\<^sup>2 \<and> (p = 0 \<or> p = 0.2)"
    if "w' = w \<or> w' = \<bar>w\<bar> + 0.2 \<or> w' = - \<bar>w\<bar> - 0.2" for w w' :: real
  proof -
    from that consider "w' = w" | "w' = \<bar>w\<bar> + 0.2" | "w' = - (\<bar>w\<bar> + 0.2)" by auto
    then show ?thesis
    proof cases
      case 1
      then have "w'\<^sup>2 = (\<bar>w\<bar> + 0)\<^sup>2" by simp
      then show ?thesis by blast
    next
      case 2
      then show ?thesis by blast
    next
      case 3
      then have "w'\<^sup>2 = (\<bar>w\<bar> + 0.2)\<^sup>2" by (simp only: power2_minus)
      then show ?thesis by blast
    qed
  qed
  from nudged [OF assms(2)] obtain p where p: "u'\<^sup>2 = (\<bar>u\<bar> + p)\<^sup>2" "p = 0 \<or> p = 0.2"
    by blast
  from nudged [OF assms(3)] obtain q where q: "v'\<^sup>2 = (\<bar>v\<bar> + q)\<^sup>2" "q = 0 \<or> q = 0.2"
    by blast
  have "0 \<le> p \<and> p \<le> 1 / 5" "0 \<le> q \<and> q \<le> 1 / 5" using p(2) q(2) by auto
  then have "p\<^sup>2 \<le> (1 / 5)\<^sup>2" "q\<^sup>2 \<le> (1 / 5)\<^sup>2" by (simp_all add: power_mono)
  then have "p\<^sup>2 + q\<^sup>2 \<le> (3 / 10)\<^sup>2" by (simp add: power2_eq_square)
  then have "sqrt (p\<^sup>2 + q\<^sup>2) \<le> 3 / 10" by (intro real_le_lsqrt) simp_all
  moreover have "sqrt ((\<bar>u\<bar> + p)\<^sup>2 + (\<bar>v\<bar> + q)\<^sup>2) \<le> sqrt (\<bar>u\<bar>\<^sup>2 + \<bar>v\<bar>\<^sup>2) + sqrt (p\<^sup>2 + q\<^sup>2)"
    by (rule norm_shift)
  ultimately show ?thesis using assms(1) p(1) q(1) by simp
qed

lemma clamp_inside_bound:
  assumes "vel_le c s"
  shows "vel_le (c + 3 / 10) (clamp_inside s)"
  unfolding vel_le_def
proof (intro allI impI)
  fix u' v'
  assume res: "l_dx (clamp_inside s) = Num u' \<and> l_dy (clamp_inside s) = Num v'"
  from res clamp_inside_dx [of s] obtain u where u: "l_dx s = Num u"
    "u' = u \<or> u' = \<bar>u\<bar> + 0.2 \<or> u' = - \<bar>u\<bar> - 0.2"
    by (cases "l_dx s") auto
  from res clamp_inside_dy [of s] obtain v where v: "l_dy s = Num v"
    "v' = v \<or> v' = \<bar>v\<bar> + 0.2 \<or> v' = - \<bar>v\<bar> - 0.2"
    by (cases "l_dy s") auto
  from assms u(1) v(1) have "sqrt (u\<^sup>2 + v\<^sup>2) \<le> c" by (simp add: vel_le_def)
  then show "sqrt (u'\<^sup>2 + v'\<^sup>2) \<le> c + 3 / 10" using u(2) v(2) by (rule nudge_norm)
qed

lemma cap_velocity_bound:
  "vel_le (maxVel (a_type a)) (cap_velocity a (hypot (l_dx s) (l_dy s)) s)"
proof (cases "l_dx s")
  case NaN
  then show ?thesis by (simp add: vel_le_def cap_velocity_def)
next
  case u: (Num u)
  show ?thesis
  proof (cases "l_dy s")
    case NaN
    then show ?thesis using u by (simp add: vel_le_def cap_velocity_def)
  next
    case v: (Num v)
    let ?n = "sqrt (u\<^sup>2 + v\<^sup>2)"
    let ?M = "maxVel (a_type a)"
    have M: "5 / 2 \<le> ?M" using maxVel_bounds by simp
    show ?thesis
    proof (cases "?M < ?n")
      case True
      then have "0 < ?n" using M by linarith
      then have "sqrt ((u / ?n * ?M)\<^sup>2 + (v / ?n * ?M)\<^sup>2) = ?M"
        using M by (intro norm_rescale) simp_all
      then show ?thesis using True M u v by (simp add: vel_le_def cap_velocity_def)
    next
      case False
      then show ?thesis using u v by (simp add: vel_le_def cap_velocity_def)
    qed
  qed
qed

lemma graze_velocity: "l_dx (graze s) = l_dx s \<and> l_dy (graze s) = l_dy s"
  by (simp add: graze_def split: option.splits)

lemma herbivore_turn_velocity:
  "l_dx (herbivore_turn P rnd a s) = l_dx s \<and> l_dy (herbivore_turn P rnd a s) = l_dy s"
  by (simp add: herbivore_turn_def herbivore_reproduce_def graze_velocity)

lemma catch_prey_velocity: "l_dx (catch_prey P s) = l_dx s \<and> l_dy (catch_prey P s) = l_dy s"
  by (simp add: catch_prey_def split: option.splits)

lemma carnivore_turn_velocity:
  "l_dx (carnivore_turn P rnd a s) = l_dx s \<and> l_dy (carnivore_turn P rnd a s) = l_dy s"
  by (simp add: carnivore_turn_def carnivore_reproduce_def catch_prey_velocity)

lemma settle_velocity:
  "l_dx (settle P rnd now a s) = l_dx (approach P rnd now a s) \<and>
   l_dy (settle P rnd now a s) = l_dy (approach P rnd now a s)"
  by (simp add: settle_def metabolise_def carnivore_turn_velocity herbivore_turn_velocity)

lemma jitter_norm:
  fixes u v r1 r2 c :: real
  assumes "sqrt (u\<^sup>2 + v\<^sup>2) \<le> c" "0 \<le> r1 \<and> r1 < 1" "0 \<le> r2 \<and> r2 < 1"
  shows "sqrt ((u + (r1 - 0.5) * 0.5)\<^sup>2 + (v + (r2 - 0.5) * 0.5)\<^sup>2) \<le> c + 2 / 5"
proof -
  define p where "p = (r1 - 0.5) * 0.5"
  define q where "q = (r2 - 0.5) * 0.5"
  have pq: "p \<le> 1 / 4 \<and> - p \<le> 1 / 4" "q \<le> 1 / 4 \<and> - q \<le> 1 / 4"
    using assms(2,3) by (simp_all add: p_def q_def)
  have small: "w\<^sup>2 \<le> (1 / 4)\<^sup>2" if "w \<le> 1 / 4 \<and> - w \<le> 1 / 4" for w :: real
  proof -
    from that have "\<bar>w\<bar> \<le> 1 / 4" by arith
    then show ?thesis by (simp add: power2_le_iff_abs_le)
  qed
  from pq have "p\<^sup>2 \<le> (1 / 4)\<^sup>2" "q\<^sup>2 \<le> (1 / 4)\<^sup>2" by (simp_all only: small)
  then have "p\<^sup>2 + q\<^sup>2 \<le> (2 / 5)\<^sup>2" by (simp add: power2_eq_square)
  then have "sqrt (p\<^sup>2 + q\<^sup>2) \<le> 2 / 5" by (intro real_le_lsqrt) simp_all
  moreover have "sqrt ((u + p)\<^sup>2 + (v + q)\<^sup>2) \<le> sqrt (u\<^sup>2 + v\<^sup>2) + sqrt (p\<^sup>2 + q\<^sup>2)"
    by (rule norm_shift)
  ultimately have "sqrt ((u + p)\<^sup>2 + (v + q)\<^sup>2) \<le> c + 2 / 5" using assms(1) by linarith
  then show ?thesis by (simp only: p_def q_def)
qed

lemma child_velocity_bound:
  assumes rnd: "\<forall>k. 0 \<le> rnd k \<and> rnd k < 1"
    and s: "vel_le c s"
    and b: "b = herbivore_child rnd a s \<or> b = carnivore_child rnd a s"
    and num: "a_dx b = Num u \<and> a_dy b = Num v"
  shows "sqrt (u\<^sup>2 + v\<^sup>2) \<le> c + 2 / 5"
proof -
  from b have vel: "a_dx b = l_dx s + Num ((rnd (rng s + 4) - 0.5) * 0.5)"
    "a_dy b = l_dy s + Num ((rnd (rng s + 5) - 0.5) * 0.5)"
    by (auto simp add: herbivore_child_def carnivore_child_def)
  from num vel obtain u0 v0 where uv: "l_dx s = Num u0" "l_dy s = Num v0"
    by (cases "l_dx s"; cases "l_dy s") auto
  with num vel have "u = u0 + (rnd (rng s + 4) - 0.5) * 0.5" "v = v0 + (rnd (rng s + 5) - 0.5) * 0.5"
    by auto
  moreover from s uv have "sqrt (u0\<^sup>2 + v0\<^sup>2) \<le> c" by (simp add: vel_le_def)
  ultimately show ?thesis using rnd jitter_norm [of u0 v0 c "rnd (rng s + 4)" "rnd (rng s + 5)"]
    by simp
qed

text \<open>
  The stuck counter. No step of the iteration but the stuck detection changes it, and
  the stuck detection keeps it within 0 and 60. With the counter in that range the
  impulse of lines 480-485 fires only at a speed below 0.12, where the cap has not
  fired and the kick has left the velocity below 0.43: so the velocity is within the
  maximum of the kind when the walls are looked at, and the nudge of the clamp adds at
  most \<open>0.2 * sqrt 2\<close>, which is below 0.3.
\<close>

lemma seek_food_stuck: "l_stuckTicks (seek_food a s) = l_stuckTicks s"
  by (simp add: seek_food_def Let_def)

lemma flee_stuck: "l_stuckTicks (flee a s) = l_stuckTicks s"
  by (simp add: flee_def Let_def)

lemma pursue_stuck: "l_stuckTicks (pursue rnd a s) = l_stuckTicks s"
  by (simp add: pursue_def Let_def)

lemma avoid_food_stuck: "l_stuckTicks (avoid_food s) = l_stuckTicks s"
  by (simp add: avoid_food_def Let_def)

lemma hunt_stuck: "l_stuckTicks (hunt rnd a s) = l_stuckTicks s"
  by (simp add: hunt_def avoid_food_stuck pursue_stuck)

lemma seed_stuck: "l_stuckTicks (seed rnd now s) = l_stuckTicks s"
  by (simp add: seed_def Let_def split: option.splits)

lemma drift_stuck: "l_stuckTicks (drift rnd now a s) = l_stuckTicks s"
  by (simp add: drift_def Let_def seed_stuck)

lemma wander_stuck: "l_stuckTicks (wander rnd a s) = l_stuckTicks s"
  by (simp add: wander_def Let_def)

lemma steer_stuck: "l_stuckTicks (steer rnd now a s) = l_stuckTicks s"
  by (simp add: steer_def wander_stuck drift_stuck hunt_stuck flee_stuck seek_food_stuck)

lemma load_stuck:
  "l_stuckTicks (load rnd a s) = (case a_stuckTicks a of None \<Rightarrow> 0 | Some c \<Rightarrow> c)"
  by (simp add: load_def Let_def split: option.splits)

lemma cap_kick_stuck:
  "l_stuckTicks (min_speed_kick rnd spd (cap_velocity a spd s)) = l_stuckTicks s"
  by (simp add: min_speed_kick_def cap_velocity_def Let_def)

lemma slow_kick_bound:
  assumes "hypot (l_dx s) (l_dy s) < Num 0.12"
  shows "vel_le (43 / 100)
     (min_speed_kick rnd (hypot (l_dx s) (l_dy s)) (cap_velocity a (hypot (l_dx s) (l_dy s)) s))"
proof -
  from assms obtain u v where uv: "l_dx s = Num u" "l_dy s = Num v"
    by (cases "l_dx s"; cases "l_dy s") auto
  let ?n = "sqrt (u\<^sup>2 + v\<^sup>2)"
  from assms uv have n: "?n < 0.12" by simp
  have M: "5 / 2 \<le> maxVel (a_type a)" using maxVel_bounds by simp
  from n have "?n < 3 / 25" by simp
  with M have nocap: "\<not> maxVel (a_type a) < ?n" by linarith
  show ?thesis
  proof (cases "?n < 0.08")
    case True
    let ?t = "rnd (rng s) * pi * 2"
    have "sqrt ((u + cos ?t * 0.35)\<^sup>2 + (v + sin ?t * 0.35)\<^sup>2)
        \<le> ?n + sqrt ((cos ?t * 0.35)\<^sup>2 + (sin ?t * 0.35)\<^sup>2)"
      by (rule norm_shift)
    also have "\<dots> = ?n + 0.35" using norm_polar [of ?t "0.35"] by (simp only:) simp
    also have "\<dots> \<le> 43 / 100" using True by simp
    finally show ?thesis using True nocap uv
      by (simp add: vel_le_def min_speed_kick_def cap_velocity_def Let_def)
  next
    case False
    then show ?thesis using nocap uv n
      by (simp add: vel_le_def min_speed_kick_def cap_velocity_def)
  qed
qed

text \<open>
  With the stuck counter within 0..60 the impulse fires only when the speed is below
  0.12, and then the velocity stays below 1.43.
\<close>

lemma stuck_slow:
  assumes range: "0 \<le> l_stuckTicks s \<and> l_stuckTicks s \<le> 60"
    and slow: "hypot (l_dx s) (l_dy s) < Num 0.12"
  shows "vel_le (143 / 100)
     (stuck_detection rnd (hypot (l_dx s) (l_dy s))
        (min_speed_kick rnd (hypot (l_dx s) (l_dy s)) (cap_velocity a (hypot (l_dx s) (l_dy s)) s)))"
proof -
  have "vel_le (43 / 100 + 1)
     (stuck_detection rnd (hypot (l_dx s) (l_dy s))
        (min_speed_kick rnd (hypot (l_dx s) (l_dy s)) (cap_velocity a (hypot (l_dx s) (l_dy s)) s)))"
    by (intro stuck_detection_bound slow_kick_bound slow)
  then show ?thesis by simp
qed

lemma stuck_fast:
  assumes range: "0 \<le> l_stuckTicks s \<and> l_stuckTicks s \<le> 60"
    and fast: "\<not> hypot (l_dx s) (l_dy s) < Num 0.12"
  shows "l_dx (stuck_detection rnd (hypot (l_dx s) (l_dy s))
          (min_speed_kick rnd (hypot (l_dx s) (l_dy s)) (cap_velocity a (hypot (l_dx s) (l_dy s)) s)))
         = l_dx (cap_velocity a (hypot (l_dx s) (l_dy s)) s) \<and>
         l_dy (stuck_detection rnd (hypot (l_dx s) (l_dy s))
          (min_speed_kick rnd (hypot (l_dx s) (l_dy s)) (cap_velocity a (hypot (l_dx s) (l_dy s)) s)))
         = l_dy (cap_velocity a (hypot (l_dx s) (l_dy s)) s)"
proof -
  have nokick: "\<not> hypot (l_dx s) (l_dy s) < Num 0.08"
    using fast by (cases "hypot (l_dx s) (l_dy s)") auto
  show ?thesis using range fast nokick
    by (simp add: stuck_detection_def min_speed_kick_def cap_velocity_def Let_def)
qed

lemma stuck_detection_range:
  assumes "0 \<le> l_stuckTicks s \<and> l_stuckTicks s \<le> 60"
  shows "0 \<le> l_stuckTicks (stuck_detection rnd spd s) \<and> l_stuckTicks (stuck_detection rnd spd s) \<le> 60"
  using assms by (simp add: stuck_detection_def Let_def)

lemma cap_kick_stuck_bound:
  assumes range: "0 \<le> l_stuckTicks s \<and> l_stuckTicks s \<le> 60"
  shows "vel_le (maxVel (a_type a))
     (stuck_detection rnd (hypot (l_dx s) (l_dy s))
        (min_speed_kick rnd (hypot (l_dx s) (l_dy s)) (cap_velocity a (hypot (l_dx s) (l_dy s)) s)))"
proof (cases "hypot (l_dx s) (l_dy s) < Num 0.12")
  case True
  have "143 / 100 \<le> maxVel (a_type a)" using maxVel_bounds [of "a_type a"] by simp
  with stuck_slow [OF range True, of rnd a] show ?thesis
    by (auto simp add: vel_le_def intro: order_trans)
next
  case False
  from stuck_fast [OF range False, of rnd a] cap_velocity_bound [of a s] show ?thesis
    by (simp add: vel_le_def)
qed

lemma move_stuck: "l_stuckTicks (move P a s) = l_stuckTicks s"
  by (simp add: move_def)

lemma reflect_stuck: "l_stuckTicks (reflect s) = l_stuckTicks s"
  by (simp add: reflect_def Let_def)

lemma clamp_inside_stuck: "l_stuckTicks (clamp_inside s) = l_stuckTicks s"
  by (simp add: clamp_inside_def Let_def)

lemma kinematics_tight:
  assumes range: "0 \<le> l_stuckTicks s \<and> l_stuckTicks s \<le> 60"
  shows "vel_le (maxVel (a_type a) + 3 / 10) (kinematics P rnd a s) \<and>
         0 \<le> l_stuckTicks (kinematics P rnd a s) \<and> l_stuckTicks (kinematics P rnd a s) \<le> 60"
proof -
  let ?s1 = "move P a s"
  let ?spd = "hypot (l_dx ?s1) (l_dy ?s1)"
  let ?k = "min_speed_kick rnd ?spd (cap_velocity a ?spd ?s1)"
  have r1: "0 \<le> l_stuckTicks ?s1 \<and> l_stuckTicks ?s1 \<le> 60" using range by (simp add: move_stuck)
  then have "vel_le (maxVel (a_type a)) (stuck_detection rnd ?spd ?k)"
    by (rule cap_kick_stuck_bound)
  then have "vel_le (maxVel (a_type a) + 3 / 10) (clamp_inside (reflect (stuck_detection rnd ?spd ?k)))"
    by (intro clamp_inside_bound reflect_bound)
  moreover have "0 \<le> l_stuckTicks (stuck_detection rnd ?spd ?k) \<and>
      l_stuckTicks (stuck_detection rnd ?spd ?k) \<le> 60"
    using r1 by (intro stuck_detection_range) (simp add: cap_kick_stuck)
  ultimately show ?thesis
    by (simp add: kinematics_def Let_def clamp_inside_stuck reflect_stuck)
qed

lemma approach_tight:
  assumes "stuck_in_range a"
  shows "vel_le (maxVel (a_type a) + 3 / 10) (approach P rnd now a s) \<and>
         0 \<le> l_stuckTicks (approach P rnd now a s) \<and> l_stuckTicks (approach P rnd now a s) \<le> 60"
proof -
  have "0 \<le> l_stuckTicks (steer rnd now a (load rnd a s)) \<and>
      l_stuckTicks (steer rnd now a (load rnd a s)) \<le> 60"
    using assms by (simp add: steer_stuck load_stuck stuck_in_range_def split: option.splits)
  then show ?thesis unfolding approach_def by (rule kinematics_tight)
qed

lemma settle_stuck: "l_stuckTicks (settle P rnd now a s) = l_stuckTicks (approach P rnd now a s)"
  by (simp add: settle_def metabolise_def carnivore_turn_def carnivore_reproduce_def catch_prey_def
      herbivore_turn_def herbivore_reproduce_def graze_def split: option.splits)

lemma survivor_stuck: "a_stuckTicks (survivor a s) = Some (l_stuckTicks s)"
  by (simp add: survivor_def)

lemma offspring_stuck:
  assumes "b \<in> set (offspring P rnd now a s)"
  shows "stuck_in_range b"
  using assms
  by (auto simp add: offspring_def Let_def stuck_in_range_def herbivore_child_def carnivore_child_def
      split: if_splits)

lemma offspring_velocity_tight:
  assumes rnd: "\<forall>k. 0 \<le> rnd k \<and> rnd k < 1"
    and a: "stuck_in_range a"
    and b: "b \<in> set (offspring P rnd now a s)"
    and num: "a_dx b = Num u \<and> a_dy b = Num v"
  shows "sqrt (u\<^sup>2 + v\<^sup>2) \<le> maxVel (a_type b) + 7 / 10"
proof -
  let ?s1 = "approach P rnd now a s"
  let ?s2 = "herbivore_turn P rnd a ?s1"
  have ty: "a_type b = a_type a" using b by (simp add: offspring_props)
  have s1: "vel_le (maxVel (a_type a) + 3 / 10) ?s1" using approach_tight [OF a] by blast
  then have g: "vel_le (maxVel (a_type a) + 3 / 10) (graze ?s1)"
    by (simp add: vel_le_def graze_velocity)
  from s1 have c: "vel_le (maxVel (a_type a) + 3 / 10) (catch_prey P ?s2)"
    by (simp add: vel_le_def catch_prey_velocity herbivore_turn_velocity)
  from b have "b = herbivore_child rnd a (graze ?s1) \<or> b = carnivore_child rnd a (catch_prey P ?s2)"
    by (auto simp add: offspring_def Let_def split: if_splits)
  then have "sqrt (u\<^sup>2 + v\<^sup>2) \<le> maxVel (a_type a) + 3 / 10 + 2 / 5"
  proof
    assume "b = herbivore_child rnd a (graze ?s1)"
    then show ?thesis using child_velocity_bound [OF rnd g _ num] by blast
  next
    assume "b = carnivore_child rnd a (catch_prey P ?s2)"
    then show ?thesis using child_velocity_bound [OF rnd c _ num] by blast
  qed
  then show ?thesis using ty by simp
qed

lemma initial_agents_stuck:
  "b \<in> set (fst (initial_agents rnd n i k)) \<Longrightarrow> a_stuckTicks b = Some 0"
  by (induction n arbitrary: i k) (auto simp add: Let_def initial_agent_def)

lemma vel_le_mono: "vel_le c s \<Longrightarrow> c \<le> d \<Longrightarrow> vel_le d s"
  unfolding vel_le_def by (meson order_trans)

lemma approach_walls:
  "approach P rnd now a s = clamp_inside (reflect (free_flight P rnd now a s))"
  unfolding approach_def kinematics_def free_flight_def Let_def by (rule refl)

lemma moved_stuck:
  assumes "stuck_in_range a"
  shows "0 \<le> l_stuckTicks (move P a (steer rnd now a (load rnd a s))) \<and>
         l_stuckTicks (move P a (steer rnd now a (load rnd a s))) \<le> 60"
  using assms by (simp add: move_stuck steer_stuck load_stuck stuck_in_range_def split: option.splits)

lemma free_flight_fast:
  assumes "stuck_in_range a"
    and "\<not> hypot (l_dx (move P a (steer rnd now a (load rnd a s))))
                 (l_dy (move P a (steer rnd now a (load rnd a s)))) < Num 0.12"
  shows "l_dx (free_flight P rnd now a s) =
           l_dx (cap_velocity a (hypot (l_dx (move P a (steer rnd now a (load rnd a s))))
                                        (l_dy (move P a (steer rnd now a (load rnd a s)))))
                  (move P a (steer rnd now a (load rnd a s)))) \<and>
         l_dy (free_flight P rnd now a s) =
           l_dy (cap_velocity a (hypot (l_dx (move P a (steer rnd now a (load rnd a s))))
                                        (l_dy (move P a (steer rnd now a (load rnd a s)))))
                  (move P a (steer rnd now a (load rnd a s))))"
  unfolding free_flight_def Let_def
  by (rule stuck_fast [OF moved_stuck [OF assms(1)] assms(2)])

lemma free_flight_slow:
  assumes "stuck_in_range a"
    and "hypot (l_dx (move P a (steer rnd now a (load rnd a s))))
               (l_dy (move P a (steer rnd now a (load rnd a s)))) < Num 0.12"
  shows "vel_le (143 / 100) (free_flight P rnd now a s)"
  unfolding free_flight_def Let_def
  by (rule stuck_slow [OF moved_stuck [OF assms(1)] assms(2)])

lemma approach_slow:
  assumes "stuck_in_range a"
    and "hypot (l_dx (move P a (steer rnd now a (load rnd a s))))
               (l_dy (move P a (steer rnd now a (load rnd a s)))) < Num 0.12"
  shows "vel_le (9 / 5) (approach P rnd now a s)"
proof -
  have "vel_le (143 / 100) (free_flight P rnd now a s)"
    using assms by (rule free_flight_slow)
  then have "vel_le (143 / 100 + 3 / 10) (clamp_inside (reflect (free_flight P rnd now a s)))"
    by (intro clamp_inside_bound reflect_bound)
  then have "vel_le (143 / 100 + 3 / 10) (approach P rnd now a s)"
    by (simp only: approach_walls)
  then show ?thesis by (rule vel_le_mono) simp
qed

section \<open>Position\<close>

lemma clamp_inside_x:
  "l_x (clamp_inside s) = Num px \<Longrightarrow> 1 \<le> px \<and> px \<le> WORLD_WIDTH - 1"
  by (cases "l_x s") (auto simp add: clamp_inside_def Let_def WORLD_WIDTH_def split: if_splits)

lemma clamp_inside_y:
  "l_y (clamp_inside s) = Num py \<Longrightarrow> 1 \<le> py \<and> py \<le> WORLD_HEIGHT - 1"
  by (cases "l_y s") (auto simp add: clamp_inside_def Let_def WORLD_HEIGHT_def split: if_splits)

lemma approach_inside_x:
  "l_x (approach P rnd now a s) = Num px \<Longrightarrow> 1 \<le> px \<and> px \<le> WORLD_WIDTH - 1"
  by (simp add: approach_def kinematics_def Let_def clamp_inside_x)

lemma approach_inside_y:
  "l_y (approach P rnd now a s) = Num py \<Longrightarrow> 1 \<le> py \<and> py \<le> WORLD_HEIGHT - 1"
  by (simp add: approach_def kinematics_def Let_def clamp_inside_y)

lemma graze_position: "l_x (graze s) = l_x s \<and> l_y (graze s) = l_y s"
  by (simp add: graze_def split: option.splits)

lemma herbivore_turn_position:
  "l_x (herbivore_turn P rnd a s) = l_x s \<and> l_y (herbivore_turn P rnd a s) = l_y s"
  by (simp add: herbivore_turn_def herbivore_reproduce_def graze_position)

lemma catch_prey_position: "l_x (catch_prey P s) = l_x s \<and> l_y (catch_prey P s) = l_y s"
  by (simp add: catch_prey_def split: option.splits)

lemma carnivore_turn_position:
  "l_x (carnivore_turn P rnd a s) = l_x s \<and> l_y (carnivore_turn P rnd a s) = l_y s"
  by (simp add: carnivore_turn_def carnivore_reproduce_def catch_prey_position)

lemma settle_position:
  "l_x (settle P rnd now a s) = l_x (approach P rnd now a s) \<and>
   l_y (settle P rnd now a s) = l_y (approach P rnd now a s)"
  by (simp add: settle_def metabolise_def carnivore_turn_position herbivore_turn_position)

lemma child_position:
  assumes rnd: "\<forall>k. 0 \<le> rnd k \<and> rnd k < 1"
    and b: "b = herbivore_child rnd a s \<or> b = carnivore_child rnd a s"
  shows "(a_x b = Num px \<longrightarrow> (\<exists>x. l_x s = Num x \<and> x - 5 \<le> px \<and> px \<le> x + 5)) \<and>
         (a_y b = Num py \<longrightarrow> (\<exists>y. l_y s = Num y \<and> y - 5 \<le> py \<and> py \<le> y + 5))"
proof -
  from b have pos: "a_x b = l_x s + Num ((rnd (rng s + 2) - 0.5) * 10)"
    "a_y b = l_y s + Num ((rnd (rng s + 3) - 0.5) * 10)"
    by (auto simp add: herbivore_child_def carnivore_child_def)
  have off: "- 5 \<le> (rnd k - 0.5) * 10 \<and> (rnd k - 0.5) * 10 \<le> 5" for k
    using rnd [rule_format, of k] by simp
  show ?thesis
    using pos off [of "rng s + 2"] off [of "rng s + 3"]
    by (cases "l_x s"; cases "l_y s") auto
qed

lemma offspring_position:
  assumes rnd: "\<forall>k. 0 \<le> rnd k \<and> rnd k < 1"
    and b: "b \<in> set (offspring P rnd now a s)"
  shows "(a_x b = Num px \<longrightarrow> - 4 \<le> px \<and> px \<le> WORLD_WIDTH + 4) \<and>
         (a_y b = Num py \<longrightarrow> - 4 \<le> py \<and> py \<le> WORLD_HEIGHT + 4)"
proof -
  let ?s1 = "approach P rnd now a s"
  let ?s2 = "herbivore_turn P rnd a ?s1"
  from b have "b = herbivore_child rnd a (graze ?s1) \<or> b = carnivore_child rnd a (catch_prey P ?s2)"
    by (auto simp add: offspring_def Let_def split: if_splits)
  then have "\<exists>t. (b = herbivore_child rnd a t \<or> b = carnivore_child rnd a t) \<and>
      l_x t = l_x ?s1 \<and> l_y t = l_y ?s1"
  proof
    assume "b = herbivore_child rnd a (graze ?s1)"
    then show ?thesis using graze_position [of ?s1] by blast
  next
    assume "b = carnivore_child rnd a (catch_prey P ?s2)"
    moreover have "l_x (catch_prey P ?s2) = l_x ?s1 \<and> l_y (catch_prey P ?s2) = l_y ?s1"
      by (simp add: catch_prey_position herbivore_turn_position)
    ultimately show ?thesis by blast
  qed
  then obtain t where t: "b = herbivore_child rnd a t \<or> b = carnivore_child rnd a t"
    "l_x t = l_x ?s1" "l_y t = l_y ?s1"
    by blast
  note near = child_position [OF rnd t(1), of px py]
  have "- 4 \<le> px \<and> px \<le> WORLD_WIDTH + 4" if "a_x b = Num px"
  proof -
    from near that obtain x where x: "l_x ?s1 = Num x" "x - 5 \<le> px" "px \<le> x + 5"
      by (auto simp add: t(2))
    from approach_inside_x [OF x(1)] x(2,3) show ?thesis by simp
  qed
  moreover have "- 4 \<le> py \<and> py \<le> WORLD_HEIGHT + 4" if "a_y b = Num py"
  proof -
    from near that obtain y where y: "l_y ?s1 = Num y" "y - 5 \<le> py" "py \<le> y + 5"
      by (auto simp add: t(3))
    from approach_inside_y [OF y(1)] y(2,3) show ?thesis by simp
  qed
  ultimately show ?thesis by blast
qed

text \<open>What the reflection and the clamp make of a coordinate and of the velocity on its axis.\<close>

lemma walls_x:
  assumes "l_x s = Num x" "l_dx s = Num u"
  shows "(x < 1 \<longrightarrow> l_x (clamp_inside (reflect s)) = Num 1 \<and>
                   l_dx (clamp_inside (reflect s)) = Num (\<bar>u\<bar> + 1 / 5)) \<and>
         (WORLD_WIDTH - 1 < x \<longrightarrow> l_x (clamp_inside (reflect s)) = Num (WORLD_WIDTH - 1) \<and>
                   l_dx (clamp_inside (reflect s)) = Num (- \<bar>u\<bar> - 1 / 5)) \<and>
         (1 \<le> x \<and> x \<le> WORLD_WIDTH - 1 \<longrightarrow> l_x (clamp_inside (reflect s)) = Num x \<and>
                   l_dx (clamp_inside (reflect s)) = Num u)"
  using assms by (simp add: clamp_inside_def reflect_def Let_def WORLD_WIDTH_def)

lemma walls_y:
  assumes "l_y s = Num y" "l_dy s = Num v"
  shows "(y < 1 \<longrightarrow> l_y (clamp_inside (reflect s)) = Num 1 \<and>
                   l_dy (clamp_inside (reflect s)) = Num (\<bar>v\<bar> + 1 / 5)) \<and>
         (WORLD_HEIGHT - 1 < y \<longrightarrow> l_y (clamp_inside (reflect s)) = Num (WORLD_HEIGHT - 1) \<and>
                   l_dy (clamp_inside (reflect s)) = Num (- \<bar>v\<bar> - 1 / 5)) \<and>
         (1 \<le> y \<and> y \<le> WORLD_HEIGHT - 1 \<longrightarrow> l_y (clamp_inside (reflect s)) = Num y \<and>
                   l_dy (clamp_inside (reflect s)) = Num v)"
  using assms by (simp add: clamp_inside_def reflect_def Let_def WORLD_HEIGHT_def)

section \<open>Ticks of the example worlds\<close>

lemmas step_defs = process_agent_def settle_def approach_def load_def steer_def seek_food_def
  flee_def hunt_def pursue_def avoid_food_def drift_def seed_def wander_def kinematics_def move_def
  cap_velocity_def min_speed_kick_def stuck_detection_def reflect_def clamp_inside_def
  herbivore_turn_def graze_def herbivore_reproduce_def herbivore_child_def carnivore_turn_def
  catch_prey_def carnivore_reproduce_def carnivore_child_def metabolise_def starvationFactor_def
  survive_def survivor_def herbivore_fertile_def carnivore_fertile_def currentHerbivores_def
  currentCarnivores_def adjustedSpeed_def maxVel_def baseMetabolism_def nearest_food_def
  nearest_agent_def WORLD_WIDTH_def WORLD_HEIGHT_def

lemmas tick_defs = update_def end_tick_def begin_tick_def record_sample_def scarcityBoost_def
  count_kind_def

lemmas ex_defs = defaults_def cap20_def half_def birth_draws_def mk_agent_def mk_world_def
  pellet_def crumb_def near_def far_def bounced_def runner_def starved_def idler_def

lemma hypot_axis: "hypot (Num a) (Num 0) = Num \<bar>a\<bar>"
  by simp

lemma prey_first_tick:
  "w_agents (update defaults half 0 prey_first) =
     [\<lparr>a_id = 7, a_x = Num (19951 / 200), a_y = Num 100, a_dx = Num (- (679 / 2000)),
      a_dy = Num 0, a_energy = 4993 / 100, a_age = 1 / 20, a_speed = 1, a_vision = 50,
      a_size = 9 / 2, a_type = Herbivore, a_reproCooldown = Some 99,
      a_metabolism = Some (1 / 10), a_lastAteTicks = Some 1, a_seedCooldown = None,
      a_stuckTicks = Some 0\<rparr>, \<lparr>a_id = 8, a_x = Num (10251 / 100), a_y = Num 100,
      a_dx = Num (- (679 / 1000)), a_dy = Num 0, a_energy = 9493 / 100, a_age = 1 / 20,
      a_speed = 1, a_vision = 50, a_size = 117 / 20, a_type = Carnivore,
      a_reproCooldown = Some 99, a_metabolism = Some (1 / 10), a_lastAteTicks = Some 1,
      a_seedCooldown = None, a_stuckTicks = Some 0\<rparr>]"
  by (simp add: tick_defs step_defs prey_first_def ex_defs hypot_axis Let_def cong: let_weak_cong)

lemma predator_first_tick:
  "w_agents (update defaults half 0 predator_first) =
     [\<lparr>a_id = 8, a_x = Num (10251 / 100), a_y = Num 100, a_dx = Num (- (679 / 1000)),
      a_dy = Num 0, a_energy = 9493 / 100, a_age = 1 / 20, a_speed = 1, a_vision = 50,
      a_size = 117 / 20, a_type = Carnivore, a_reproCooldown = Some 99,
      a_metabolism = Some (1 / 10), a_lastAteTicks = Some 1, a_seedCooldown = None,
      a_stuckTicks = Some 0\<rparr>]"
  by (simp add: tick_defs step_defs predator_first_def ex_defs hypot_axis Let_def cong: let_weak_cong)

lemma shared_prey_tick:
  "w_agents (update defaults half 0 shared_prey) =
     [\<lparr>a_id = 7, a_x = Num (9749 / 100), a_y = Num 100, a_dx = Num (679 / 1000),
      a_dy = Num 0, a_energy = 9493 / 100, a_age = 1 / 20, a_speed = 1, a_vision = 50,
      a_size = 117 / 20, a_type = Carnivore, a_reproCooldown = Some 99,
      a_metabolism = Some (1 / 10), a_lastAteTicks = Some 1, a_seedCooldown = None,
      a_stuckTicks = Some 0\<rparr>, \<lparr>a_id = 8, a_x = Num (10251 / 100), a_y = Num 100,
      a_dx = Num (- (679 / 1000)), a_dy = Num 0, a_energy = 9493 / 100, a_age = 1 / 20,
      a_speed = 1, a_vision = 50, a_size = 117 / 20, a_type = Carnivore,
      a_reproCooldown = Some 99, a_metabolism = Some (1 / 10), a_lastAteTicks = Some 1,
      a_seedCooldown = None, a_stuckTicks = Some 0\<rparr>, \<lparr>a_id = 100,
      a_x = Num (20049 / 200), a_y = Num 100, a_dx = Num (679 / 2000), a_dy = Num 0,
      a_energy = 35, a_age = 0, a_speed = 1, a_vision = 50, a_size = 5, a_type = Herbivore,
      a_reproCooldown = Some 600, a_metabolism = Some (7 / 100), a_lastAteTicks = None,
      a_seedCooldown = None, a_stuckTicks = None\<rparr>]"
  by (simp add: tick_defs step_defs shared_prey_def ex_defs hypot_axis Let_def cong: let_weak_cong)



lemma wall_bounce_tick:
  "w_agents (update defaults half 0 wall_bounce) =
     [\<lparr>a_id = 7, a_x = Num 1, a_y = Num 250, a_dx = Num (27 / 10), a_dy = Num 0,
      a_energy = 4993 / 100, a_age = 1 / 20, a_speed = 1, a_vision = 50, a_size = 9 / 2,
      a_type = Herbivore, a_reproCooldown = Some 99, a_metabolism = Some (1 / 10),
      a_lastAteTicks = Some 1, a_seedCooldown = None, a_stuckTicks = Some 0\<rparr>]"
  by (simp add: tick_defs step_defs wall_bounce_def ex_defs hypot_axis Let_def cong: let_weak_cong)

lemma on_food_tick:
  "w_agents (update defaults half 0 on_food) =
     [\<lparr>a_id = 7, a_x = NaN, a_y = NaN, a_dx = NaN, a_dy = NaN, a_energy = 4993 / 100,
      a_age = 1 / 20, a_speed = 1, a_vision = 50, a_size = 9 / 2, a_type = Herbivore,
      a_reproCooldown = Some 99, a_metabolism = Some (1 / 10), a_lastAteTicks = Some 1,
      a_seedCooldown = None, a_stuckTicks = Some 0\<rparr>]"
  by (simp add: tick_defs step_defs on_food_def ex_defs hypot_axis Let_def cong: let_weak_cong)

lemma lone_tick:
  "w_agents (update defaults half 0 lone) =
     [\<lparr>a_id = 7, a_x = Num (1007 / 10), a_y = Num 100, a_dx = Num (97 / 100),
      a_dy = Num 0, a_energy = 4993 / 100, a_age = 1 / 20, a_speed = 1, a_vision = 50,
      a_size = 9 / 2, a_type = Herbivore, a_reproCooldown = Some 99,
      a_metabolism = Some (1 / 10), a_lastAteTicks = Some 1, a_seedCooldown = None,
      a_stuckTicks = Some 0\<rparr>]"
  by (simp add: tick_defs step_defs lone_def ex_defs hypot_axis Let_def cong: let_weak_cong)

lemma starving_tick:
  "w_agents (update defaults half 0 starving) =
     []"
  by (simp add: tick_defs step_defs starving_def ex_defs hypot_axis Let_def cong: let_weak_cong)

lemma wall_birth_tick:
  "w_agents (update defaults birth_draws 0 wall_birth) =
     [\<lparr>a_id = 100, a_x = Num (- (193 / 50)), a_y = Num 250, a_dx = Num (97 / 500),
      a_dy = Num 0, a_energy = 35, a_age = 0, a_speed = 1, a_vision = 50, a_size = 5,
      a_type = Herbivore, a_reproCooldown = Some 600, a_metabolism = Some (7 / 100),
      a_lastAteTicks = None, a_seedCooldown = None, a_stuckTicks = None\<rparr>,
      \<lparr>a_id = 7, a_x = Num (57 / 50), a_y = Num 250, a_dx = Num (97 / 500),
      a_dy = Num 0, a_energy = 4493 / 100, a_age = 1 / 20, a_speed = 1, a_vision = 50,
      a_size = 87 / 20, a_type = Herbivore, a_reproCooldown = Some 599,
      a_metabolism = Some (1 / 10), a_lastAteTicks = Some 1, a_seedCooldown = None,
      a_stuckTicks = Some 0\<rparr>]"
  by (simp add: tick_defs step_defs wall_birth_def ex_defs hypot_axis Let_def cong: let_weak_cong)

lemma pack_tick:
  "count_kind Carnivore (w_agents (update cap20 half 0 pack)) = 38"
  by (simp add: tick_defs step_defs pack_def ex_defs hypot_axis Let_def cong: let_weak_cong)

lemma starving_settle:
  "l_energy (settle defaults half 0 starved (begin_tick defaults half 0 starving)) = - (1 / 50)"
  by (simp add: tick_defs step_defs starving_def ex_defs hypot_axis Let_def cong: let_weak_cong)




lemma bounced_settled:
  "a_x (survivor bounced (settle defaults birth_draws 0 bounced (begin_tick defaults birth_draws 0 wall_birth)))
     = Num (57 / 50) \<and>
   a_y (survivor bounced (settle defaults birth_draws 0 bounced (begin_tick defaults birth_draws 0 wall_birth)))
     = Num 250"
  by (simp add: tick_defs step_defs wall_birth_def ex_defs hypot_axis Let_def cong: let_weak_cong)

lemma initial_agents_first:
  "0 < n \<Longrightarrow> initial_agent rnd i k \<in> set (fst (initial_agents rnd n i k))"
  by (cases n) (simp_all add: Let_def)

lemma strayed_world:
  "strayed =
     \<lparr>w_agents =
        [\<lparr>a_id = 100, a_x = Num (- (193 / 50)), a_y = Num 250, a_dx = Num (97 / 500),
          a_dy = Num 0, a_energy = 35, a_age = 0, a_speed = 1, a_vision = 50, a_size = 5,
          a_type = Herbivore, a_reproCooldown = Some 600, a_metabolism = Some (7 / 100),
          a_lastAteTicks = None, a_seedCooldown = None, a_stuckTicks = None\<rparr>,
         \<lparr>a_id = 7, a_x = Num (57 / 50), a_y = Num 250, a_dx = Num (97 / 500),
          a_dy = Num 0, a_energy = 4493 / 100, a_age = 1 / 20, a_speed = 1, a_vision = 50,
          a_size = 87 / 20, a_type = Herbivore, a_reproCooldown = Some 599,
          a_metabolism = Some (1 / 10), a_lastAteTicks = Some 1, a_seedCooldown = None,
          a_stuckTicks = Some 0\<rparr>],
      w_food = [], w_history = [\<lparr>herb = 2, carn = 0, neutral = 0\<rparr>], w_nextId = 101\<rparr>"
  by (simp add: strayed_def tick_defs step_defs wall_birth_def ex_defs hypot_axis Let_def cong: let_weak_cong)

lemma stray_agent:
  "stray =
     \<lparr>a_id = 100, a_x = Num (- (193 / 50)), a_y = Num 250, a_dx = Num (97 / 500),
      a_dy = Num 0, a_energy = 35, a_age = 0, a_speed = 1, a_vision = 50, a_size = 5,
      a_type = Herbivore, a_reproCooldown = Some 600, a_metabolism = Some (7 / 100),
      a_lastAteTicks = None, a_seedCooldown = None, a_stuckTicks = None\<rparr>"
  by (simp add: stray_def strayed_world)

lemma stray_flight:
  "l_x (free_flight defaults half 0 stray (begin_tick defaults half 0 strayed)) = Num (- (18621 / 5000)) \<and>
   l_dx (free_flight defaults half 0 stray (begin_tick defaults half 0 strayed)) = Num (9409 / 50000) \<and>
   l_y (free_flight defaults half 0 stray (begin_tick defaults half 0 strayed)) = Num 250 \<and>
   l_dy (free_flight defaults half 0 stray (begin_tick defaults half 0 strayed)) = Num 0"
  by (simp add: free_flight_def strayed_world stray_agent tick_defs step_defs ex_defs hypot_axis Let_def
      cong: let_weak_cong)

lemma strayed_tick:
  "map a_id (w_agents (update defaults half 0 strayed)) = [100, 7] \<and>
   map a_x (w_agents (update defaults half 0 strayed)) = [Num 1, Num (6379 / 5000)] \<and>
   map a_dx (w_agents (update defaults half 0 strayed)) = [Num (19409 / 50000), Num (9409 / 50000)]"
  by (simp add: strayed_world tick_defs step_defs ex_defs hypot_axis Let_def cong: let_weak_cong)

lemma runner_flight:
  "l_x (free_flight defaults half 0 runner (begin_tick defaults half 0 wall_bounce)) = Num (- (33 / 25)) \<and>
   l_dx (free_flight defaults half 0 runner (begin_tick defaults half 0 wall_bounce)) = Num (- (5 / 2)) \<and>
   l_y (free_flight defaults half 0 runner (begin_tick defaults half 0 wall_bounce)) = Num 250 \<and>
   l_dy (free_flight defaults half 0 runner (begin_tick defaults half 0 wall_bounce)) = Num 0"
  by (simp add: free_flight_def tick_defs step_defs wall_bounce_def ex_defs hypot_axis Let_def
      cong: let_weak_cong)

lemma bounced_flight:
  "l_x (free_flight defaults birth_draws 0 bounced (begin_tick defaults birth_draws 0 wall_birth)) = Num (57 / 50) \<and>
   l_dx (free_flight defaults birth_draws 0 bounced (begin_tick defaults birth_draws 0 wall_birth)) = Num (97 / 500)"
  by (simp add: free_flight_def tick_defs step_defs wall_birth_def ex_defs hypot_axis Let_def
      cong: let_weak_cong)

lemma runner_moved:
  "hypot (l_dx (move defaults runner (steer half 0 runner (load half runner (begin_tick defaults half 0 wall_bounce)))))
         (l_dy (move defaults runner (steer half 0 runner (load half runner (begin_tick defaults half 0 wall_bounce)))))
     = Num (1261 / 500)"
  by (simp add: tick_defs step_defs wall_bounce_def ex_defs hypot_axis Let_def cong: let_weak_cong)

lemma runner_capped:
  "l_dx (cap_velocity runner
          (hypot (l_dx (move defaults runner (steer half 0 runner (load half runner (begin_tick defaults half 0 wall_bounce)))))
                 (l_dy (move defaults runner (steer half 0 runner (load half runner (begin_tick defaults half 0 wall_bounce))))))
          (move defaults runner (steer half 0 runner (load half runner (begin_tick defaults half 0 wall_bounce)))))
     = Num (- (5 / 2)) \<and>
   l_dy (cap_velocity runner
          (hypot (l_dx (move defaults runner (steer half 0 runner (load half runner (begin_tick defaults half 0 wall_bounce)))))
                 (l_dy (move defaults runner (steer half 0 runner (load half runner (begin_tick defaults half 0 wall_bounce))))))
          (move defaults runner (steer half 0 runner (load half runner (begin_tick defaults half 0 wall_bounce)))))
     = Num 0"
  by (simp add: tick_defs step_defs wall_bounce_def ex_defs hypot_axis Let_def cong: let_weak_cong)

lemma runner_settled:
  "a_dx (survivor runner (settle defaults half 0 runner (begin_tick defaults half 0 wall_bounce))) = Num (27 / 10) \<and>
   a_dy (survivor runner (settle defaults half 0 runner (begin_tick defaults half 0 wall_bounce))) = Num 0"
  by (simp add: tick_defs step_defs wall_bounce_def ex_defs hypot_axis Let_def cong: let_weak_cong)

lemma idle_tick:
  "w_agents (update defaults half 0 idle) =
     [\<lparr>a_id = 7, a_x = Num 100, a_y = Num 100, a_dx = Num (- (7 / 20)), a_dy = Num 0,
      a_energy = 4993 / 100, a_age = 1 / 20, a_speed = 1, a_vision = 50, a_size = 9 / 2,
      a_type = Herbivore, a_reproCooldown = Some 99, a_metabolism = Some (1 / 10),
      a_lastAteTicks = Some 1, a_seedCooldown = None, a_stuckTicks = Some 1\<rparr>]"
  by (simp add: tick_defs step_defs idle_def ex_defs hypot_axis Let_def cong: let_weak_cong)

lemma idler_moved:
  "hypot (l_dx (move defaults idler (steer half 0 idler (load half idler (begin_tick defaults half 0 idle)))))
         (l_dy (move defaults idler (steer half 0 idler (load half idler (begin_tick defaults half 0 idle)))))
     = Num 0"
  by (simp add: tick_defs step_defs idle_def ex_defs hypot_axis Let_def cong: let_weak_cong)

lemma idler_settled:
  "a_dx (survivor idler (settle defaults half 0 idler (begin_tick defaults half 0 idle))) = Num (- (7 / 20)) \<and>
   a_dy (survivor idler (settle defaults half 0 idler (begin_tick defaults half 0 idle))) = Num 0"
  by (simp add: tick_defs step_defs idle_def ex_defs hypot_axis Let_def cong: let_weak_cong)

lemma lone_settled:
  "l_energy (settle defaults half 0 (mk_agent 7 Herbivore 100 100 1 0 50 100) (begin_tick defaults half 0 lone))
     = 4993 / 100 \<and>
   l_age (settle defaults half 0 (mk_agent 7 Herbivore 100 100 1 0 50 100) (begin_tick defaults half 0 lone))
     = 1 / 20 \<and>
   eatenHerbivores (settle defaults half 0 (mk_agent 7 Herbivore 100 100 1 0 50 100)
      (begin_tick defaults half 0 lone)) = {}"
  by (simp add: tick_defs step_defs lone_def ex_defs hypot_axis Let_def cong: let_weak_cong)

lemma lone_fed:
  "l_energy (carnivore_turn defaults half (mk_agent 7 Herbivore 100 100 1 0 50 100)
     (herbivore_turn defaults half (mk_agent 7 Herbivore 100 100 1 0 50 100)
       (approach defaults half 0 (mk_agent 7 Herbivore 100 100 1 0 50 100) (begin_tick defaults half 0 lone))))
     = 50"
  by (simp add: tick_defs step_defs lone_def ex_defs hypot_axis Let_def cong: let_weak_cong)

section \<open>The claims\<close>

text \<open>
  Claim C1 says that within one tick no food item is consumed by more than one
  herbivore, no herbivore is eaten by more than one carnivore, and a herbivore already
  marked eaten does not reproduce. The code does not do the last two: in the world
  \<open>shared_prey\<close> the carnivores 7 and 8 stand 3 away from the herbivore 9 on either side,
  and 9 comes last in the array. After one tick with the default parameters both
  carnivores have fed on the herbivore 9 (each has its 50 of energy, plus 45 for the
  catch, less 0.07 of metabolism), and the herbivore, marked eaten twice, has still
  pushed its child 100 before it was left out of the new world.
\<close>

theorem double_predation:
  "map a_id (w_agents shared_prey) = [7, 8, 9] \<and>
   map a_type (w_agents shared_prey) = [Carnivore, Carnivore, Herbivore] \<and>
   map a_energy (w_agents shared_prey) = [50, 50, 200] \<and>
   map a_id (w_agents (update defaults half 0 shared_prey)) = [7, 8, 100] \<and>
   map a_type (w_agents (update defaults half 0 shared_prey)) = [Carnivore, Carnivore, Herbivore] \<and>
   map a_energy (w_agents (update defaults half 0 shared_prey)) = [50 + 45 - 7 / 100, 50 + 45 - 7 / 100, 35] \<and>
   eatenHerbivores (end_tick defaults half 0 shared_prey) = {9}"
proof -
  have "eatenHerbivores (end_tick defaults half 0 shared_prey) = {9}"
    by (simp add: tick_defs step_defs shared_prey_def ex_defs hypot_axis Let_def cong: let_weak_cong)
  then show ?thesis
    by (simp add: shared_prey_tick) (simp add: shared_prey_def mk_world_def mk_agent_def)
qed

text \<open>
  Claim C2 says that a herbivore a carnivore marks as eaten is absent from the output
  whatever the order of the two in the array. The code leaves it out only when the
  carnivore comes first: in \<open>prey_first\<close> the herbivore 7 precedes the carnivore 8, which
  is 3 away from it. The herbivore is pushed to the output before the carnivore marks
  it, so after one tick it is still there, and the carnivore has gained the 45 of the
  catch (less 0.07 of metabolism). With the carnivore first (\<open>predator_first\<close>) the
  herbivore is gone.
\<close>

theorem eaten_prey_survives:
  "map a_id (w_agents prey_first) = [7, 8] \<and>
   map a_type (w_agents prey_first) = [Herbivore, Carnivore] \<and>
   map a_energy (w_agents prey_first) = [50, 50] \<and>
   map a_id (w_agents (update defaults half 0 prey_first)) = [7, 8] \<and>
   map a_energy (w_agents (update defaults half 0 prey_first)) = [50 - 7 / 100, 50 + 45 - 7 / 100] \<and>
   eatenHerbivores (end_tick defaults half 0 prey_first) = {7} \<and>
   map a_id (w_agents predator_first) = [8, 7] \<and>
   map a_id (w_agents (update defaults half 0 predator_first)) = [8]"
proof -
  have "eatenHerbivores (end_tick defaults half 0 prey_first) = {7}"
    by (simp add: tick_defs step_defs prey_first_def ex_defs hypot_axis Let_def cong: let_weak_cong)
  then show ?thesis
    by (simp add: prey_first_tick predator_first_tick)
       (simp add: prey_first_def predator_first_def mk_world_def mk_agent_def)
qed

text \<open>
  Claim C3 says that after a tick the count of each capped kind is within its cap,
  the check counting the population at the start of the tick and the spawns already
  made in this tick. The herbivore branch does so (\<open>herbivore_cap\<close> above); the carnivore
  branch compares only the count at the start of the tick with \<open>maxCarnivores\<close>. In
  \<open>pack\<close>, 19 carnivores are all ready to reproduce and the cap is 20: every one of
  them spawns a child, and the tick ends with 38 carnivores.
\<close>

theorem carnivore_cap_overrun:
  "count_kind Carnivore (w_agents pack) = 19 \<and> maxCarnivores cap20 = 20 \<and>
   count_kind Carnivore (w_agents (update cap20 half 0 pack)) = 38"
  by (simp add: pack_tick) (simp add: pack_def mk_world_def mk_agent_def cap20_def defaults_def count_kind_def)

text \<open>
  Claim C4, the survival law. Every agent of the world a tick produces has energy
  above 0 and an age below 800. Every agent of the array the tick started from whose
  identity no agent of the new world carries has, after the metabolism and the age
  increment of this tick, an energy of at most 0 or an age of at least 800, or is a
  herbivore in the set of herbivores eaten in this tick; and the record of an agent
  whose energy is at most 0 after the metabolism is not in the new world. Presence is
  by identity: when the identities of the array are distinct and below the identity
  counter, an agent of the new world that carries the identity of an agent of the
  array is the record that the iteration of that agent pushes, and there is one
  exactly when that agent ends its iteration with an energy above 0 and an age below
  800 and is not a herbivore marked eaten by then. So an agent whose energy is at most
  0 after the metabolism, or whose age has reached 800, leaves no agent of its
  identity in the new world.
\<close>

theorem survival_law:
  "(\<forall>b\<in>set (w_agents (update P rnd now W)). 0 < a_energy b \<and> a_age b < 800) \<and>
   (\<forall>pre a post. w_agents W = pre @ a # post \<longrightarrow>
      (\<forall>b\<in>set (w_agents (update P rnd now W)). a_id b \<noteq> a_id a) \<longrightarrow>
      l_energy (settle P rnd now a (run_agents P rnd now pre (begin_tick P rnd now W))) \<le> 0 \<or>
      800 \<le> l_age (settle P rnd now a (run_agents P rnd now pre (begin_tick P rnd now W))) \<or>
      (a_type a = Herbivore \<and> a_id a \<in> eatenHerbivores (end_tick P rnd now W))) \<and>
   (\<forall>pre a post. w_agents W = pre @ a # post \<longrightarrow>
      l_energy (settle P rnd now a (run_agents P rnd now pre (begin_tick P rnd now W))) \<le> 0 \<longrightarrow>
      survivor a (settle P rnd now a (run_agents P rnd now pre (begin_tick P rnd now W)))
        \<notin> set (w_agents (update P rnd now W))) \<and>
   (distinct (map a_id (w_agents W)) \<and> (\<forall>c\<in>set (w_agents W). a_id c < w_nextId W) \<longrightarrow>
      (\<forall>pre a post. w_agents W = pre @ a # post \<longrightarrow>
         (\<forall>b\<in>set (w_agents (update P rnd now W)). a_id b = a_id a \<longrightarrow>
            b = survivor a (settle P rnd now a (run_agents P rnd now pre (begin_tick P rnd now W)))) \<and>
         ((\<exists>b\<in>set (w_agents (update P rnd now W)). a_id b = a_id a) \<longleftrightarrow>
            0 < l_energy (settle P rnd now a (run_agents P rnd now pre (begin_tick P rnd now W))) \<and>
            l_age (settle P rnd now a (run_agents P rnd now pre (begin_tick P rnd now W))) < 800 \<and>
            \<not> (a_type a = Herbivore \<and>
               a_id a \<in> eatenHerbivores
                 (settle P rnd now a (run_agents P rnd now pre (begin_tick P rnd now W)))))))"
proof -
  have alive: "0 < a_energy b \<and> a_age b < 800" if "b \<in> set (w_agents (update P rnd now W))" for b
  proof -
    from update_output [OF that] obtain a t where
      "b \<in> set (offspring P rnd now a t) \<or>
       (survives a (settle P rnd now a t) \<and> b = survivor a (settle P rnd now a t))"
      by blast
    then show ?thesis
    proof
      assume "b \<in> set (offspring P rnd now a t)"
      then have "a_age b = 0 \<and> (a_energy b = 35 \<or> a_energy b = 70)" by (simp add: offspring_props)
      then show ?thesis by auto
    next
      assume "survives a (settle P rnd now a t) \<and> b = survivor a (settle P rnd now a t)"
      then show ?thesis by (simp add: survives_def survivor_fields)
    qed
  qed
  have kept: "survivor a (settle P rnd now a (run_agents P rnd now pre (begin_tick P rnd now W)))
        \<in> set (w_agents (update P rnd now W))"
    if split: "w_agents W = pre @ a # post"
      and passed: "survives a (settle P rnd now a (run_agents P rnd now pre (begin_tick P rnd now W)))"
    for pre a post
  proof -
    let ?s = "run_agents P rnd now pre (begin_tick P rnd now W)"
    let ?t = "settle P rnd now a ?s"
    have final: "end_tick P rnd now W = run_agents P rnd now post (process_agent P rnd now a ?s)"
      by (simp add: end_tick_def split run_agents_append)
    from passed have "survivor a ?t \<in> set (updatedAgents (process_agent P rnd now a ?s))"
      by (simp add: process_agent_updated)
    then show ?thesis
      using run_agents_keeps_output [of "process_agent P rnd now a ?s" P rnd now post]
      by (auto simp add: update_agents final)
  qed
  have gone: "l_energy (settle P rnd now a (run_agents P rnd now pre (begin_tick P rnd now W))) \<le> 0 \<or>
      800 \<le> l_age (settle P rnd now a (run_agents P rnd now pre (begin_tick P rnd now W))) \<or>
      (a_type a = Herbivore \<and> a_id a \<in> eatenHerbivores (end_tick P rnd now W))"
    if split: "w_agents W = pre @ a # post"
      and absent: "\<forall>b\<in>set (w_agents (update P rnd now W)). a_id b \<noteq> a_id a"
    for pre a post
  proof -
    let ?s = "run_agents P rnd now pre (begin_tick P rnd now W)"
    let ?t = "settle P rnd now a ?s"
    have final: "end_tick P rnd now W = run_agents P rnd now post (process_agent P rnd now a ?s)"
      by (simp add: end_tick_def split run_agents_append)
    have "\<not> survives a ?t"
    proof
      assume "survives a ?t"
      from kept [OF split this] absent show False by (auto simp add: survivor_fields)
    qed
    moreover have "eatenHerbivores ?t \<subseteq> eatenHerbivores (end_tick P rnd now W)"
      using run_agents_eaten [of "process_agent P rnd now a ?s" P rnd now post]
      by (simp add: final process_agent_def survive_keeps)
    ultimately show ?thesis
      by (auto simp add: survives_def not_less)
  qed
  have dead: "survivor a (settle P rnd now a (run_agents P rnd now pre (begin_tick P rnd now W)))
        \<notin> set (w_agents (update P rnd now W))"
    if "l_energy (settle P rnd now a (run_agents P rnd now pre (begin_tick P rnd now W))) \<le> 0"
    for pre a
    using that alive [of "survivor a (settle P rnd now a (run_agents P rnd now pre (begin_tick P rnd now W)))"]
    by (auto simp add: survivor_fields)
  have same: "(\<forall>b\<in>set (w_agents (update P rnd now W)). a_id b = a_id a \<longrightarrow>
            b = survivor a (settle P rnd now a (run_agents P rnd now pre (begin_tick P rnd now W)))) \<and>
         ((\<exists>b\<in>set (w_agents (update P rnd now W)). a_id b = a_id a) \<longleftrightarrow>
            0 < l_energy (settle P rnd now a (run_agents P rnd now pre (begin_tick P rnd now W))) \<and>
            l_age (settle P rnd now a (run_agents P rnd now pre (begin_tick P rnd now W))) < 800 \<and>
            \<not> (a_type a = Herbivore \<and>
               a_id a \<in> eatenHerbivores
                 (settle P rnd now a (run_agents P rnd now pre (begin_tick P rnd now W)))))"
    if ids: "distinct (map a_id (w_agents W)) \<and> (\<forall>c\<in>set (w_agents W). a_id c < w_nextId W)"
      and split: "w_agents W = pre @ a # post"
    for pre a post
  proof -
    let ?t = "settle P rnd now a (run_agents P rnd now pre (begin_tick P rnd now W))"
    from ids have d: "distinct (map a_id (w_agents W))"
      and low: "\<forall>c\<in>set (w_agents W). a_id c < w_nextId W"
      by simp_all
    have one: "survives a ?t \<and> b = survivor a ?t"
      if "b \<in> set (w_agents (update P rnd now W))" "a_id b = a_id a" for b
      using d low split that by (rule carrier_is_survivor)
    have two: "\<exists>b\<in>set (w_agents (update P rnd now W)). a_id b = a_id a" if "survives a ?t"
    proof
      show "survivor a ?t \<in> set (w_agents (update P rnd now W))" using split that by (rule kept)
      show "a_id (survivor a ?t) = a_id a" by (simp add: survivor_fields)
    qed
    have "(\<exists>b\<in>set (w_agents (update P rnd now W)). a_id b = a_id a) \<longleftrightarrow> survives a ?t"
      using one two by blast
    moreover have "\<forall>b\<in>set (w_agents (update P rnd now W)). a_id b = a_id a \<longrightarrow> b = survivor a ?t"
      using one by blast
    ultimately show ?thesis by (simp only: survives_def)
  qed
  show ?thesis
  proof (intro conjI)
    show "\<forall>b\<in>set (w_agents (update P rnd now W)). 0 < a_energy b \<and> a_age b < 800"
      using alive by blast
    show "\<forall>pre a post. w_agents W = pre @ a # post \<longrightarrow>
      (\<forall>b\<in>set (w_agents (update P rnd now W)). a_id b \<noteq> a_id a) \<longrightarrow>
      l_energy (settle P rnd now a (run_agents P rnd now pre (begin_tick P rnd now W))) \<le> 0 \<or>
      800 \<le> l_age (settle P rnd now a (run_agents P rnd now pre (begin_tick P rnd now W))) \<or>
      (a_type a = Herbivore \<and> a_id a \<in> eatenHerbivores (end_tick P rnd now W))"
      using gone by blast
    show "\<forall>pre a post. w_agents W = pre @ a # post \<longrightarrow>
      l_energy (settle P rnd now a (run_agents P rnd now pre (begin_tick P rnd now W))) \<le> 0 \<longrightarrow>
      survivor a (settle P rnd now a (run_agents P rnd now pre (begin_tick P rnd now W)))
        \<notin> set (w_agents (update P rnd now W))"
      using dead by blast
    show "distinct (map a_id (w_agents W)) \<and> (\<forall>c\<in>set (w_agents W). a_id c < w_nextId W) \<longrightarrow>
      (\<forall>pre a post. w_agents W = pre @ a # post \<longrightarrow>
         (\<forall>b\<in>set (w_agents (update P rnd now W)). a_id b = a_id a \<longrightarrow>
            b = survivor a (settle P rnd now a (run_agents P rnd now pre (begin_tick P rnd now W)))) \<and>
         ((\<exists>b\<in>set (w_agents (update P rnd now W)). a_id b = a_id a) \<longleftrightarrow>
            0 < l_energy (settle P rnd now a (run_agents P rnd now pre (begin_tick P rnd now W))) \<and>
            l_age (settle P rnd now a (run_agents P rnd now pre (begin_tick P rnd now W))) < 800 \<and>
            \<not> (a_type a = Herbivore \<and>
               a_id a \<in> eatenHerbivores
                 (settle P rnd now a (run_agents P rnd now pre (begin_tick P rnd now W))))))"
      using same by blast
  qed
qed

text \<open>
  The survival law at work: the herbivore of \<open>lone\<close> passes the test and the next world
  holds an agent of its identity, with energy above 0; the herbivore of \<open>starving\<close>
  ends the tick with energy below 0, and the next world is empty and holds no agent
  of its identity.
\<close>

theorem survival_law_witness:
  "hd (w_agents (update defaults half 0 lone)) \<in> set (w_agents (update defaults half 0 lone)) \<and>
   0 < a_energy (hd (w_agents (update defaults half 0 lone))) \<and>
   a_age (hd (w_agents (update defaults half 0 lone))) < 800 \<and>
   w_agents starving = [] @ starved # [] \<and>
   w_agents (update defaults half 0 starving) = [] \<and>
   l_energy (settle defaults half 0 starved
      (run_agents defaults half 0 [] (begin_tick defaults half 0 starving))) \<le> 0 \<and>
   survivor starved (settle defaults half 0 starved
      (run_agents defaults half 0 [] (begin_tick defaults half 0 starving)))
     \<notin> set (w_agents (update defaults half 0 starving)) \<and>
   map a_id (w_agents starving) = [7] \<and> w_nextId starving = 100 \<and>
   a_id starved \<notin> a_id ` set (w_agents (update defaults half 0 starving)) \<and>
   w_agents lone = [] @ mk_agent 7 Herbivore 100 100 1 0 50 100 # [] \<and>
   map a_id (w_agents lone) = [7] \<and> w_nextId lone = 100 \<and>
   0 < l_energy (settle defaults half 0 (mk_agent 7 Herbivore 100 100 1 0 50 100)
      (run_agents defaults half 0 [] (begin_tick defaults half 0 lone))) \<and>
   l_age (settle defaults half 0 (mk_agent 7 Herbivore 100 100 1 0 50 100)
      (run_agents defaults half 0 [] (begin_tick defaults half 0 lone))) < 800 \<and>
   a_id (mk_agent 7 Herbivore 100 100 1 0 50 100)
     \<notin> eatenHerbivores (settle defaults half 0 (mk_agent 7 Herbivore 100 100 1 0 50 100)
          (run_agents defaults half 0 [] (begin_tick defaults half 0 lone))) \<and>
   a_id (mk_agent 7 Herbivore 100 100 1 0 50 100) \<in> a_id ` set (w_agents (update defaults half 0 lone))"
proof -
  let ?a = "mk_agent 7 Herbivore 100 100 1 0 50 100"
  note law_lone = survival_law [of defaults half 0 lone]
  note law_starving = survival_law [of defaults half 0 starving]
  have present: "hd (w_agents (update defaults half 0 lone)) \<in> set (w_agents (update defaults half 0 lone))"
    by (simp add: lone_tick)
  with law_lone have alive: "0 < a_energy (hd (w_agents (update defaults half 0 lone))) \<and>
      a_age (hd (w_agents (update defaults half 0 lone))) < 800"
    by blast
  have split: "w_agents starving = [] @ starved # []"
    by (simp add: starving_def mk_world_def)
  have spent: "l_energy (settle defaults half 0 starved
      (run_agents defaults half 0 [] (begin_tick defaults half 0 starving))) \<le> 0"
    by (simp add: starving_settle)
  from law_starving split spent have dead: "survivor starved (settle defaults half 0 starved
      (run_agents defaults half 0 [] (begin_tick defaults half 0 starving)))
     \<notin> set (w_agents (update defaults half 0 starving))"
    by blast
  have ids: "map a_id (w_agents starving) = [7] \<and> w_nextId starving = 100"
    by (simp add: starving_def mk_world_def starved_def mk_agent_def)
  then have "distinct (map a_id (w_agents starving)) \<and>
      (\<forall>c\<in>set (w_agents starving). a_id c < w_nextId starving)"
    by (simp add: starving_def mk_world_def starved_def mk_agent_def)
  with law_starving split have
    "(\<exists>b\<in>set (w_agents (update defaults half 0 starving)). a_id b = a_id starved) \<longleftrightarrow>
       0 < l_energy (settle defaults half 0 starved
          (run_agents defaults half 0 [] (begin_tick defaults half 0 starving))) \<and>
       l_age (settle defaults half 0 starved
          (run_agents defaults half 0 [] (begin_tick defaults half 0 starving))) < 800 \<and>
       \<not> (a_type starved = Herbivore \<and>
          a_id starved \<in> eatenHerbivores (settle defaults half 0 starved
            (run_agents defaults half 0 [] (begin_tick defaults half 0 starving))))"
    by blast
  with spent have left: "a_id starved \<notin> a_id ` set (w_agents (update defaults half 0 starving))"
    by auto
  have split': "w_agents lone = [] @ ?a # []"
    by (simp add: lone_def mk_world_def)
  have ids': "map a_id (w_agents lone) = [7] \<and> w_nextId lone = 100"
    by (simp add: lone_def mk_world_def mk_agent_def)
  then have range': "distinct (map a_id (w_agents lone)) \<and>
      (\<forall>c\<in>set (w_agents lone). a_id c < w_nextId lone)"
    by (simp add: lone_def mk_world_def mk_agent_def)
  have passed: "0 < l_energy (settle defaults half 0 ?a
        (run_agents defaults half 0 [] (begin_tick defaults half 0 lone))) \<and>
      l_age (settle defaults half 0 ?a
        (run_agents defaults half 0 [] (begin_tick defaults half 0 lone))) < 800 \<and>
      a_id ?a \<notin> eatenHerbivores (settle defaults half 0 ?a
        (run_agents defaults half 0 [] (begin_tick defaults half 0 lone)))"
    by (simp add: lone_settled)
  from law_lone range' split' have
    "(\<exists>b\<in>set (w_agents (update defaults half 0 lone)). a_id b = a_id ?a) \<longleftrightarrow>
       0 < l_energy (settle defaults half 0 ?a
          (run_agents defaults half 0 [] (begin_tick defaults half 0 lone))) \<and>
       l_age (settle defaults half 0 ?a
          (run_agents defaults half 0 [] (begin_tick defaults half 0 lone))) < 800 \<and>
       \<not> (a_type ?a = Herbivore \<and>
          a_id ?a \<in> eatenHerbivores (settle defaults half 0 ?a
            (run_agents defaults half 0 [] (begin_tick defaults half 0 lone))))"
    by blast
  with passed obtain b where "b \<in> set (w_agents (update defaults half 0 lone))" "a_id b = a_id ?a"
    by blast
  then have stays: "a_id ?a \<in> a_id ` set (w_agents (update defaults half 0 lone))"
    by (metis imageI)
  from present alive split spent dead ids left split' ids' passed stays show ?thesis
    by (simp add: starving_tick)
qed




text \<open>
  Claim C6 as it is stated fails. It says that every agent of the output, the children
  spawned in the tick included, lies within \<open>[0, width] \<times> [0, height]\<close>. In \<open>wall_birth\<close> a
  herbivore ready to reproduce is at \<open>x = 1\<close>, where the clamp puts an agent that has
  crossed the left wall. It moves to \<open>x = 1.14\<close> and spawns its child at its own
  position plus a random offset that nothing clamps, here -5: the child 100 is in the
  output at \<open>x = -3.86\<close>.
\<close>

theorem child_outside_arena:
  "w_agents wall_birth = [bounced] \<and> a_x bounced = Num 1 \<and> a_y bounced = Num 250 \<and>
   map a_id (w_agents (update defaults birth_draws 0 wall_birth)) = [100, 7] \<and>
   map a_x (w_agents (update defaults birth_draws 0 wall_birth)) = [Num (- (193 / 50)), Num (57 / 50)] \<and>
   map a_y (w_agents (update defaults birth_draws 0 wall_birth)) = [Num 250, Num 250] \<and>
   Num (- (193 / 50)) < Num 0"
  by (simp add: wall_birth_tick) (simp add: wall_birth_def mk_world_def bounced_def mk_agent_def)

text \<open>
  Claim C6, amended. Every agent that a tick has processed has, when its position is
  a number, a position within \<open>[1, width - 1] \<times> [1, height - 1]\<close>. A coordinate that the
  move of the tick leaves below 1 is set to 1 and the velocity \<open>v\<close> on its axis to
  \<open>|v| + 0.2\<close>; a coordinate it leaves above \<open>width - 1\<close> (\<open>height - 1\<close>) is set to that bound
  and the velocity on its axis to \<open>-|v| - 0.2\<close>; a coordinate within the bounds and the
  velocity on its axis are left alone. So the velocity of an agent that has crossed a
  bound points into the arena afterwards: its sign is reversed when the agent was
  moving outward and kept when it was moving inward, the sign flip of lines 487-488
  being overwritten by lines 490-493. A child spawned in the tick is placed at the
  clamped position of its parent plus a random offset of at most 5 on each axis, which
  is not clamped; so, the random numbers being in \<open>[0, 1)\<close>, every agent of the output
  whose position is a number lies within \<open>[-4, width + 4] \<times> [-4, height + 4]\<close>.
\<close>

theorem position_bounds:
  assumes "\<forall>k. 0 \<le> rnd k \<and> rnd k < 1"
  shows "(\<forall>px py. a_x (survivor a (settle P rnd now a s)) = Num px \<and>
                   a_y (survivor a (settle P rnd now a s)) = Num py \<longrightarrow>
            1 \<le> px \<and> px \<le> WORLD_WIDTH - 1 \<and> 1 \<le> py \<and> py \<le> WORLD_HEIGHT - 1) \<and>
         (\<forall>b\<in>set (w_agents (update P rnd now W)). \<forall>px py. a_x b = Num px \<and> a_y b = Num py \<longrightarrow>
            - 4 \<le> px \<and> px \<le> WORLD_WIDTH + 4 \<and> - 4 \<le> py \<and> py \<le> WORLD_HEIGHT + 4) \<and>
         (\<forall>x u. l_x (free_flight P rnd now a s) = Num x \<and> l_dx (free_flight P rnd now a s) = Num u \<longrightarrow>
            (x < 1 \<longrightarrow> a_x (survivor a (settle P rnd now a s)) = Num 1 \<and>
                      a_dx (survivor a (settle P rnd now a s)) = Num (\<bar>u\<bar> + 1 / 5)) \<and>
            (WORLD_WIDTH - 1 < x \<longrightarrow>
                      a_x (survivor a (settle P rnd now a s)) = Num (WORLD_WIDTH - 1) \<and>
                      a_dx (survivor a (settle P rnd now a s)) = Num (- \<bar>u\<bar> - 1 / 5)) \<and>
            (1 \<le> x \<and> x \<le> WORLD_WIDTH - 1 \<longrightarrow>
                      a_x (survivor a (settle P rnd now a s)) = Num x \<and>
                      a_dx (survivor a (settle P rnd now a s)) = Num u)) \<and>
         (\<forall>y v. l_y (free_flight P rnd now a s) = Num y \<and> l_dy (free_flight P rnd now a s) = Num v \<longrightarrow>
            (y < 1 \<longrightarrow> a_y (survivor a (settle P rnd now a s)) = Num 1 \<and>
                      a_dy (survivor a (settle P rnd now a s)) = Num (\<bar>v\<bar> + 1 / 5)) \<and>
            (WORLD_HEIGHT - 1 < y \<longrightarrow>
                      a_y (survivor a (settle P rnd now a s)) = Num (WORLD_HEIGHT - 1) \<and>
                      a_dy (survivor a (settle P rnd now a s)) = Num (- \<bar>v\<bar> - 1 / 5)) \<and>
            (1 \<le> y \<and> y \<le> WORLD_HEIGHT - 1 \<longrightarrow>
                      a_y (survivor a (settle P rnd now a s)) = Num y \<and>
                      a_dy (survivor a (settle P rnd now a s)) = Num v))"
proof -
  have surv: "1 \<le> px \<and> px \<le> WORLD_WIDTH - 1 \<and> 1 \<le> py \<and> py \<le> WORLD_HEIGHT - 1"
    if "a_x (survivor a' (settle P rnd now a' t)) = Num px \<and>
        a_y (survivor a' (settle P rnd now a' t)) = Num py" for a' t px py
    using that approach_inside_x [of P rnd now a' t px] approach_inside_y [of P rnd now a' t py]
    by (simp add: survivor_fields settle_position)
  have out: "- 4 \<le> px \<and> px \<le> WORLD_WIDTH + 4 \<and> - 4 \<le> py \<and> py \<le> WORLD_HEIGHT + 4"
    if b: "b \<in> set (w_agents (update P rnd now W))" and num: "a_x b = Num px \<and> a_y b = Num py"
    for b px py
  proof -
    from update_output [OF b] obtain a' t where
      "b \<in> set (offspring P rnd now a' t) \<or> b = survivor a' (settle P rnd now a' t)"
      by blast
    then show ?thesis
    proof
      assume "b \<in> set (offspring P rnd now a' t)"
      then show ?thesis using offspring_position [OF assms, of b P now a' t px py] num by simp
    next
      assume "b = survivor a' (settle P rnd now a' t)"
      then show ?thesis using surv [of a' t px py] num by simp
    qed
  qed
  have ends: "a_x (survivor a (settle P rnd now a s)) = l_x (clamp_inside (reflect (free_flight P rnd now a s))) \<and>
      a_dx (survivor a (settle P rnd now a s)) = l_dx (clamp_inside (reflect (free_flight P rnd now a s))) \<and>
      a_y (survivor a (settle P rnd now a s)) = l_y (clamp_inside (reflect (free_flight P rnd now a s))) \<and>
      a_dy (survivor a (settle P rnd now a s)) = l_dy (clamp_inside (reflect (free_flight P rnd now a s)))"
    by (simp add: survivor_fields settle_position settle_velocity approach_walls)
  have across: "(x < 1 \<longrightarrow> a_x (survivor a (settle P rnd now a s)) = Num 1 \<and>
                      a_dx (survivor a (settle P rnd now a s)) = Num (\<bar>u\<bar> + 1 / 5)) \<and>
            (WORLD_WIDTH - 1 < x \<longrightarrow>
                      a_x (survivor a (settle P rnd now a s)) = Num (WORLD_WIDTH - 1) \<and>
                      a_dx (survivor a (settle P rnd now a s)) = Num (- \<bar>u\<bar> - 1 / 5)) \<and>
            (1 \<le> x \<and> x \<le> WORLD_WIDTH - 1 \<longrightarrow>
                      a_x (survivor a (settle P rnd now a s)) = Num x \<and>
                      a_dx (survivor a (settle P rnd now a s)) = Num u)"
    if "l_x (free_flight P rnd now a s) = Num x \<and> l_dx (free_flight P rnd now a s) = Num u" for x u
    using walls_x [of "free_flight P rnd now a s" x u] that by (simp only: ends) simp
  have along: "(y < 1 \<longrightarrow> a_y (survivor a (settle P rnd now a s)) = Num 1 \<and>
                      a_dy (survivor a (settle P rnd now a s)) = Num (\<bar>v\<bar> + 1 / 5)) \<and>
            (WORLD_HEIGHT - 1 < y \<longrightarrow>
                      a_y (survivor a (settle P rnd now a s)) = Num (WORLD_HEIGHT - 1) \<and>
                      a_dy (survivor a (settle P rnd now a s)) = Num (- \<bar>v\<bar> - 1 / 5)) \<and>
            (1 \<le> y \<and> y \<le> WORLD_HEIGHT - 1 \<longrightarrow>
                      a_y (survivor a (settle P rnd now a s)) = Num y \<and>
                      a_dy (survivor a (settle P rnd now a s)) = Num v)"
    if "l_y (free_flight P rnd now a s) = Num y \<and> l_dy (free_flight P rnd now a s) = Num v" for y v
    using walls_y [of "free_flight P rnd now a s" y v] that by (simp only: ends) simp
  show ?thesis
    apply (intro conjI)
    subgoal using surv by blast
    subgoal using out by blast
    subgoal using across by blast
    subgoal using along by blast
    done
qed

text \<open>
  The position bounds at work. In the tick of \<open>wall_birth\<close> the parent stays within the
  bounds, where nothing is changed, and its child is within 4 of the arena. In the tick
  of \<open>wall_bounce\<close> the herbivore moves out to \<open>x = -1.32\<close> with velocity -2.5 and is put
  at \<open>x = 1\<close> with velocity 2.7: the sign is reversed. In the tick after that of
  \<open>wall_birth\<close> the child moves from \<open>x = -3.86\<close> to \<open>x = -3.7242\<close> with velocity 0.18818
  and is put at \<open>x = 1\<close> with velocity 0.38818: the sign is kept.
\<close>

theorem position_bounds_witness:
  "(\<forall>k. 0 \<le> birth_draws k \<and> birth_draws k < 1) \<and>
   a_x (survivor bounced (settle defaults birth_draws 0 bounced (begin_tick defaults birth_draws 0 wall_birth)))
     = Num (57 / 50) \<and>
   a_y (survivor bounced (settle defaults birth_draws 0 bounced (begin_tick defaults birth_draws 0 wall_birth)))
     = Num 250 \<and>
   1 \<le> (57 / 50 :: real) \<and> (57 / 50 :: real) \<le> WORLD_WIDTH - 1 \<and>
   1 \<le> (250 :: real) \<and> (250 :: real) \<le> WORLD_HEIGHT - 1 \<and>
   hd (w_agents (update defaults birth_draws 0 wall_birth))
     \<in> set (w_agents (update defaults birth_draws 0 wall_birth)) \<and>
   a_x (hd (w_agents (update defaults birth_draws 0 wall_birth))) = Num (- (193 / 50)) \<and>
   a_y (hd (w_agents (update defaults birth_draws 0 wall_birth))) = Num 250 \<and>
   - 4 \<le> (- (193 / 50) :: real) \<and> (- (193 / 50) :: real) \<le> WORLD_WIDTH + 4 \<and>
   - 4 \<le> (250 :: real) \<and> (250 :: real) \<le> WORLD_HEIGHT + 4 \<and>
   l_x (free_flight defaults birth_draws 0 bounced (begin_tick defaults birth_draws 0 wall_birth))
     = Num (57 / 50) \<and>
   l_dx (free_flight defaults birth_draws 0 bounced (begin_tick defaults birth_draws 0 wall_birth))
     = Num (97 / 500) \<and>
   a_dx (survivor bounced (settle defaults birth_draws 0 bounced (begin_tick defaults birth_draws 0 wall_birth)))
     = Num (97 / 500) \<and>
   (\<forall>k. 0 \<le> half k \<and> half k < 1) \<and>
   l_x (free_flight defaults half 0 runner (begin_tick defaults half 0 wall_bounce)) = Num (- (33 / 25)) \<and>
   l_dx (free_flight defaults half 0 runner (begin_tick defaults half 0 wall_bounce)) = Num (- (5 / 2)) \<and>
   a_x (survivor runner (settle defaults half 0 runner (begin_tick defaults half 0 wall_bounce))) = Num 1 \<and>
   a_dx (survivor runner (settle defaults half 0 runner (begin_tick defaults half 0 wall_bounce)))
     = Num (27 / 10) \<and>
   l_y (free_flight defaults half 0 runner (begin_tick defaults half 0 wall_bounce)) = Num 250 \<and>
   l_dy (free_flight defaults half 0 runner (begin_tick defaults half 0 wall_bounce)) = Num 0 \<and>
   a_y (survivor runner (settle defaults half 0 runner (begin_tick defaults half 0 wall_bounce))) = Num 250 \<and>
   a_dy (survivor runner (settle defaults half 0 runner (begin_tick defaults half 0 wall_bounce))) = Num 0 \<and>
   stray = hd (w_agents (update defaults birth_draws 0 wall_birth)) \<and>
   a_x stray = Num (- (193 / 50)) \<and> a_dx stray = Num (97 / 500) \<and>
   l_x (free_flight defaults half 0 stray (begin_tick defaults half 0 strayed)) = Num (- (18621 / 5000)) \<and>
   l_dx (free_flight defaults half 0 stray (begin_tick defaults half 0 strayed)) = Num (9409 / 50000) \<and>
   a_x (survivor stray (settle defaults half 0 stray (begin_tick defaults half 0 strayed))) = Num 1 \<and>
   a_dx (survivor stray (settle defaults half 0 stray (begin_tick defaults half 0 strayed)))
     = Num (19409 / 50000)"
proof -
  have draws: "\<forall>k. 0 \<le> birth_draws k \<and> birth_draws k < 1"
    by (simp add: birth_draws_def)
  have halves: "\<forall>k. 0 \<le> half k \<and> half k < 1"
    by (simp add: half_def)
  note bounds = position_bounds [OF draws, of bounced defaults 0
      "begin_tick defaults birth_draws 0 wall_birth" wall_birth]
  note bounds_runner = position_bounds [OF halves, of runner defaults 0
      "begin_tick defaults half 0 wall_bounce" wall_bounce]
  note bounds_stray = position_bounds [OF halves, of stray defaults 0
      "begin_tick defaults half 0 strayed" strayed]
  have parent: "a_x (survivor bounced (settle defaults birth_draws 0 bounced
        (begin_tick defaults birth_draws 0 wall_birth))) = Num (57 / 50) \<and>
      a_y (survivor bounced (settle defaults birth_draws 0 bounced
        (begin_tick defaults birth_draws 0 wall_birth))) = Num 250"
    by (rule bounced_settled)
  with bounds have inside: "1 \<le> (57 / 50 :: real) \<and> (57 / 50 :: real) \<le> WORLD_WIDTH - 1 \<and>
      1 \<le> (250 :: real) \<and> (250 :: real) \<le> WORLD_HEIGHT - 1"
    by blast
  have child: "hd (w_agents (update defaults birth_draws 0 wall_birth))
        \<in> set (w_agents (update defaults birth_draws 0 wall_birth)) \<and>
      a_x (hd (w_agents (update defaults birth_draws 0 wall_birth))) = Num (- (193 / 50)) \<and>
      a_y (hd (w_agents (update defaults birth_draws 0 wall_birth))) = Num 250"
    by (simp add: wall_birth_tick)
  with bounds have near: "- 4 \<le> (- (193 / 50) :: real) \<and> (- (193 / 50) :: real) \<le> WORLD_WIDTH + 4 \<and>
      - 4 \<le> (250 :: real) \<and> (250 :: real) \<le> WORLD_HEIGHT + 4"
    by blast
  have flight: "l_x (free_flight defaults birth_draws 0 bounced (begin_tick defaults birth_draws 0 wall_birth))
        = Num (57 / 50) \<and>
      l_dx (free_flight defaults birth_draws 0 bounced (begin_tick defaults birth_draws 0 wall_birth))
        = Num (97 / 500)"
    by (rule bounced_flight)
  have "1 \<le> (57 / 50 :: real) \<and> (57 / 50 :: real) \<le> WORLD_WIDTH - 1"
    by (simp add: WORLD_WIDTH_def)
  with bounds flight have alone: "a_dx (survivor bounced (settle defaults birth_draws 0 bounced
        (begin_tick defaults birth_draws 0 wall_birth))) = Num (97 / 500)"
    by blast
  have flight_runner:
    "l_x (free_flight defaults half 0 runner (begin_tick defaults half 0 wall_bounce)) = Num (- (33 / 25)) \<and>
     l_dx (free_flight defaults half 0 runner (begin_tick defaults half 0 wall_bounce)) = Num (- (5 / 2))"
    "l_y (free_flight defaults half 0 runner (begin_tick defaults half 0 wall_bounce)) = Num 250 \<and>
     l_dy (free_flight defaults half 0 runner (begin_tick defaults half 0 wall_bounce)) = Num 0"
    by (simp_all add: runner_flight)
  have "(- (33 / 25) :: real) < 1" by simp
  with bounds_runner flight_runner(1) have
    "a_x (survivor runner (settle defaults half 0 runner (begin_tick defaults half 0 wall_bounce))) = Num 1 \<and>
     a_dx (survivor runner (settle defaults half 0 runner (begin_tick defaults half 0 wall_bounce)))
       = Num (\<bar>- (5 / 2)\<bar> + 1 / 5)"
    by blast
  then have turned:
    "a_x (survivor runner (settle defaults half 0 runner (begin_tick defaults half 0 wall_bounce))) = Num 1 \<and>
     a_dx (survivor runner (settle defaults half 0 runner (begin_tick defaults half 0 wall_bounce)))
       = Num (27 / 10)"
    by simp
  have "1 \<le> (250 :: real) \<and> (250 :: real) \<le> WORLD_HEIGHT - 1"
    by (simp add: WORLD_HEIGHT_def)
  with bounds_runner flight_runner(2) have level:
    "a_y (survivor runner (settle defaults half 0 runner (begin_tick defaults half 0 wall_bounce))) = Num 250 \<and>
     a_dy (survivor runner (settle defaults half 0 runner (begin_tick defaults half 0 wall_bounce))) = Num 0"
    by blast
  have who: "stray = hd (w_agents (update defaults birth_draws 0 wall_birth)) \<and>
      a_x stray = Num (- (193 / 50)) \<and> a_dx stray = Num (97 / 500)"
    by (simp add: stray_agent wall_birth_tick)
  have flight_stray:
    "l_x (free_flight defaults half 0 stray (begin_tick defaults half 0 strayed)) = Num (- (18621 / 5000)) \<and>
     l_dx (free_flight defaults half 0 stray (begin_tick defaults half 0 strayed)) = Num (9409 / 50000)"
    by (simp add: stray_flight)
  have "(- (18621 / 5000) :: real) < 1" by simp
  with bounds_stray flight_stray have
    "a_x (survivor stray (settle defaults half 0 stray (begin_tick defaults half 0 strayed))) = Num 1 \<and>
     a_dx (survivor stray (settle defaults half 0 stray (begin_tick defaults half 0 strayed)))
       = Num (\<bar>9409 / 50000\<bar> + 1 / 5)"
    by blast
  then have inward:
    "a_x (survivor stray (settle defaults half 0 stray (begin_tick defaults half 0 strayed))) = Num 1 \<and>
     a_dx (survivor stray (settle defaults half 0 stray (begin_tick defaults half 0 strayed)))
       = Num (19409 / 50000)"
    by simp
  from draws parent inside child near flight alone halves flight_runner turned level who flight_stray inward
  show ?thesis by blast
qed

text \<open>
  Claim C7 as it is stated fails. It says that the velocity of every agent of the output
  has a magnitude of at most the maximum of its kind, also when the boundary nudge
  fires after the cap. In \<open>wall_bounce\<close> a herbivore crosses the left wall with velocity
  \<open>(-2.6, 0)\<close>: the damping gives -2.522, the cap -2.5, the reflection 2.5, and the nudge
  of the clamp adds 0.2; the herbivore is in the output with velocity \<open>(2.7, 0)\<close>, above
  its maximum of 2.5.
\<close>

theorem nudge_exceeds_cap:
  "w_agents wall_bounce = [runner] \<and> a_x runner = Num (1 / 2) \<and> a_dx runner = Num (- (13 / 5)) \<and>
   a_dy runner = Num 0 \<and>
   map a_type (w_agents (update defaults half 0 wall_bounce)) = [Herbivore] \<and>
   map a_dx (w_agents (update defaults half 0 wall_bounce)) = [Num (27 / 10)] \<and>
   map a_dy (w_agents (update defaults half 0 wall_bounce)) = [Num 0] \<and>
   hypot (Num (27 / 10)) (Num 0) = Num (27 / 10) \<and>
   Num (maxVel Herbivore) < hypot (Num (27 / 10)) (Num 0)"
  by (simp add: wall_bounce_tick hypot_axis del: hypot.simps)
     (simp add: wall_bounce_def mk_world_def runner_def mk_agent_def maxVel_def)

text \<open>
  Claim C7, amended. Take a tick that starts with the stuck counter of every agent,
  when it has one, within 0 and 60, as \<open>initializeWorld\<close> leaves it (every counter is 0)
  and as every such tick leaves it again, and random numbers in \<open>[0, 1)\<close>. The velocity
  of every agent the tick has processed, when it is a number, has a magnitude of at
  most the maximum of its kind (3.2 for a carnivore, 2.5 for the other kinds) plus
  0.3, and the velocity of a child spawned in the tick a magnitude of at most that
  maximum plus 0.7. The velocity is capped at lines 463-469 and not again. The
  minimum-speed kick and the impulse of the stuck counter change it only when the
  speed before the cap is below 0.12, and the agent then ends the tick with a
  magnitude of at most 1.8, below the maximum; at a speed of 0.12 or more the velocity
  reaches the walls as the cap has left it. But the inward nudge of the clamp (0.2 on
  each axis) is added after the cap, and a child takes the velocity of its parent
  with up to 0.25 more on each axis: the magnitude can be above the maximum.
\<close>

theorem velocity_bound:
  assumes "\<forall>k. 0 \<le> rnd k \<and> rnd k < 1"
    and "\<forall>a\<in>set (w_agents W). \<forall>n. a_stuckTicks a = Some n \<longrightarrow> 0 \<le> n \<and> n \<le> 60"
  shows "(\<forall>b\<in>set (w_agents (update P rnd now W)). \<forall>u v. a_dx b = Num u \<and> a_dy b = Num v \<longrightarrow>
            sqrt (u\<^sup>2 + v\<^sup>2) \<le> maxVel (a_type b) + 7 / 10) \<and>
         (\<forall>a\<in>set (w_agents W). \<forall>s u v.
            a_dx (survivor a (settle P rnd now a s)) = Num u \<and>
            a_dy (survivor a (settle P rnd now a s)) = Num v \<longrightarrow>
            sqrt (u\<^sup>2 + v\<^sup>2) \<le> maxVel (a_type a) + 3 / 10) \<and>
         (\<forall>a\<in>set (w_agents W). \<forall>s u v.
            hypot (l_dx (move P a (steer rnd now a (load rnd a s))))
                  (l_dy (move P a (steer rnd now a (load rnd a s)))) < Num 0.12 \<and>
            a_dx (survivor a (settle P rnd now a s)) = Num u \<and>
            a_dy (survivor a (settle P rnd now a s)) = Num v \<longrightarrow>
            sqrt (u\<^sup>2 + v\<^sup>2) \<le> 9 / 5) \<and>
         (\<forall>a\<in>set (w_agents W). \<forall>s.
            \<not> hypot (l_dx (move P a (steer rnd now a (load rnd a s))))
                    (l_dy (move P a (steer rnd now a (load rnd a s)))) < Num 0.12 \<longrightarrow>
            l_dx (free_flight P rnd now a s) =
              l_dx (cap_velocity a (hypot (l_dx (move P a (steer rnd now a (load rnd a s))))
                                          (l_dy (move P a (steer rnd now a (load rnd a s)))))
                     (move P a (steer rnd now a (load rnd a s)))) \<and>
            l_dy (free_flight P rnd now a s) =
              l_dy (cap_velocity a (hypot (l_dx (move P a (steer rnd now a (load rnd a s))))
                                          (l_dy (move P a (steer rnd now a (load rnd a s)))))
                     (move P a (steer rnd now a (load rnd a s))))) \<and>
         (\<forall>b\<in>set (w_agents (update P rnd now W)). \<forall>n. a_stuckTicks b = Some n \<longrightarrow> 0 \<le> n \<and> n \<le> 60) \<and>
         (\<forall>b\<in>set (w_agents (initializeWorld rnd nid)). a_stuckTicks b = Some 0)"
proof -
  have range: "stuck_in_range a" if "a \<in> set (w_agents W)" for a
    using assms(2) that by (simp add: stuck_in_range_def)
  have surv: "sqrt (u\<^sup>2 + v\<^sup>2) \<le> maxVel (a_type a) + 3 / 10"
    if a: "a \<in> set (w_agents W)"
      and num: "a_dx (survivor a (settle P rnd now a s)) = Num u \<and>
        a_dy (survivor a (settle P rnd now a s)) = Num v"
    for a s u v
  proof -
    from num have "l_dx (approach P rnd now a s) = Num u \<and> l_dy (approach P rnd now a s) = Num v"
      by (simp add: survivor_fields settle_velocity)
    then show ?thesis using approach_tight [OF range [OF a], of P rnd now s] by (simp add: vel_le_def)
  qed
  have slow: "sqrt (u\<^sup>2 + v\<^sup>2) \<le> 9 / 5"
    if a: "a \<in> set (w_agents W)"
      and low: "hypot (l_dx (move P a (steer rnd now a (load rnd a s))))
                  (l_dy (move P a (steer rnd now a (load rnd a s)))) < Num 0.12"
      and num: "a_dx (survivor a (settle P rnd now a s)) = Num u \<and>
        a_dy (survivor a (settle P rnd now a s)) = Num v"
    for a s u v
  proof -
    from num have "l_dx (approach P rnd now a s) = Num u \<and> l_dy (approach P rnd now a s) = Num v"
      by (simp add: survivor_fields settle_velocity)
    then show ?thesis using approach_slow [OF range [OF a] low] by (simp add: vel_le_def)
  qed
  have out: "sqrt (u\<^sup>2 + v\<^sup>2) \<le> maxVel (a_type b) + 7 / 10"
    if b: "b \<in> set (w_agents (update P rnd now W))" and num: "a_dx b = Num u \<and> a_dy b = Num v"
    for b u v
  proof -
    from update_output [OF b] obtain a t where a: "a \<in> set (w_agents W)"
      and "b \<in> set (offspring P rnd now a t) \<or> b = survivor a (settle P rnd now a t)"
      by blast
    from this(2) show ?thesis
    proof
      assume "b \<in> set (offspring P rnd now a t)"
      with assms(1) range [OF a] show ?thesis using num by (rule offspring_velocity_tight)
    next
      assume b: "b = survivor a (settle P rnd now a t)"
      with num surv [OF a, of t u v] have "sqrt (u\<^sup>2 + v\<^sup>2) \<le> maxVel (a_type a) + 3 / 10"
        by simp
      then show ?thesis using b by (simp add: survivor_fields)
    qed
  qed
  have kept: "0 \<le> n \<and> n \<le> 60"
    if b: "b \<in> set (w_agents (update P rnd now W))" and n: "a_stuckTicks b = Some n" for b n
  proof -
    from update_output [OF b] obtain a t where a: "a \<in> set (w_agents W)"
      and "b \<in> set (offspring P rnd now a t) \<or> b = survivor a (settle P rnd now a t)"
      by blast
    from this(2) show ?thesis
    proof
      assume "b \<in> set (offspring P rnd now a t)"
      then have "stuck_in_range b" by (rule offspring_stuck)
      with n show ?thesis by (simp add: stuck_in_range_def)
    next
      assume "b = survivor a (settle P rnd now a t)"
      with n have "n = l_stuckTicks (approach P rnd now a t)"
        by (simp add: survivor_stuck settle_stuck)
      then show ?thesis using approach_tight [OF range [OF a], of P rnd now t] by simp
    qed
  qed
  have init: "\<forall>b\<in>set (w_agents (initializeWorld rnd nid)). a_stuckTicks b = Some 0"
    by (simp add: initializeWorld_def Let_def initial_agents_stuck)
  show ?thesis
    apply (intro conjI)
    subgoal using out by blast
    subgoal using surv by blast
    subgoal using slow by blast
    subgoal using free_flight_fast range by blast
    subgoal using kept by blast
    subgoal by (rule init)
    done
qed

text \<open>
  The velocity bounds at work. In the tick of \<open>wall_bounce\<close> the herbivore moves at a
  speed of 2.522: the cap brings its velocity to -2.5, which reaches the walls
  unchanged, and it ends the tick at 2.7, which is within 2.5 + 0.3. In the tick of
  \<open>idle\<close> the herbivore is at rest: the kick gives it the velocity -0.35, within 1.8.
  The first agent \<open>initializeWorld\<close> creates has a stuck counter of 0.
\<close>

theorem velocity_bound_witness:
  "(\<forall>k. 0 \<le> half k \<and> half k < 1) \<and>
   map a_stuckTicks (w_agents wall_bounce) = [Some 0] \<and>
   hd (w_agents (update defaults half 0 wall_bounce)) \<in> set (w_agents (update defaults half 0 wall_bounce)) \<and>
   a_dx (hd (w_agents (update defaults half 0 wall_bounce))) = Num (27 / 10) \<and>
   a_dy (hd (w_agents (update defaults half 0 wall_bounce))) = Num 0 \<and>
   sqrt ((27 / 10)\<^sup>2 + 0\<^sup>2) \<le> maxVel (a_type (hd (w_agents (update defaults half 0 wall_bounce)))) + 7 / 10 \<and>
   runner \<in> set (w_agents wall_bounce) \<and>
   a_dx (survivor runner (settle defaults half 0 runner (begin_tick defaults half 0 wall_bounce)))
     = Num (27 / 10) \<and>
   a_dy (survivor runner (settle defaults half 0 runner (begin_tick defaults half 0 wall_bounce))) = Num 0 \<and>
   sqrt ((27 / 10)\<^sup>2 + 0\<^sup>2) \<le> maxVel (a_type runner) + 3 / 10 \<and>
   hypot (l_dx (move defaults runner (steer half 0 runner (load half runner (begin_tick defaults half 0 wall_bounce)))))
         (l_dy (move defaults runner (steer half 0 runner (load half runner (begin_tick defaults half 0 wall_bounce)))))
     = Num (1261 / 500) \<and>
   l_dx (free_flight defaults half 0 runner (begin_tick defaults half 0 wall_bounce)) = Num (- (5 / 2)) \<and>
   l_dy (free_flight defaults half 0 runner (begin_tick defaults half 0 wall_bounce)) = Num 0 \<and>
   a_stuckTicks (hd (w_agents (update defaults half 0 wall_bounce))) = Some 0 \<and>
   map a_stuckTicks (w_agents idle) = [Some 0] \<and>
   idler \<in> set (w_agents idle) \<and>
   hypot (l_dx (move defaults idler (steer half 0 idler (load half idler (begin_tick defaults half 0 idle)))))
         (l_dy (move defaults idler (steer half 0 idler (load half idler (begin_tick defaults half 0 idle)))))
     = Num 0 \<and>
   a_dx (survivor idler (settle defaults half 0 idler (begin_tick defaults half 0 idle))) = Num (- (7 / 20)) \<and>
   a_dy (survivor idler (settle defaults half 0 idler (begin_tick defaults half 0 idle))) = Num 0 \<and>
   sqrt ((- (7 / 20))\<^sup>2 + 0\<^sup>2) \<le> 9 / 5 \<and>
   hd (w_agents (update defaults half 0 idle)) \<in> set (w_agents (update defaults half 0 idle)) \<and>
   a_stuckTicks (hd (w_agents (update defaults half 0 idle))) = Some 1 \<and>
   (0 :: int) \<le> 1 \<and> (1 :: int) \<le> 60 \<and>
   initial_agent half 0 0 \<in> set (w_agents (initializeWorld half 100)) \<and>
   a_stuckTicks (initial_agent half 0 0) = Some 0"
proof -
  let ?s = "begin_tick defaults half 0 wall_bounce"
  let ?i = "begin_tick defaults half 0 idle"
  have draws: "\<forall>k. 0 \<le> half k \<and> half k < 1"
    by (simp add: half_def)
  have fresh: "map a_stuckTicks (w_agents wall_bounce) = [Some 0]"
    by (simp add: wall_bounce_def mk_world_def runner_def mk_agent_def)
  have range: "\<forall>a\<in>set (w_agents wall_bounce). \<forall>n. a_stuckTicks a = Some n \<longrightarrow> 0 \<le> n \<and> n \<le> 60"
    by (simp add: wall_bounce_def mk_world_def runner_def mk_agent_def)
  have fresh': "map a_stuckTicks (w_agents idle) = [Some 0]"
    by (simp add: idle_def mk_world_def idler_def mk_agent_def)
  have range': "\<forall>a\<in>set (w_agents idle). \<forall>n. a_stuckTicks a = Some n \<longrightarrow> 0 \<le> n \<and> n \<le> 60"
    by (simp add: idle_def mk_world_def idler_def mk_agent_def)
  note bounds = velocity_bound [OF draws range, of defaults 0 100]
  note bounds' = velocity_bound [OF draws range', of defaults 0 100]
  have after: "hd (w_agents (update defaults half 0 wall_bounce))
        \<in> set (w_agents (update defaults half 0 wall_bounce)) \<and>
      a_dx (hd (w_agents (update defaults half 0 wall_bounce))) = Num (27 / 10) \<and>
      a_dy (hd (w_agents (update defaults half 0 wall_bounce))) = Num 0"
    by (simp add: wall_bounce_tick)
  with bounds have all: "sqrt ((27 / 10)\<^sup>2 + 0\<^sup>2)
      \<le> maxVel (a_type (hd (w_agents (update defaults half 0 wall_bounce)))) + 7 / 10"
    by blast
  have member: "runner \<in> set (w_agents wall_bounce)"
    by (simp add: wall_bounce_def mk_world_def)
  have settled: "a_dx (survivor runner (settle defaults half 0 runner ?s)) = Num (27 / 10) \<and>
      a_dy (survivor runner (settle defaults half 0 runner ?s)) = Num 0"
    by (rule runner_settled)
  with bounds member have tight: "sqrt ((27 / 10)\<^sup>2 + 0\<^sup>2) \<le> maxVel (a_type runner) + 3 / 10"
    by blast
  have speed: "hypot (l_dx (move defaults runner (steer half 0 runner (load half runner ?s))))
         (l_dy (move defaults runner (steer half 0 runner (load half runner ?s)))) = Num (1261 / 500)"
    by (rule runner_moved)
  then have "\<not> hypot (l_dx (move defaults runner (steer half 0 runner (load half runner ?s))))
         (l_dy (move defaults runner (steer half 0 runner (load half runner ?s)))) < Num 0.12"
    by simp
  with bounds member have
    "l_dx (free_flight defaults half 0 runner ?s) =
       l_dx (cap_velocity runner
          (hypot (l_dx (move defaults runner (steer half 0 runner (load half runner ?s))))
                 (l_dy (move defaults runner (steer half 0 runner (load half runner ?s)))))
          (move defaults runner (steer half 0 runner (load half runner ?s)))) \<and>
     l_dy (free_flight defaults half 0 runner ?s) =
       l_dy (cap_velocity runner
          (hypot (l_dx (move defaults runner (steer half 0 runner (load half runner ?s))))
                 (l_dy (move defaults runner (steer half 0 runner (load half runner ?s)))))
          (move defaults runner (steer half 0 runner (load half runner ?s))))"
    by blast
  then have capped: "l_dx (free_flight defaults half 0 runner ?s) = Num (- (5 / 2)) \<and>
      l_dy (free_flight defaults half 0 runner ?s) = Num 0"
    by (simp only: runner_capped)
  have counter: "a_stuckTicks (hd (w_agents (update defaults half 0 wall_bounce))) = Some 0"
    by (simp add: wall_bounce_tick)
  have member': "idler \<in> set (w_agents idle)"
    by (simp add: idle_def mk_world_def)
  have rest: "hypot (l_dx (move defaults idler (steer half 0 idler (load half idler ?i))))
         (l_dy (move defaults idler (steer half 0 idler (load half idler ?i)))) = Num 0"
    by (rule idler_moved)
  then have low: "hypot (l_dx (move defaults idler (steer half 0 idler (load half idler ?i))))
         (l_dy (move defaults idler (steer half 0 idler (load half idler ?i)))) < Num 0.12"
    by simp
  have kicked: "a_dx (survivor idler (settle defaults half 0 idler ?i)) = Num (- (7 / 20)) \<and>
      a_dy (survivor idler (settle defaults half 0 idler ?i)) = Num 0"
    by (rule idler_settled)
  with bounds' member' low have gentle: "sqrt ((- (7 / 20))\<^sup>2 + 0\<^sup>2) \<le> 9 / 5"
    by blast
  have counted: "hd (w_agents (update defaults half 0 idle)) \<in> set (w_agents (update defaults half 0 idle)) \<and>
      a_stuckTicks (hd (w_agents (update defaults half 0 idle))) = Some 1"
    by (simp add: idle_tick)
  with bounds' have within: "(0 :: int) \<le> 1 \<and> (1 :: int) \<le> 60"
    by blast
  have first: "initial_agent half 0 0 \<in> set (w_agents (initializeWorld half 100))"
    by (simp add: initializeWorld_def Let_def INITIAL_AGENTS_def initial_agents_first)
  with bounds have zero: "a_stuckTicks (initial_agent half 0 0) = Some 0"
    by blast
  from draws fresh after all member settled tight speed capped counter fresh' member' rest kicked
    gentle counted within first zero
  show ?thesis by blast
qed

text \<open>
  Claim C8 says that every unit vector of steering is computed with a guarded
  denominator (a distance of 0 taken as 1), the acceleration of a herbivore toward the
  nearest food in particular. The flight from a carnivore, the pursuit of a carnivore
  and its repulsion from food divide by \<open>d || 1\<close>; the acceleration toward food, lines
  364-365, divides by the distance itself. In \<open>on_food\<close> a herbivore is exactly on a food
  item: the distance is 0, the quotient \<open>0 / 0\<close> is \<open>NaN\<close>, and the herbivore leaves the
  tick with a velocity and a position that are \<open>NaN\<close>, without having eaten the item it
  is on.
\<close>

theorem food_pull_divides_by_zero:
  "map a_x (w_agents on_food) = [Num 1] \<and> map a_y (w_agents on_food) = [Num 1] \<and>
   map f_x (w_food on_food) = [Num 1] \<and> map f_y (w_food on_food) = [Num 1] \<and>
   hypot (Num 1 - Num 1) (Num 1 - Num 1) = Num 0 \<and>
   (Num 1 - Num 1) / hypot (Num 1 - Num 1) (Num 1 - Num 1) = NaN \<and>
   (Num 1 - Num 1) / or_one (hypot (Num 1 - Num 1) (Num 1 - Num 1)) = Num 0 \<and>
   map a_dx (w_agents (update defaults half 0 on_food)) = [NaN] \<and>
   map a_dy (w_agents (update defaults half 0 on_food)) = [NaN] \<and>
   map a_x (w_agents (update defaults half 0 on_food)) = [NaN] \<and>
   map a_y (w_agents (update defaults half 0 on_food)) = [NaN]"
  by (simp add: on_food_tick) (simp add: on_food_def mk_world_def mk_agent_def crumb_def)

text \<open>
  Claim C9. The neutral population never increases: the number of neutral agents in
  the world that one tick produces is at most the number in the world it started from.
\<close>

theorem neutral_never_increases:
  "count_kind Neutral (w_agents (update P rnd now W)) \<le> count_kind Neutral (w_agents W)"
  using run_agents_neutral [of P rnd now "w_agents W" "begin_tick P rnd now W"]
  by (simp add: update_agents end_tick_def begin_tick_fields count_kind_def)

text \<open>
  Claim C10. Every agent that \<open>initializeWorld\<close> creates has size 5, and every agent of
  the world that one tick produces has a size in the closed interval from 3 to 10:
  a newborn child has size 5, and the size of a surviving agent is recomputed as
  \<open>max(3, min(10, 3 + energy * 0.03))\<close> from the energy it has after feeding and
  reproduction, before the metabolism of the tick is subtracted. So every agent of
  the new world has size 5 or the size that this formula gives at the iteration of
  an agent of the array.
\<close>

theorem size_bounds:
  "(\<forall>b\<in>set (w_agents (initializeWorld rnd nid)). a_size b = 5) \<and>
   (\<forall>b\<in>set (w_agents (update P rnd now W)). 3 \<le> a_size b \<and> a_size b \<le> 10) \<and>
   a_size (herbivore_child rnd a s) = 5 \<and> a_size (carnivore_child rnd a s) = 5 \<and>
   l_size (metabolise P a s) = max 3 (min 10 (3 + l_energy s * 0.03)) \<and>
   a_size (survivor a (settle P rnd now a s)) =
     max 3 (min 10 (3 + l_energy (carnivore_turn P rnd a (herbivore_turn P rnd a
       (approach P rnd now a s))) * 0.03)) \<and>
   (\<forall>b\<in>set (w_agents (update P rnd now W)).
      a_size b = 5 \<or>
      (\<exists>pre c post. w_agents W = pre @ c # post \<and>
         b = survivor c (settle P rnd now c (run_agents P rnd now pre (begin_tick P rnd now W))) \<and>
         a_size b = max 3 (min 10 (3 + l_energy (carnivore_turn P rnd c (herbivore_turn P rnd c
           (approach P rnd now c (run_agents P rnd now pre (begin_tick P rnd now W))))) * 0.03))))"
proof -
  have init: "\<forall>b\<in>set (w_agents (initializeWorld rnd nid)). a_size b = 5"
    by (simp add: initializeWorld_def Let_def initial_agents_size)
  have tick: "3 \<le> a_size b \<and> a_size b \<le> 10" if "b \<in> set (w_agents (update P rnd now W))" for b
  proof -
    from update_output [OF that] obtain a t where
      "b \<in> set (offspring P rnd now a t) \<or> b = survivor a (settle P rnd now a t)"
      by blast
    then show ?thesis
    proof
      assume "b \<in> set (offspring P rnd now a t)"
      then have "a_size b = 5" by (simp add: offspring_props)
      then show ?thesis by simp
    next
      assume "b = survivor a (settle P rnd now a t)"
      then show ?thesis using settle_size [of P rnd now a t] by (simp add: survivor_fields)
    qed
  qed
  have kids: "a_size (herbivore_child rnd a s) = 5 \<and> a_size (carnivore_child rnd a s) = 5"
    by (simp add: herbivore_child_def carnivore_child_def)
  have derived: "l_size (metabolise P a s) = max 3 (min 10 (3 + l_energy s * 0.03))"
    by (simp add: metabolise_def)
  have stored: "a_size (survivor c (settle P rnd now c t)) =
     max 3 (min 10 (3 + l_energy (carnivore_turn P rnd c (herbivore_turn P rnd c
       (approach P rnd now c t))) * 0.03))" for c t
    by (simp add: survivor_def settle_def metabolise_def)
  have each: "a_size b = 5 \<or>
      (\<exists>pre c post. w_agents W = pre @ c # post \<and>
         b = survivor c (settle P rnd now c (run_agents P rnd now pre (begin_tick P rnd now W))) \<and>
         a_size b = max 3 (min 10 (3 + l_energy (carnivore_turn P rnd c (herbivore_turn P rnd c
           (approach P rnd now c (run_agents P rnd now pre (begin_tick P rnd now W))))) * 0.03)))"
    if "b \<in> set (w_agents (update P rnd now W))" for b
  proof -
    from update_output_at [OF that] obtain pre c post where
      split: "w_agents W = pre @ c # post"
      and b: "b \<in> set (offspring P rnd now c (run_agents P rnd now pre (begin_tick P rnd now W))) \<or>
         b = survivor c (settle P rnd now c (run_agents P rnd now pre (begin_tick P rnd now W)))"
      by blast
    from b show ?thesis
    proof
      assume "b \<in> set (offspring P rnd now c (run_agents P rnd now pre (begin_tick P rnd now W)))"
      then show ?thesis by (simp add: offspring_props)
    next
      assume "b = survivor c (settle P rnd now c (run_agents P rnd now pre (begin_tick P rnd now W)))"
      with split stored [of c "run_agents P rnd now pre (begin_tick P rnd now W)"] show ?thesis
        by blast
    qed
  qed
  show ?thesis
    apply (intro conjI)
    subgoal by (rule init)
    subgoal using tick by blast
    subgoal using kids by blast
    subgoal using kids by blast
    subgoal by (rule derived)
    subgoal by (rule stored)
    subgoal using each by blast
    done
qed

text \<open>
  The size bounds at work: the first agent \<open>initializeWorld\<close> creates has size 5, and
  the herbivore of \<open>lone\<close>, which has an energy of 50 after feeding, ends its tick with
  the size \<open>3 + 50 * 0.03 = 4.5\<close>, between 3 and 10.
\<close>

theorem size_bounds_witness:
  "initial_agent half 0 0 \<in> set (w_agents (initializeWorld half 100)) \<and>
   a_size (initial_agent half 0 0) = 5 \<and>
   hd (w_agents (update defaults half 0 lone)) \<in> set (w_agents (update defaults half 0 lone)) \<and>
   3 \<le> a_size (hd (w_agents (update defaults half 0 lone))) \<and>
   a_size (hd (w_agents (update defaults half 0 lone))) \<le> 10 \<and>
   l_energy (carnivore_turn defaults half (mk_agent 7 Herbivore 100 100 1 0 50 100)
     (herbivore_turn defaults half (mk_agent 7 Herbivore 100 100 1 0 50 100)
       (approach defaults half 0 (mk_agent 7 Herbivore 100 100 1 0 50 100) (begin_tick defaults half 0 lone))))
     = 50 \<and>
   a_size (survivor (mk_agent 7 Herbivore 100 100 1 0 50 100)
     (settle defaults half 0 (mk_agent 7 Herbivore 100 100 1 0 50 100) (begin_tick defaults half 0 lone)))
     = 9 / 2 \<and>
   a_size (hd (w_agents (update defaults half 0 lone))) = 9 / 2"
proof -
  let ?a = "mk_agent 7 Herbivore 100 100 1 0 50 100"
  note sizes = size_bounds [of half 100 defaults 0 lone ?a "begin_tick defaults half 0 lone"]
  have first: "initial_agent half 0 0 \<in> set (w_agents (initializeWorld half 100))"
    by (simp add: initializeWorld_def Let_def INITIAL_AGENTS_def initial_agents_first)
  with sizes have five: "a_size (initial_agent half 0 0) = 5"
    by blast
  have present: "hd (w_agents (update defaults half 0 lone)) \<in> set (w_agents (update defaults half 0 lone))"
    by (simp add: lone_tick)
  with sizes have within: "3 \<le> a_size (hd (w_agents (update defaults half 0 lone))) \<and>
      a_size (hd (w_agents (update defaults half 0 lone))) \<le> 10"
    by blast
  have fed: "l_energy (carnivore_turn defaults half ?a (herbivore_turn defaults half ?a
      (approach defaults half 0 ?a (begin_tick defaults half 0 lone)))) = 50"
    by (rule lone_fed)
  from sizes have "a_size (survivor ?a (settle defaults half 0 ?a (begin_tick defaults half 0 lone))) =
     max 3 (min 10 (3 + l_energy (carnivore_turn defaults half ?a (herbivore_turn defaults half ?a
       (approach defaults half 0 ?a (begin_tick defaults half 0 lone)))) * 0.03))"
    by blast
  then have grown: "a_size (survivor ?a (settle defaults half 0 ?a (begin_tick defaults half 0 lone))) = 9 / 2"
    by (simp add: fed)
  have now: "a_size (hd (w_agents (update defaults half 0 lone))) = 9 / 2"
    by (simp add: lone_tick)
  from first five present within fed grown now show ?thesis by blast
qed

end
